theory Spec2Isabelle
  imports Main "HOL-Library.Code_Target_Nat"
begin

section \<open>Many-to-many search on a multi-level partition\<close>

text \<open>
  A shallow embedding of \<^verbatim>\<open>src/engine/routing_algorithms/many_to_many_mld.cpp\<close>.
  Node, edge, cell and level identifiers and table indices are unsigned in the source and are
  natural numbers here; where the source computes with them (the position of a cell in the
  tables of the bidirectional driver, the counters of its loops) the 32-bit arithmetic is
  written out. Weights and durations are signed 32-bit integers in the source and are
  unbounded integers here (signed overflow is undefined in C++, so the embedding describes the
  executions in which it does not happen). Distances are floating-point numbers in the source;
  here their type is a parameter \<open>'d\<close> of which only \<open>0\<close>, \<open>+\<close>, \<open>-\<close> and \<open><\<close> are used, so
  that no statement depends on rounding.

  Every operation whose behaviour is undefined in the source (an index past the end of a vector,
  a read of a heap entry that was never inserted, \<^verbatim>\<open>DeleteMin\<close> on an empty heap) and
  every failed \<^verbatim>\<open>BOOST_ASSERT\<close> is an error value of the embedding.
\<close>

type_synonym NodeID = nat
type_synonym EdgeID = nat
type_synonym LevelID = nat
type_synonym CellID = nat
type_synonym EdgeWeight = int
type_synonym EdgeDuration = int

datatype error = AssertionFailed | OutOfBounds | NotInHeap | EmptyHeap | OutOfFuel

datatype direction = FORWARD_DIRECTION | REVERSE_DIRECTION

text \<open>
  Modelled from the spec: the sentinels of section 6. Their declarations (util/typedefs.hpp)
  are not among the sources; the values are the largest values of the 32-bit and 8-bit types.
\<close>

definition INVALID_EDGE_WEIGHT :: EdgeWeight where
  "INVALID_EDGE_WEIGHT = 2147483647"

definition MAXIMAL_EDGE_DURATION :: EdgeDuration where
  "MAXIMAL_EDGE_DURATION = 2147483647"

definition SPECIAL_NODEID :: NodeID where
  "SPECIAL_NODEID = 4294967295"

definition INVALID_LEVEL_ID :: LevelID where
  "INVALID_LEVEL_ID = 255"

text \<open>\<^verbatim>\<open>operator!\<close> on the direction template parameter.\<close>

fun opposite :: "direction \<Rightarrow> direction" where
  "opposite FORWARD_DIRECTION = REVERSE_DIRECTION"
| "opposite REVERSE_DIRECTION = FORWARD_DIRECTION"

text \<open>\<^verbatim>\<open>std::tie(a, b) < std::tie(c, d)\<close> on (weight, duration) pairs.\<close>

definition lex_less :: "EdgeWeight \<times> EdgeDuration \<Rightarrow> EdgeWeight \<times> EdgeDuration \<Rightarrow> bool" where
  "lex_less p q = (fst p < fst q \<or> (fst p = fst q \<and> snd p < snd q))"

definition lex_le :: "EdgeWeight \<times> EdgeDuration \<Rightarrow> EdgeWeight \<times> EdgeDuration \<Rightarrow> bool" where
  "lex_le p q = (lex_less p q \<or> p = q)"

text \<open>Sequencing of steps that may fail, and a \<^verbatim>\<open>for\<close> loop over a range whose body may fail.\<close>

definition and_then :: "error + 'a \<Rightarrow> ('a \<Rightarrow> error + 'b) \<Rightarrow> error + 'b" where
  "and_then r f = (case r of Inl e \<Rightarrow> Inl e | Inr x \<Rightarrow> f x)"

fun for_each :: "('a \<Rightarrow> 's \<Rightarrow> error + 's) \<Rightarrow> 'a list \<Rightarrow> 's \<Rightarrow> error + 's" where
  "for_each body [] s = Inr s"
| "for_each body (x # xs) s = and_then (body x s) (for_each body xs)"


subsection \<open>Phantom nodes\<close>

text \<open>
  Modelled from the spec: the phantom node of section 3 (its declaration is not among the
  sources). The record holds the two segment halves and, for each accessor the file calls, the
  value that accessor returns.
\<close>

record SegmentID =
  id_seg :: NodeID
  enabled :: bool

record 'd PhantomNode =
  forward_segment_id :: SegmentID
  reverse_segment_id :: SegmentID
  GetForwardWeightPlusOffset :: EdgeWeight
  GetReverseWeightPlusOffset :: EdgeWeight
  GetForwardDuration :: EdgeDuration
  GetReverseDuration :: EdgeDuration
  GetForwardDistance :: 'd
  GetReverseDistance :: 'd
  IsValidForwardSource :: bool
  IsValidReverseSource :: bool
  IsValidForwardTarget :: bool
  IsValidReverseTarget :: bool


subsection \<open>The query heap\<close>

text \<open>
  Modelled from the spec: the query heap of section 4.6 (util/query_heap.hpp is not among the
  sources). An entry is a key and the data (parent, from-shortcut flag, duration); \<open>queue\<close>
  holds the nodes that \<^verbatim>\<open>DeleteMin\<close> has not removed yet, and \<open>insertions\<close> records every
  call of \<^verbatim>\<open>Insert\<close> in order, so that "inserted at most once" can be stated. The two-argument
  data constructor used for seeds leaves the from-shortcut flag false. The field
  \<^verbatim>\<open>duration\<close> of the heap data is \<open>heap_duration\<close> here, and the fields \<^verbatim>\<open>weight\<close> and
  \<^verbatim>\<open>duration\<close> of the edge data are \<open>edge_weight\<close> and \<open>edge_duration\<close>, since the functions
  of the file use \<^verbatim>\<open>weight\<close> and \<^verbatim>\<open>duration\<close> as variables.
\<close>

record HeapData =
  parent :: NodeID
  from_clique_arc :: bool
  heap_duration :: EdgeDuration

record QueryHeap =
  entries :: "NodeID \<Rightarrow> (EdgeWeight \<times> HeapData) option"
  queue :: "NodeID list"
  insertions :: "NodeID list"

definition empty_heap :: QueryHeap where
  "empty_heap = \<lparr>entries = (\<lambda>n. None), queue = [], insertions = []\<rparr>"

definition WasInserted :: "QueryHeap \<Rightarrow> NodeID \<Rightarrow> bool" where
  "WasInserted h n = (entries h n \<noteq> None)"

definition Insert :: "QueryHeap \<Rightarrow> NodeID \<Rightarrow> EdgeWeight \<Rightarrow> HeapData \<Rightarrow> QueryHeap" where
  "Insert h n k d =
     h\<lparr>entries := (entries h)(n \<mapsto> (k, d)), queue := queue h @ [n],
       insertions := insertions h @ [n]\<rparr>"

definition GetKey :: "QueryHeap \<Rightarrow> NodeID \<Rightarrow> EdgeWeight option" where
  "GetKey h n = map_option fst (entries h n)"

definition GetData :: "QueryHeap \<Rightarrow> NodeID \<Rightarrow> HeapData option" where
  "GetData h n = map_option snd (entries h n)"

definition SetData :: "QueryHeap \<Rightarrow> NodeID \<Rightarrow> HeapData \<Rightarrow> QueryHeap" where
  "SetData h n d =
     (case entries h n of
        None \<Rightarrow> h
      | Some e \<Rightarrow> h\<lparr>entries := (entries h)(n \<mapsto> (fst e, d))\<rparr>)"

definition DecreaseKey :: "QueryHeap \<Rightarrow> NodeID \<Rightarrow> EdgeWeight \<Rightarrow> QueryHeap" where
  "DecreaseKey h n k =
     (case entries h n of
        None \<Rightarrow> h
      | Some e \<Rightarrow> h\<lparr>entries := (entries h)(n \<mapsto> (k, snd e))\<rparr>)"

definition Empty :: "QueryHeap \<Rightarrow> bool" where
  "Empty h = (queue h = [])"

definition key_less :: "QueryHeap \<Rightarrow> NodeID \<Rightarrow> NodeID \<Rightarrow> bool" where
  "key_less h a b =
     (case GetKey h a of
        None \<Rightarrow> False
      | Some x \<Rightarrow> (case GetKey h b of None \<Rightarrow> False | Some y \<Rightarrow> x < y))"

fun min_node :: "QueryHeap \<Rightarrow> NodeID \<Rightarrow> NodeID list \<Rightarrow> NodeID" where
  "min_node h best [] = best"
| "min_node h best (n # ns) = min_node h (if key_less h n best then n else best) ns"

definition DeleteMin :: "QueryHeap \<Rightarrow> (NodeID \<times> QueryHeap) option" where
  "DeleteMin h =
     (case queue h of
        [] \<Rightarrow> None
      | n # ns \<Rightarrow>
          (let m = min_node h n ns in Some (m, h\<lparr>queue := remove1 m (queue h)\<rparr>)))"


subsection \<open>The data facade\<close>

text \<open>
  The facade, the partition, the cell storage with its metric, and the helpers of
  routing_base_mld.hpp are declared outside the sources; they are parameters of the embedding,
  collected in one record. A cell is addressed by its level and cell id, and a range is the
  list of its elements.
\<close>

record EdgeData =
  forward :: bool
  backward :: bool
  edge_weight :: EdgeWeight
  edge_duration :: EdgeDuration

type_synonym PackedEdge = "NodeID \<times> NodeID \<times> bool"
type_synonym PackedPath = "PackedEdge list"

record 'd DataFacade =
  GetNumberOfLevels :: nat
  GetHighestDifferentLevel :: "NodeID \<Rightarrow> NodeID \<Rightarrow> LevelID"
  GetCell :: "LevelID \<Rightarrow> NodeID \<Rightarrow> CellID"
  GetDestinationNodes :: "LevelID \<Rightarrow> CellID \<Rightarrow> NodeID list"
  GetSourceNodes :: "LevelID \<Rightarrow> CellID \<Rightarrow> NodeID list"
  GetOutWeight :: "LevelID \<Rightarrow> CellID \<Rightarrow> NodeID \<Rightarrow> EdgeWeight list"
  GetOutDuration :: "LevelID \<Rightarrow> CellID \<Rightarrow> NodeID \<Rightarrow> EdgeDuration list"
  GetInWeight :: "LevelID \<Rightarrow> CellID \<Rightarrow> NodeID \<Rightarrow> EdgeWeight list"
  GetInDuration :: "LevelID \<Rightarrow> CellID \<Rightarrow> NodeID \<Rightarrow> EdgeDuration list"
  GetBorderEdgeRange :: "LevelID \<Rightarrow> NodeID \<Rightarrow> EdgeID list"
  GetAdjacentEdgeRange :: "NodeID \<Rightarrow> EdgeID list"
  GetEdgeData :: "EdgeID \<Rightarrow> EdgeData"
  GetTarget :: "EdgeID \<Rightarrow> NodeID"
  ExcludeNode :: "NodeID \<Rightarrow> bool"
  INVALID_EDGE_DISTANCE :: 'd
  computeEdgeDistance :: "NodeID \<Rightarrow> 'd"
  insertSourceInHeap :: "QueryHeap \<Rightarrow> 'd PhantomNode \<Rightarrow> QueryHeap"
  insertTargetInHeap :: "QueryHeap \<Rightarrow> 'd PhantomNode \<Rightarrow> QueryHeap"
  retrievePackedPathFromSingleManyToManyHeap :: "direction \<Rightarrow> QueryHeap \<Rightarrow> NodeID \<Rightarrow> PackedPath"
  unpackPathAndCalculateDistance ::
    "PackedPath \<Rightarrow> NodeID \<Rightarrow> 'd PhantomNode \<times> 'd PhantomNode \<Rightarrow> EdgeWeight \<times> NodeID list \<times> EdgeID list"


subsection \<open>The level resolver\<close>

text \<open>\<^verbatim>\<open>getNodeQueryLevel(partition, node, phantom_node)\<close>, with its lambda.\<close>

definition highest_diffrent_level :: "'d DataFacade \<Rightarrow> NodeID \<Rightarrow> SegmentID \<Rightarrow> LevelID" where
  "highest_diffrent_level facade node phantom_node =
     (if enabled phantom_node then GetHighestDifferentLevel facade (id_seg phantom_node) node
      else INVALID_LEVEL_ID)"

definition getNodeQueryLevel_phantom :: "'d DataFacade \<Rightarrow> NodeID \<Rightarrow> 'd PhantomNode \<Rightarrow> LevelID" where
  "getNodeQueryLevel_phantom facade node phantom_node =
     min (highest_diffrent_level facade node (forward_segment_id phantom_node))
         (highest_diffrent_level facade node (reverse_segment_id phantom_node))"

text \<open>\<^verbatim>\<open>getNodeQueryLevel(partition, node, phantom_node, maximal_level)\<close>.\<close>

definition getNodeQueryLevel_capped ::
  "'d DataFacade \<Rightarrow> NodeID \<Rightarrow> 'd PhantomNode \<Rightarrow> LevelID \<Rightarrow> LevelID" where
  "getNodeQueryLevel_capped facade node phantom_node maximal_level =
     (let node_level = getNodeQueryLevel_phantom facade node phantom_node
      in if node_level \<ge> maximal_level then INVALID_LEVEL_ID else node_level)"

text \<open>
  \<^verbatim>\<open>getNodeQueryLevel(partition, node, phantom_nodes, phantom_index, phantom_indices)\<close>:
  the lambda \<^verbatim>\<open>min_level\<close> and the loop over the indices. An index past the end of
  \<^verbatim>\<open>phantom_nodes\<close> is an error.
\<close>

definition min_level :: "'d DataFacade \<Rightarrow> NodeID \<Rightarrow> 'd PhantomNode \<Rightarrow> LevelID" where
  "min_level facade node phantom_node =
     (let forward_segment = forward_segment_id phantom_node;
          forward_level =
            (if enabled forward_segment
             then GetHighestDifferentLevel facade node (id_seg forward_segment)
             else INVALID_LEVEL_ID);
          reverse_segment = reverse_segment_id phantom_node;
          reverse_level =
            (if enabled reverse_segment
             then GetHighestDifferentLevel facade node (id_seg reverse_segment)
             else INVALID_LEVEL_ID)
      in min forward_level reverse_level)"

fun min_level_loop ::
  "'d DataFacade \<Rightarrow> NodeID \<Rightarrow> 'd PhantomNode list \<Rightarrow> nat list \<Rightarrow> LevelID \<Rightarrow> error + LevelID" where
  "min_level_loop facade node phantom_nodes [] result = Inr result"
| "min_level_loop facade node phantom_nodes (index # indices) result =
     (if index < length phantom_nodes
      then min_level_loop facade node phantom_nodes indices
             (min result (min_level facade node (phantom_nodes ! index)))
      else Inl OutOfBounds)"

definition getNodeQueryLevel_list ::
  "'d DataFacade \<Rightarrow> NodeID \<Rightarrow> 'd PhantomNode list \<Rightarrow> nat \<Rightarrow> nat list \<Rightarrow> error + LevelID" where
  "getNodeQueryLevel_list facade node phantom_nodes phantom_index phantom_indices =
     (if phantom_index < length phantom_nodes
      then min_level_loop facade node phantom_nodes phantom_indices
             (min_level facade node (phantom_nodes ! phantom_index))
      else Inl OutOfBounds)"

text \<open>
  The trailing arguments of \<^verbatim>\<open>relaxOutgoingEdges\<close> select one of the three overloads.
\<close>

datatype 'd level_args =
    OnePhantom "'d PhantomNode"
  | CappedPhantom "'d PhantomNode" LevelID
  | AllPhantoms "'d PhantomNode list" nat "nat list"

fun getNodeQueryLevel :: "'d DataFacade \<Rightarrow> NodeID \<Rightarrow> 'd level_args \<Rightarrow> error + LevelID" where
  "getNodeQueryLevel facade node (OnePhantom phantom_node) =
     Inr (getNodeQueryLevel_phantom facade node phantom_node)"
| "getNodeQueryLevel facade node (CappedPhantom phantom_node maximal_level) =
     Inr (getNodeQueryLevel_capped facade node phantom_node maximal_level)"
| "getNodeQueryLevel facade node (AllPhantoms phantom_nodes phantom_index phantom_indices) =
     getNodeQueryLevel_list facade node phantom_nodes phantom_index phantom_indices"


subsection \<open>Edge relaxation\<close>

text \<open>
  The insert-or-decrease-key block that \<^verbatim>\<open>relaxOutgoingEdges\<close> repeats for forward
  shortcuts, backward shortcuts (both with the flag true) and border edges (flag false).
\<close>

definition relax_edge ::
  "bool \<Rightarrow> NodeID \<Rightarrow> NodeID \<Rightarrow> EdgeWeight \<Rightarrow> EdgeDuration \<Rightarrow> QueryHeap \<Rightarrow> QueryHeap" where
  "relax_edge flag node to to_weight to_duration query_heap =
     (case entries query_heap to of
        None \<Rightarrow>
          Insert query_heap to to_weight
            \<lparr>parent = node, from_clique_arc = flag, heap_duration = to_duration\<rparr>
      | Some e \<Rightarrow>
          if lex_less (to_weight, to_duration) (fst e, heap_duration (snd e))
          then DecreaseKey
                 (SetData query_heap to
                    \<lparr>parent = node, from_clique_arc = flag, heap_duration = to_duration\<rparr>)
                 to to_weight
          else query_heap)"

text \<open>
  The loop over the shortcut weights of a cell, with the iterator over the boundary nodes and
  the range of shortcut durations advancing in step. Running out of boundary nodes or of
  durations, and durations left over at the end, fail the loop's assertions.
\<close>

fun shortcut_loop ::
  "NodeID \<Rightarrow> EdgeWeight \<Rightarrow> EdgeDuration \<Rightarrow> EdgeWeight list \<Rightarrow> NodeID list \<Rightarrow> EdgeDuration list \<Rightarrow>
   QueryHeap \<Rightarrow> error + QueryHeap" where
  "shortcut_loop node weight duration [] nodes shortcut_durations query_heap =
     (if shortcut_durations = [] then Inr query_heap else Inl AssertionFailed)"
| "shortcut_loop node weight duration (shortcut_weight # ws) [] shortcut_durations query_heap =
     Inl AssertionFailed"
| "shortcut_loop node weight duration (shortcut_weight # ws) (to # nodes) [] query_heap =
     Inl AssertionFailed"
| "shortcut_loop node weight duration (shortcut_weight # ws) (to # nodes) (d # ds) query_heap =
     shortcut_loop node weight duration ws nodes ds
       (if shortcut_weight \<noteq> INVALID_EDGE_WEIGHT \<and> node \<noteq> to
        then relax_edge True node to (weight + shortcut_weight) (duration + d) query_heap
        else query_heap)"

definition relax_shortcuts ::
  "direction \<Rightarrow> 'd DataFacade \<Rightarrow> LevelID \<Rightarrow> NodeID \<Rightarrow> EdgeWeight \<Rightarrow> EdgeDuration \<Rightarrow> QueryHeap \<Rightarrow>
   error + QueryHeap" where
  "relax_shortcuts DIRECTION facade level node weight duration query_heap =
     (let cell = GetCell facade level node
      in if DIRECTION = FORWARD_DIRECTION
         then shortcut_loop node weight duration
                (GetOutWeight facade level cell node)
                (GetDestinationNodes facade level cell)
                (GetOutDuration facade level cell node) query_heap
         else shortcut_loop node weight duration
                (GetInWeight facade level cell node)
                (GetSourceNodes facade level cell)
                (GetInDuration facade level cell node) query_heap)"

text \<open>The loop over the border edges of the node at the resolved level.\<close>

fun relax_border_edges ::
  "direction \<Rightarrow> 'd DataFacade \<Rightarrow> NodeID \<Rightarrow> EdgeWeight \<Rightarrow> EdgeDuration \<Rightarrow> EdgeID list \<Rightarrow>
   QueryHeap \<Rightarrow> error + QueryHeap" where
  "relax_border_edges DIRECTION facade node weight duration [] query_heap = Inr query_heap"
| "relax_border_edges DIRECTION facade node weight duration (edge # edges) query_heap =
     (let data = GetEdgeData facade edge
      in if (if DIRECTION = FORWARD_DIRECTION then forward data else backward data)
         then (let to = GetTarget facade edge
               in if ExcludeNode facade to
                  then relax_border_edges DIRECTION facade node weight duration edges query_heap
                  else if 0 < edge_weight data
                  then relax_border_edges DIRECTION facade node weight duration edges
                         (relax_edge False node to (weight + edge_weight data)
                            (duration + edge_duration data) query_heap)
                  else Inl AssertionFailed)
         else relax_border_edges DIRECTION facade node weight duration edges query_heap)"

definition relaxOutgoingEdges ::
  "direction \<Rightarrow> 'd DataFacade \<Rightarrow> NodeID \<Rightarrow> EdgeWeight \<Rightarrow> EdgeDuration \<Rightarrow> QueryHeap \<Rightarrow>
   'd level_args \<Rightarrow> error + QueryHeap" where
  "relaxOutgoingEdges DIRECTION facade node weight duration query_heap args =
     (if ExcludeNode facade node then Inl AssertionFailed
      else case getNodeQueryLevel facade node args of
        Inl e \<Rightarrow> Inl e
      | Inr level \<Rightarrow>
          if level = INVALID_LEVEL_ID then Inr query_heap
          else (case GetData query_heap node of
            None \<Rightarrow> Inl NotInHeap
          | Some node_data \<Rightarrow>
              (case (if 1 \<le> level \<and> \<not> from_clique_arc node_data
                     then relax_shortcuts DIRECTION facade level node weight duration query_heap
                     else Inr query_heap) of
                 Inl e \<Rightarrow> Inl e
               | Inr h \<Rightarrow>
                   relax_border_edges DIRECTION facade node weight duration
                     (GetBorderEdgeRange facade level node) h)))"


subsection \<open>The unidirectional search: \<^verbatim>\<open>oneToManySearch\<close>\<close>

text \<open>
  The local vectors of \<^verbatim>\<open>oneToManySearch\<close>, the multimap \<^verbatim>\<open>target_nodes_index\<close> (a list of
  keys with their (slot, weight, duration) values, in insertion order) and the query heap of the
  working data.
\<close>

record 'd OneToMany =
  weights :: "EdgeWeight list"
  durations :: "EdgeDuration list"
  distances :: "'d list"
  target_nodes :: "NodeID list"
  target_nodes_index :: "(NodeID \<times> nat \<times> EdgeWeight \<times> EdgeDuration) list"
  many_to_many_heap :: QueryHeap

text \<open>
  One \<^verbatim>\<open>target_nodes_index.insert\<close> followed by the assignment to
  \<^verbatim>\<open>distances[target_phantom_index]\<close> (lines 240-245 and the three blocks like it).
\<close>

definition add_target ::
  "NodeID \<Rightarrow> nat \<Rightarrow> EdgeWeight \<Rightarrow> EdgeDuration \<Rightarrow> nat \<Rightarrow> 'd \<Rightarrow> 'd OneToMany \<Rightarrow> error + 'd OneToMany" where
  "add_target node index target_weight target_duration target_phantom_index distance s =
     (if target_phantom_index < length (distances s)
      then Inr (s\<lparr>target_nodes_index :=
                    target_nodes_index s @ [(node, index, target_weight, target_duration)],
                  distances := (distances s)[target_phantom_index := distance]\<rparr>)
      else Inl OutOfBounds)"

text \<open>The body of the loop that collects the targets (lines 233-277).\<close>

definition collect_target ::
  "direction \<Rightarrow> ('d::{zero,plus,minus,uminus,ord}) PhantomNode list \<Rightarrow> nat \<times> nat \<Rightarrow> 'd OneToMany \<Rightarrow>
   error + 'd OneToMany" where
  "collect_target DIRECTION phantom_nodes p s =
     (let index = fst p; target_phantom_index = snd p
      in if target_phantom_index < length phantom_nodes
         then (let phantom_node = phantom_nodes ! target_phantom_index
               in if DIRECTION = FORWARD_DIRECTION
                  then and_then
                    (if IsValidForwardTarget phantom_node
                     then add_target (id_seg (forward_segment_id phantom_node)) index
                            (GetForwardWeightPlusOffset phantom_node)
                            (GetForwardDuration phantom_node)
                            target_phantom_index (GetForwardDistance phantom_node) s
                     else Inr s)
                    (\<lambda>s. if IsValidReverseTarget phantom_node
                     then add_target (id_seg (reverse_segment_id phantom_node)) index
                            (GetReverseWeightPlusOffset phantom_node)
                            (GetReverseDuration phantom_node)
                            target_phantom_index (GetReverseDistance phantom_node) s
                     else Inr s)
                  else and_then
                    (if IsValidForwardSource phantom_node
                     then add_target (id_seg (forward_segment_id phantom_node)) index
                            (- GetForwardWeightPlusOffset phantom_node)
                            (- GetForwardDuration phantom_node)
                            target_phantom_index (- GetForwardDistance phantom_node) s
                     else Inr s)
                    (\<lambda>s. if IsValidReverseSource phantom_node
                     then add_target (id_seg (reverse_segment_id phantom_node)) index
                            (- GetReverseWeightPlusOffset phantom_node)
                            (- GetReverseDuration phantom_node)
                            target_phantom_index (- GetReverseDistance phantom_node) s
                     else Inr s))
         else Inl OutOfBounds)"

text \<open>
  The lambda \<^verbatim>\<open>update_values\<close>: the loop over the candidates of \<^verbatim>\<open>equal_range(node)\<close>. A
  candidate whose path weight is not negative is erased from the multimap, whether or not it
  improved its slot.
\<close>

fun update_values_loop ::
  "NodeID \<Rightarrow> EdgeWeight \<Rightarrow> EdgeDuration \<Rightarrow> (nat \<times> EdgeWeight \<times> EdgeDuration) list \<Rightarrow> 'd OneToMany \<Rightarrow>
   error + 'd OneToMany" where
  "update_values_loop node weight duration [] s = Inr s"
| "update_values_loop node weight duration (candidate # candidates) s =
     (let index = fst candidate;
          target_weight = fst (snd candidate);
          target_duration = snd (snd candidate);
          path_weight = weight + target_weight
      in if path_weight \<ge> 0
         then (if index < length (weights s) \<and> index < length (durations s) \<and>
                  index < length (target_nodes s)
               then (let path_duration = duration + target_duration;
                         s1 = (if lex_less (path_weight, path_duration)
                                    (weights s ! index, durations s ! index)
                               then s\<lparr>weights := (weights s)[index := path_weight],
                                      durations := (durations s)[index := path_duration],
                                      target_nodes := (target_nodes s)[index := node]\<rparr>
                               else s)
                     in update_values_loop node weight duration candidates
                          (s1\<lparr>target_nodes_index :=
                                remove1 (node, candidate) (target_nodes_index s1)\<rparr>))
               else Inl OutOfBounds)
         else update_values_loop node weight duration candidates s)"

definition equal_range_index ::
  "(NodeID \<times> nat \<times> EdgeWeight \<times> EdgeDuration) list \<Rightarrow> NodeID \<Rightarrow> (nat \<times> EdgeWeight \<times> EdgeDuration) list" where
  "equal_range_index index node = map snd (filter (\<lambda>c. fst c = node) index)"

definition update_values ::
  "NodeID \<Rightarrow> EdgeWeight \<Rightarrow> EdgeDuration \<Rightarrow> 'd OneToMany \<Rightarrow> error + 'd OneToMany" where
  "update_values node weight duration s =
     update_values_loop node weight duration (equal_range_index (target_nodes_index s) node) s"

text \<open>
  The lambda \<^verbatim>\<open>insert_node\<close>. In the condition of its loop the conditional operator binds
  weaker than \<^verbatim>\<open>&&\<close>: the test of \<^verbatim>\<open>WasInserted\<close> belongs to the branch of the reverse
  direction only.
\<close>

fun place_adjacent ::
  "direction \<Rightarrow> 'd DataFacade \<Rightarrow> NodeID \<Rightarrow> EdgeWeight \<Rightarrow> EdgeDuration \<Rightarrow> EdgeID list \<Rightarrow> QueryHeap \<Rightarrow>
   QueryHeap" where
  "place_adjacent DIRECTION facade node initial_weight initial_duration [] query_heap = query_heap"
| "place_adjacent DIRECTION facade node initial_weight initial_duration (edge # edges) query_heap =
     (let data = GetEdgeData facade edge
      in place_adjacent DIRECTION facade node initial_weight initial_duration edges
           (if (if DIRECTION = FORWARD_DIRECTION then forward data
                else backward data \<and> \<not> WasInserted query_heap (GetTarget facade edge))
            then Insert query_heap (GetTarget facade edge) (edge_weight data + initial_weight)
                   \<lparr>parent = node, from_clique_arc = False,
                    heap_duration = edge_duration data + initial_duration\<rparr>
            else query_heap))"

definition insert_node ::
  "direction \<Rightarrow> 'd DataFacade \<Rightarrow> NodeID \<Rightarrow> EdgeWeight \<Rightarrow> EdgeDuration \<Rightarrow> 'd OneToMany \<Rightarrow>
   error + 'd OneToMany" where
  "insert_node DIRECTION facade node initial_weight initial_duration s =
     and_then (update_values node initial_weight initial_duration s)
       (\<lambda>s. Inr (s\<lparr>many_to_many_heap :=
                     place_adjacent DIRECTION facade node initial_weight initial_duration
                       (GetAdjacentEdgeRange facade node)
                       (Insert (many_to_many_heap s) node initial_weight
                          \<lparr>parent = node, from_clique_arc = False,
                           heap_duration = initial_duration\<rparr>)\<rparr>))"

text \<open>
  The block that places the source into the heap (lines 340-380). The variable
  \<^verbatim>\<open>source_phantom_offset\<close> is only printed and is left out, as is all diagnostic output.
\<close>

definition place_source ::
  "direction \<Rightarrow> 'd DataFacade \<Rightarrow> 'd PhantomNode list \<Rightarrow> nat \<Rightarrow> 'd OneToMany \<Rightarrow> error + 'd OneToMany" where
  "place_source DIRECTION facade phantom_nodes source_phantom_index s =
     (if source_phantom_index < length phantom_nodes
      then (let source_phantom_node = phantom_nodes ! source_phantom_index
            in if DIRECTION = FORWARD_DIRECTION
               then and_then
                 (if IsValidForwardSource source_phantom_node
                  then insert_node DIRECTION facade (id_seg (forward_segment_id source_phantom_node))
                         (- GetForwardWeightPlusOffset source_phantom_node)
                         (- GetForwardDuration source_phantom_node) s
                  else Inr s)
                 (\<lambda>s. if IsValidReverseSource source_phantom_node
                  then insert_node DIRECTION facade (id_seg (reverse_segment_id source_phantom_node))
                         (- GetReverseWeightPlusOffset source_phantom_node)
                         (- GetReverseDuration source_phantom_node) s
                  else Inr s)
               else and_then
                 (if IsValidForwardTarget source_phantom_node
                  then insert_node DIRECTION facade (id_seg (forward_segment_id source_phantom_node))
                         (GetForwardWeightPlusOffset source_phantom_node)
                         (GetForwardDuration source_phantom_node) s
                  else Inr s)
                 (\<lambda>s. if IsValidReverseTarget source_phantom_node
                  then insert_node DIRECTION facade (id_seg (reverse_segment_id source_phantom_node))
                         (GetReverseWeightPlusOffset source_phantom_node)
                         (GetReverseDuration source_phantom_node) s
                  else Inr s))
      else Inl OutOfBounds)"

text \<open>
  The main loop (lines 382-401). The first argument bounds the number of iterations; a loop
  that needs more ends in \<open>OutOfFuel\<close>.
\<close>

fun search_loop ::
  "nat \<Rightarrow> direction \<Rightarrow> 'd DataFacade \<Rightarrow> 'd PhantomNode list \<Rightarrow> nat \<Rightarrow> nat list \<Rightarrow> 'd OneToMany \<Rightarrow>
   error + 'd OneToMany" where
  "search_loop fuel DIRECTION facade phantom_nodes source_phantom_index phantom_indices s =
     (if \<not> Empty (many_to_many_heap s) \<and> target_nodes_index s \<noteq> []
      then (case fuel of
              0 \<Rightarrow> Inl OutOfFuel
            | Suc fuel' \<Rightarrow>
               (case DeleteMin (many_to_many_heap s) of
                  None \<Rightarrow> Inl EmptyHeap
                | Some popped \<Rightarrow>
                   (let node = fst popped; query_heap = snd popped
                    in case entries query_heap node of
                         None \<Rightarrow> Inl NotInHeap
                       | Some e \<Rightarrow>
                          (let weight = fst e; duration = heap_duration (snd e)
                           in and_then
                                (update_values node weight duration
                                   (s\<lparr>many_to_many_heap := query_heap\<rparr>))
                                (\<lambda>s. and_then
                                   (relaxOutgoingEdges DIRECTION facade node weight duration
                                      (many_to_many_heap s)
                                      (AllPhantoms phantom_nodes source_phantom_index
                                         phantom_indices))
                                   (\<lambda>h. search_loop fuel' DIRECTION facade phantom_nodes
                                          source_phantom_index phantom_indices
                                          (s\<lparr>many_to_many_heap := h\<rparr>)))))))
      else Inr s)"


text \<open>
  The distance loop (lines 419-548). The loop variable \<^verbatim>\<open>target_phantom_index\<close> is the
  position of the target in \<^verbatim>\<open>phantom_indices\<close>. \<^verbatim>\<open>std::prev\<close> of the end of an empty vector
  of unpacked nodes is an error.
\<close>

definition set_distance :: "nat \<Rightarrow> 'd \<Rightarrow> 'd OneToMany \<Rightarrow> error + 'd OneToMany" where
  "set_distance i distance s =
     (if i < length (distances s) then Inr (s\<lparr>distances := (distances s)[i := distance]\<rparr>)
      else Inl OutOfBounds)"

definition sum_annotation :: "('d::{zero,plus}) DataFacade \<Rightarrow> NodeID list \<Rightarrow> 'd" where
  "sum_annotation facade unpacked_nodes =
     foldl (\<lambda>annotation node. annotation + computeEdgeDistance facade node) 0
       (butlast unpacked_nodes)"

definition empty_path_distance ::
  "direction \<Rightarrow> ('d::{zero,plus,minus,uminus,ord}) PhantomNode \<Rightarrow> 'd PhantomNode \<Rightarrow> nat \<Rightarrow>
   'd OneToMany \<Rightarrow> error + 'd OneToMany" where
  "empty_path_distance DIRECTION source_phantom_node target_phantom_node target_phantom_index s =
     (if DIRECTION = FORWARD_DIRECTION
      then (if IsValidForwardSource source_phantom_node \<and>
               IsValidForwardTarget target_phantom_node \<and>
               GetForwardDistance source_phantom_node < GetForwardDistance target_phantom_node
            then set_distance target_phantom_index
                   (GetForwardDistance target_phantom_node -
                    GetForwardDistance source_phantom_node) s
            else if IsValidReverseSource source_phantom_node \<and>
                    IsValidReverseTarget target_phantom_node
            then set_distance target_phantom_index
                   (GetReverseDistance target_phantom_node -
                    GetReverseDistance source_phantom_node) s
            else Inr s)
      else (if IsValidForwardTarget source_phantom_node \<and>
               IsValidForwardSource target_phantom_node \<and>
               GetForwardDistance target_phantom_node < GetForwardDistance source_phantom_node
            then set_distance target_phantom_index
                   (GetForwardDistance source_phantom_node -
                    GetForwardDistance target_phantom_node) s
            else if IsValidReverseTarget source_phantom_node \<and>
                    IsValidReverseSource target_phantom_node
            then set_distance target_phantom_index
                   (GetReverseDistance source_phantom_node -
                    GetReverseDistance target_phantom_node) s
            else Inr s))"

definition distance_cell ::
  "direction \<Rightarrow> ('d::{zero,plus,minus,uminus,ord}) DataFacade \<Rightarrow> 'd PhantomNode list \<Rightarrow> nat \<Rightarrow>
   nat list \<Rightarrow> nat \<Rightarrow> 'd OneToMany \<Rightarrow> error + 'd OneToMany" where
  "distance_cell DIRECTION facade phantom_nodes source_phantom_index phantom_indices
     target_phantom_index s =
     (if target_phantom_index = source_phantom_index \<or>
         target_phantom_index = source_phantom_index mod length phantom_indices
      then set_distance target_phantom_index 0 s
      else if target_phantom_index < length (target_nodes s) \<and>
              target_phantom_index < length phantom_indices \<and>
              phantom_indices ! target_phantom_index < length phantom_nodes \<and>
              source_phantom_index < length phantom_nodes
      then (let target_node_id = target_nodes s ! target_phantom_index;
                target_phantom_node = phantom_nodes ! (phantom_indices ! target_phantom_index);
                source_phantom_node = phantom_nodes ! source_phantom_index;
                packed_path =
                  rev (retrievePackedPathFromSingleManyToManyHeap facade DIRECTION
                         (many_to_many_heap s) target_node_id)
            in if packed_path = []
               then empty_path_distance DIRECTION source_phantom_node target_phantom_node
                      target_phantom_index s
               else (let unpacked_nodes =
                           fst (snd (unpackPathAndCalculateDistance facade packed_path
                                       target_node_id (target_phantom_node, target_phantom_node)))
                     in if unpacked_nodes = [] then Inl OutOfBounds
                        else if target_phantom_index < length (distances s)
                        then set_distance target_phantom_index
                               (distances s ! target_phantom_index +
                                sum_annotation facade unpacked_nodes) s
                        else Inl OutOfBounds))
      else Inl OutOfBounds)"

text \<open>\<^verbatim>\<open>oneToManySearch\<close>; the first argument is the fuel of its main loop.\<close>

definition oneToManySearch ::
  "nat \<Rightarrow> direction \<Rightarrow> ('d::{zero,plus,minus,uminus,ord}) DataFacade \<Rightarrow> 'd PhantomNode list \<Rightarrow> nat \<Rightarrow>
   nat list \<Rightarrow> bool \<Rightarrow> error + (EdgeDuration list \<times> 'd list)" where
  "oneToManySearch fuel DIRECTION facade phantom_nodes source_phantom_index phantom_indices
     calculate_distance =
     (let n = length phantom_indices;
          s0 = \<lparr>weights = replicate n INVALID_EDGE_WEIGHT,
                durations = replicate n MAXIMAL_EDGE_DURATION,
                distances = replicate n (INVALID_EDGE_DISTANCE facade),
                target_nodes = replicate n SPECIAL_NODEID,
                target_nodes_index = [],
                many_to_many_heap = empty_heap\<rparr>
      in and_then
           (for_each (collect_target DIRECTION phantom_nodes) (zip [0..<n] phantom_indices) s0)
           (\<lambda>s. and_then
              (place_source DIRECTION facade phantom_nodes source_phantom_index s)
              (\<lambda>s. and_then
                 (search_loop fuel DIRECTION facade phantom_nodes source_phantom_index
                    phantom_indices s)
                 (\<lambda>s. and_then
                    (if calculate_distance
                     then for_each
                            (distance_cell DIRECTION facade phantom_nodes source_phantom_index
                               phantom_indices)
                            [0..<n] s
                     else Inr s)
                    (\<lambda>s. Inr (durations s, distances s))))))"


subsection \<open>The bidirectional search: \<^verbatim>\<open>mld::manyToManySearch\<close>\<close>

text \<open>
  Modelled from the spec: the bucket of section 3 (its declaration is not among the sources).
  Its fields \<^verbatim>\<open>from_clique_arc\<close>, \<^verbatim>\<open>weight\<close> and \<^verbatim>\<open>duration\<close> carry the prefix \<open>bucket\<close> here.
  Buckets are ordered by (node, column); \<^verbatim>\<open>std::equal_range\<close> with the comparator on the node
  alone yields the buckets of a node, and with the comparator on (node, column) the bucket of a
  node in a column. Both are stated for a sorted vector: the first as a filter, the second by
  the position of its lower bound, which the code dereferences without a test.
\<close>

record NodeBucket =
  middle_node :: NodeID
  parent_node :: NodeID
  column_index :: nat
  bucket_from_clique_arc :: bool
  bucket_weight :: EdgeWeight
  bucket_duration :: EdgeDuration

definition equal_range_node :: "NodeBucket list \<Rightarrow> NodeID \<Rightarrow> NodeBucket list" where
  "equal_range_node search_space_with_buckets node =
     filter (\<lambda>b. middle_node b = node) search_space_with_buckets"

definition bucket_before :: "NodeBucket \<Rightarrow> NodeID \<Rightarrow> nat \<Rightarrow> bool" where
  "bucket_before b node column_idx =
     (middle_node b < node \<or> (middle_node b = node \<and> column_index b < column_idx))"

definition lower_bound_column :: "NodeBucket list \<Rightarrow> NodeID \<Rightarrow> nat \<Rightarrow> nat" where
  "lower_bound_column search_space_with_buckets node column_idx =
     length (takeWhile (\<lambda>b. bucket_before b node column_idx) search_space_with_buckets)"

definition equal_range_column :: "NodeBucket list \<Rightarrow> NodeID \<Rightarrow> nat \<Rightarrow> NodeBucket list" where
  "equal_range_column search_space_with_buckets node column_idx =
     filter (\<lambda>b. middle_node b = node \<and> column_index b = column_idx) search_space_with_buckets"

fun insert_bucket :: "NodeBucket \<Rightarrow> NodeBucket list \<Rightarrow> NodeBucket list" where
  "insert_bucket b [] = [b]"
| "insert_bucket b (c # cs) =
     (if bucket_before c (middle_node b) (column_index b) then c # insert_bucket b cs
      else b # c # cs)"

definition sort_buckets :: "NodeBucket list \<Rightarrow> NodeBucket list" where
  "sort_buckets search_space_with_buckets = foldr insert_bucket search_space_with_buckets []"

text \<open>The three result tables of the driver and its table of meeting nodes.\<close>

record Tables =
  weights_table :: "EdgeWeight list"
  durations_table :: "EdgeDuration list"
  middle_nodes_table :: "NodeID list"

text \<open>The tables as the driver initialises them (lines 892-895).\<close>

definition initial_tables :: "nat \<Rightarrow> Tables" where
  "initial_tables number_of_entries =
     \<lparr>weights_table = replicate number_of_entries INVALID_EDGE_WEIGHT,
      durations_table = replicate number_of_entries MAXIMAL_EDGE_DURATION,
      middle_nodes_table = replicate number_of_entries SPECIAL_NODEID\<rparr>"

text \<open>
  The row, the column and the two sizes are of the type \<^verbatim>\<open>unsigned\<close> in
  \<^verbatim>\<open>forwardRoutingStep\<close> and in \<^verbatim>\<open>calculateDistances\<close>: a size of the driver is converted to
  32 bits when it is passed, and the position of a cell is computed in 32 bits and wraps.
\<close>

definition as_unsigned :: "nat \<Rightarrow> nat" where
  "as_unsigned n = n mod 4294967296"

text \<open>The position of a cell in the tables (lines 588-590 and 697-699).\<close>

definition location :: "direction \<Rightarrow> nat \<Rightarrow> nat \<Rightarrow> nat \<Rightarrow> nat \<Rightarrow> nat" where
  "location DIRECTION row_idx number_of_sources number_of_targets column_idx =
     (if DIRECTION = FORWARD_DIRECTION
      then as_unsigned (row_idx * number_of_targets + column_idx)
      else as_unsigned (row_idx + column_idx * number_of_sources))"

text \<open>The loop of \<^verbatim>\<open>forwardRoutingStep\<close> over the buckets of the settled node.\<close>

fun bucket_loop ::
  "direction \<Rightarrow> nat \<Rightarrow> nat \<Rightarrow> nat \<Rightarrow> NodeID \<Rightarrow> EdgeWeight \<Rightarrow> EdgeDuration \<Rightarrow> NodeBucket list \<Rightarrow> Tables \<Rightarrow>
   error + Tables" where
  "bucket_loop DIRECTION row_idx number_of_sources number_of_targets node source_weight
     source_duration [] t = Inr t"
| "bucket_loop DIRECTION row_idx number_of_sources number_of_targets node source_weight
     source_duration (current_bucket # bucket_list) t =
     (let column_idx = column_index current_bucket;
          target_weight = bucket_weight current_bucket;
          target_duration = bucket_duration current_bucket;
          loc = location DIRECTION row_idx number_of_sources number_of_targets column_idx
      in if loc < length (weights_table t) \<and> loc < length (durations_table t) \<and>
            loc < length (middle_nodes_table t)
         then (let current_weight = weights_table t ! loc;
                   current_duration = durations_table t ! loc;
                   new_weight = source_weight + target_weight;
                   new_duration = source_duration + target_duration
               in bucket_loop DIRECTION row_idx number_of_sources number_of_targets node
                    source_weight source_duration bucket_list
                    (if new_weight \<ge> 0 \<and>
                        lex_less (new_weight, new_duration) (current_weight, current_duration)
                     then t\<lparr>weights_table := (weights_table t)[loc := new_weight],
                            durations_table := (durations_table t)[loc := new_duration],
                            middle_nodes_table := (middle_nodes_table t)[loc := node]\<rparr>
                     else t))
         else Inl OutOfBounds)"

definition forwardRoutingStep ::
  "direction \<Rightarrow> 'd DataFacade \<Rightarrow> nat \<Rightarrow> nat \<Rightarrow> nat \<Rightarrow> QueryHeap \<Rightarrow> NodeBucket list \<Rightarrow> Tables \<Rightarrow>
   'd PhantomNode \<Rightarrow> error + (QueryHeap \<times> Tables)" where
  "forwardRoutingStep DIRECTION facade row_idx number_of_sources number_of_targets query_heap
     search_space_with_buckets t phantom_node =
     (case DeleteMin query_heap of
        None \<Rightarrow> Inl EmptyHeap
      | Some popped \<Rightarrow>
          (let node = fst popped; h = snd popped
           in case entries h node of
                None \<Rightarrow> Inl NotInHeap
              | Some e \<Rightarrow>
                 (let source_weight = fst e; source_duration = heap_duration (snd e)
                  in and_then
                       (bucket_loop DIRECTION row_idx number_of_sources number_of_targets node
                          source_weight source_duration
                          (equal_range_node search_space_with_buckets node) t)
                       (\<lambda>t. and_then
                          (relaxOutgoingEdges DIRECTION facade node source_weight
                             source_duration h (OnePhantom phantom_node))
                          (\<lambda>h. Inr (h, t))))))"

text \<open>
  \<^verbatim>\<open>backwardRoutingStep\<close>. The cap \<^verbatim>\<open>partition.GetNumberOfLevels() - 1\<close> is computed in
  \<^verbatim>\<open>int\<close> and converted to the 8-bit level type.
\<close>

definition maximal_level_of :: "'d DataFacade \<Rightarrow> LevelID" where
  "maximal_level_of facade = nat ((int (GetNumberOfLevels facade) - 1) mod 256)"

definition backwardRoutingStep ::
  "direction \<Rightarrow> 'd DataFacade \<Rightarrow> nat \<Rightarrow> QueryHeap \<Rightarrow> NodeBucket list \<Rightarrow> 'd PhantomNode \<Rightarrow>
   error + (QueryHeap \<times> NodeBucket list)" where
  "backwardRoutingStep DIRECTION facade column_idx query_heap search_space_with_buckets
     phantom_node =
     (case DeleteMin query_heap of
        None \<Rightarrow> Inl EmptyHeap
      | Some popped \<Rightarrow>
          (let node = fst popped; h = snd popped
           in case entries h node of
                None \<Rightarrow> Inl NotInHeap
              | Some e \<Rightarrow>
                 (let target_weight = fst e;
                      target_duration = heap_duration (snd e);
                      buckets = search_space_with_buckets @
                        [\<lparr>middle_node = node, parent_node = parent (snd e),
                          column_index = column_idx,
                          bucket_from_clique_arc = from_clique_arc (snd e),
                          bucket_weight = target_weight,
                          bucket_duration = target_duration\<rparr>];
                      maximal_level = maximal_level_of facade
                  in and_then
                       (relaxOutgoingEdges (opposite DIRECTION) facade node target_weight
                          target_duration h (CappedPhantom phantom_node maximal_level))
                       (\<lambda>h. Inr (h, buckets)))))"


text \<open>
  \<^verbatim>\<open>retrievePackedPathFromSearchSpace\<close>. The loop follows the parents of the buckets of one
  column; \<open>first\<close> is the position of \<^verbatim>\<open>bucket_list.first\<close>, which the loop dereferences
  before it compares it with the end of the vector.
\<close>

fun packed_leg_loop ::
  "nat \<Rightarrow> NodeBucket list \<Rightarrow> nat \<Rightarrow> NodeID \<Rightarrow> nat \<Rightarrow> (NodeID \<times> bool) list \<Rightarrow>
   error + (NodeID \<times> bool) list" where
  "packed_leg_loop fuel search_space_with_buckets column_idx current_node_id first packed_leg =
     (if first < length search_space_with_buckets
      then (if parent_node (search_space_with_buckets ! first) \<noteq> current_node_id
            then (case fuel of
                    0 \<Rightarrow> Inl OutOfFuel
                  | Suc fuel' \<Rightarrow>
                     (let b = search_space_with_buckets ! first
                      in packed_leg_loop fuel' search_space_with_buckets column_idx (parent_node b)
                           (lower_bound_column search_space_with_buckets (parent_node b) column_idx)
                           (packed_leg @ [(parent_node b, bucket_from_clique_arc b)])))
            else Inr packed_leg)
      else Inl OutOfBounds)"

definition retrievePackedPathFromSearchSpace ::
  "nat \<Rightarrow> NodeID \<Rightarrow> nat \<Rightarrow> NodeBucket list \<Rightarrow> PackedPath \<Rightarrow> error + PackedPath" where
  "retrievePackedPathFromSearchSpace fuel middle_node_id column_idx search_space_with_buckets path =
     (if length (equal_range_column search_space_with_buckets middle_node_id column_idx) = 1
      then and_then
             (packed_leg_loop fuel search_space_with_buckets column_idx middle_node_id
                (lower_bound_column search_space_with_buckets middle_node_id column_idx) [])
             (\<lambda>packed_leg.
                Inr (if packed_leg \<noteq> []
                     then path @
                          [(middle_node_id, fst (hd packed_leg), snd (hd packed_leg))] @
                          map (\<lambda>pr. (fst (fst pr), fst (snd pr), snd (snd pr)))
                            (zip packed_leg (tl packed_leg))
                     else path))
      else Inl AssertionFailed)"

text \<open>
  \<^verbatim>\<open>calculateDistances\<close>: the value of a cell that is neither a self pair nor unreachable
  (lines 727-875), and the body of the loop over the columns.
\<close>

definition path_distance ::
  "direction \<Rightarrow> nat \<Rightarrow> ('d::{zero,plus,minus,uminus,ord}) DataFacade \<Rightarrow> QueryHeap \<Rightarrow> NodeBucket list \<Rightarrow>
   'd PhantomNode \<Rightarrow> 'd PhantomNode \<Rightarrow> NodeID \<Rightarrow> nat \<Rightarrow> error + 'd" where
  "path_distance DIRECTION fuel facade query_heap search_space_with_buckets source_phantom
     target_phantom middle_node_id column_idx =
     and_then
       (retrievePackedPathFromSearchSpace fuel middle_node_id column_idx search_space_with_buckets
          (rev (retrievePackedPathFromSingleManyToManyHeap facade DIRECTION query_heap
                  middle_node_id)))
       (\<lambda>packed_path.
          if packed_path = []
          then Inr (if GetForwardDistance source_phantom < GetForwardDistance target_phantom
                    then GetForwardDistance target_phantom - GetForwardDistance source_phantom
                    else GetReverseDistance target_phantom - GetReverseDistance source_phantom)
          else (let unpacked_nodes =
                      fst (snd (unpackPathAndCalculateDistance facade packed_path middle_node_id
                                  (source_phantom, target_phantom)))
                in if unpacked_nodes = [] then Inl OutOfBounds
                   else (let source = hd unpacked_nodes;
                             target = last unpacked_nodes;
                             annotation =
                               sum_annotation facade
                                 (if DIRECTION = REVERSE_DIRECTION then rev unpacked_nodes
                                  else unpacked_nodes);
                             d1 = (if id_seg (forward_segment_id source_phantom) = source
                                   then (if DIRECTION = FORWARD_DIRECTION
                                         then annotation - GetForwardDistance source_phantom
                                         else annotation + GetForwardDistance source_phantom)
                                   else if id_seg (reverse_segment_id source_phantom) = source
                                   then (if DIRECTION = FORWARD_DIRECTION
                                         then annotation - GetReverseDistance source_phantom
                                         else annotation + GetReverseDistance source_phantom)
                                   else annotation)
                         in Inr (if id_seg (forward_segment_id target_phantom) = target
                                 then (if DIRECTION = FORWARD_DIRECTION
                                       then d1 + GetForwardDistance target_phantom
                                       else d1 - GetForwardDistance target_phantom)
                                 else if id_seg (reverse_segment_id target_phantom) = target
                                 then (if DIRECTION = FORWARD_DIRECTION
                                       then d1 + GetReverseDistance target_phantom
                                       else d1 - GetReverseDistance target_phantom)
                                 else d1))))"

definition calculate_cell ::
  "direction \<Rightarrow> nat \<Rightarrow> ('d::{zero,plus,minus,uminus,ord}) DataFacade \<Rightarrow> QueryHeap \<Rightarrow>
   'd PhantomNode list \<Rightarrow> nat list \<Rightarrow> nat \<Rightarrow> nat \<Rightarrow> 'd PhantomNode \<Rightarrow> nat \<Rightarrow> nat \<Rightarrow>
   NodeBucket list \<Rightarrow> NodeID list \<Rightarrow> nat \<Rightarrow> 'd list \<Rightarrow> error + 'd list" where
  "calculate_cell DIRECTION fuel facade query_heap phantom_nodes target_indices row_idx
     source_index source_phantom number_of_sources number_of_targets search_space_with_buckets
     middle_nodes column_idx distances_table =
     (let loc = location DIRECTION row_idx number_of_sources number_of_targets column_idx
      in if column_idx < length target_indices \<and>
            target_indices ! column_idx < length phantom_nodes \<and>
            loc < length middle_nodes \<and> loc < length distances_table
         then (let target_index = target_indices ! column_idx;
                   target_phantom = phantom_nodes ! target_index;
                   middle_node_id = middle_nodes ! loc
               in if source_index = target_index
                  then Inr (distances_table[loc := 0])
                  else if middle_node_id = SPECIAL_NODEID
                  then Inr (distances_table[loc := INVALID_EDGE_DISTANCE facade])
                  else and_then
                         (path_distance DIRECTION fuel facade query_heap
                            search_space_with_buckets source_phantom target_phantom
                            middle_node_id column_idx)
                         (\<lambda>distance. Inr (distances_table[loc := distance])))
         else Inl OutOfBounds)"

definition calculateDistances ::
  "direction \<Rightarrow> nat \<Rightarrow> ('d::{zero,plus,minus,uminus,ord}) DataFacade \<Rightarrow> QueryHeap \<Rightarrow>
   'd PhantomNode list \<Rightarrow> nat list \<Rightarrow> nat \<Rightarrow> nat \<Rightarrow> 'd PhantomNode \<Rightarrow> nat \<Rightarrow> nat \<Rightarrow>
   NodeBucket list \<Rightarrow> NodeID list \<Rightarrow> 'd list \<Rightarrow> error + 'd list" where
  "calculateDistances DIRECTION fuel facade query_heap phantom_nodes target_indices row_idx
     source_index source_phantom number_of_sources number_of_targets search_space_with_buckets
     middle_nodes distances_table =
     for_each
       (calculate_cell DIRECTION fuel facade query_heap phantom_nodes target_indices row_idx
          source_index source_phantom number_of_sources number_of_targets
          search_space_with_buckets middle_nodes)
       [0..<number_of_targets] distances_table"

text \<open>
  The two \<^verbatim>\<open>while (!query_heap.Empty())\<close> loops of the driver, with fuel, and the bodies of
  its loops over the columns and over the rows.
\<close>

fun backward_loop ::
  "nat \<Rightarrow> direction \<Rightarrow> 'd DataFacade \<Rightarrow> nat \<Rightarrow> 'd PhantomNode \<Rightarrow> QueryHeap \<times> NodeBucket list \<Rightarrow>
   error + (QueryHeap \<times> NodeBucket list)" where
  "backward_loop fuel DIRECTION facade column_idx target_phantom st =
     (if \<not> Empty (fst st)
      then (case fuel of
              0 \<Rightarrow> Inl OutOfFuel
            | Suc fuel' \<Rightarrow>
               and_then
                 (backwardRoutingStep DIRECTION facade column_idx (fst st) (snd st) target_phantom)
                 (backward_loop fuel' DIRECTION facade column_idx target_phantom))
      else Inr st)"

fun forward_loop ::
  "nat \<Rightarrow> direction \<Rightarrow> 'd DataFacade \<Rightarrow> nat \<Rightarrow> nat \<Rightarrow> nat \<Rightarrow> NodeBucket list \<Rightarrow> 'd PhantomNode \<Rightarrow>
   QueryHeap \<times> Tables \<Rightarrow> error + (QueryHeap \<times> Tables)" where
  "forward_loop fuel DIRECTION facade row_idx number_of_sources number_of_targets
     search_space_with_buckets source_phantom st =
     (if \<not> Empty (fst st)
      then (case fuel of
              0 \<Rightarrow> Inl OutOfFuel
            | Suc fuel' \<Rightarrow>
               and_then
                 (forwardRoutingStep DIRECTION facade row_idx number_of_sources number_of_targets
                    (fst st) search_space_with_buckets (snd st) source_phantom)
                 (forward_loop fuel' DIRECTION facade row_idx number_of_sources number_of_targets
                    search_space_with_buckets source_phantom))
      else Inr st)"

definition backward_search ::
  "nat \<Rightarrow> direction \<Rightarrow> 'd DataFacade \<Rightarrow> 'd PhantomNode list \<Rightarrow> nat \<times> nat \<Rightarrow> NodeBucket list \<Rightarrow>
   error + NodeBucket list" where
  "backward_search fuel DIRECTION facade phantom_nodes p search_space_with_buckets =
     (let column_idx = fst p; index = snd p
      in if index < length phantom_nodes
         then (let target_phantom = phantom_nodes ! index;
                   query_heap =
                     (if DIRECTION = FORWARD_DIRECTION
                      then insertTargetInHeap facade empty_heap target_phantom
                      else insertSourceInHeap facade empty_heap target_phantom)
               in and_then
                    (backward_loop fuel DIRECTION facade column_idx target_phantom
                       (query_heap, search_space_with_buckets))
                    (\<lambda>st. Inr (snd st)))
         else Inl OutOfBounds)"

text \<open>\<^verbatim>\<open>distances_table.resize(number_of_entries, INVALID_EDGE_DISTANCE)\<close>.\<close>

definition resize :: "'a list \<Rightarrow> nat \<Rightarrow> 'a \<Rightarrow> 'a list" where
  "resize xs n v = take n xs @ replicate (n - length xs) v"

definition forward_search ::
  "nat \<Rightarrow> direction \<Rightarrow> ('d::{zero,plus,minus,uminus,ord}) DataFacade \<Rightarrow> 'd PhantomNode list \<Rightarrow>
   nat list \<Rightarrow> nat \<Rightarrow> nat \<Rightarrow> NodeBucket list \<Rightarrow> bool \<Rightarrow> nat \<times> nat \<Rightarrow> Tables \<times> 'd list \<Rightarrow>
   error + (Tables \<times> 'd list)" where
  "forward_search fuel DIRECTION facade phantom_nodes target_indices number_of_sources
     number_of_targets search_space_with_buckets calculate_distance p st =
     (let row_idx = fst p; source_index = snd p
      in if source_index < length phantom_nodes
         then (let source_phantom = phantom_nodes ! source_index;
                   query_heap =
                     (if DIRECTION = FORWARD_DIRECTION
                      then insertSourceInHeap facade empty_heap source_phantom
                      else insertTargetInHeap facade empty_heap source_phantom)
               in and_then
                    (forward_loop fuel DIRECTION facade row_idx (as_unsigned number_of_sources)
                       (as_unsigned number_of_targets) search_space_with_buckets source_phantom
                       (query_heap, fst st))
                    (\<lambda>r. if calculate_distance
                          then and_then
                                 (calculateDistances DIRECTION fuel facade (fst r) phantom_nodes
                                    target_indices row_idx source_index source_phantom
                                    (as_unsigned number_of_sources)
                                    (as_unsigned number_of_targets)
                                    search_space_with_buckets (middle_nodes_table (snd r))
                                    (resize (snd st) (number_of_sources * number_of_targets)
                                       (INVALID_EDGE_DISTANCE facade)))
                                 (\<lambda>distances_table. Inr (snd r, distances_table))
                          else Inr (snd r, snd st)))
         else Inl OutOfBounds)"

text \<open>
  \<^verbatim>\<open>mld::manyToManySearch\<close>. The counters of its two loops are 32-bit and are compared with the
  size of a vector: over a vector of \<open>2 ^ 32\<close> or more indices the counter wraps before it reaches
  the size, and the loop, having run its body on the first \<open>2 ^ 32\<close> indices, does not end.
\<close>

definition mld_manyToManySearch ::
  "nat \<Rightarrow> direction \<Rightarrow> ('d::{zero,plus,minus,uminus,ord}) DataFacade \<Rightarrow> 'd PhantomNode list \<Rightarrow>
   nat list \<Rightarrow> nat list \<Rightarrow> bool \<Rightarrow> error + (EdgeDuration list \<times> 'd list)" where
  "mld_manyToManySearch fuel DIRECTION facade phantom_nodes source_indices target_indices
     calculate_distance =
     (let number_of_sources = length source_indices;
          number_of_targets = length target_indices;
          number_of_entries = number_of_sources * number_of_targets;
          t0 = initial_tables number_of_entries
      in and_then
           (for_each (backward_search fuel DIRECTION facade phantom_nodes)
              (zip [0..<min number_of_targets 4294967296] target_indices) [])
           (\<lambda>search_space_with_buckets.
              if 4294967296 \<le> number_of_targets then Inl OutOfFuel
              else and_then
                (for_each
                   (forward_search fuel DIRECTION facade phantom_nodes target_indices
                      number_of_sources number_of_targets
                      (sort_buckets search_space_with_buckets) calculate_distance)
                   (zip [0..<min number_of_sources 4294967296] source_indices) (t0, []))
                (\<lambda>r. if 4294967296 \<le> number_of_sources then Inl OutOfFuel
                      else Inr (durations_table (fst r), snd r))))"


subsection \<open>The dispatcher\<close>

text \<open>
  The specialisation of \<^verbatim>\<open>manyToManySearch\<close> for the MLD algorithm, the entry point of the
  file. The flag \<^verbatim>\<open>calculate_duration\<close> is not used.
\<close>

definition manyToManySearch ::
  "nat \<Rightarrow> ('d::{zero,plus,minus,uminus,ord}) DataFacade \<Rightarrow> 'd PhantomNode list \<Rightarrow> nat list \<Rightarrow>
   nat list \<Rightarrow> bool \<Rightarrow> bool \<Rightarrow> error + (EdgeDuration list \<times> 'd list)" where
  "manyToManySearch fuel facade phantom_nodes source_indices target_indices calculate_distance
     calculate_duration =
     (if length source_indices = 1
      then oneToManySearch fuel FORWARD_DIRECTION facade phantom_nodes (hd source_indices)
             target_indices calculate_distance
      else if length target_indices = 1
      then oneToManySearch fuel REVERSE_DIRECTION facade phantom_nodes (hd target_indices)
             source_indices calculate_distance
      else if length target_indices < length source_indices
      then mld_manyToManySearch fuel REVERSE_DIRECTION facade phantom_nodes target_indices
             source_indices calculate_distance
      else mld_manyToManySearch fuel FORWARD_DIRECTION facade phantom_nodes source_indices
             target_indices calculate_distance)"


section \<open>Notions used in the statements\<close>

text \<open>The (key, duration) pair that the heap stores for a node.\<close>

definition stored_pair :: "EdgeWeight \<times> HeapData \<Rightarrow> EdgeWeight \<times> EdgeDuration" where
  "stored_pair e = (fst e, heap_duration (snd e))"

text \<open>
  The relaxations that \<^verbatim>\<open>relaxOutgoingEdges\<close> offers to the heap for a settled node, read off
  the facade in the order of the code: for every valid shortcut to another boundary node the
  tuple (true, target, weight, duration), and for every border edge of the direction whose
  target is not excluded the tuple (false, target, weight, duration). The shortcuts are offered
  only at a level of at least 1 and when the settled node was not reached by a shortcut.
  \<open>relax_all\<close> applies the insert-or-decrease-key block to a list of relaxations.
\<close>

type_synonym relaxation = "bool \<times> NodeID \<times> EdgeWeight \<times> EdgeDuration"

fun relax_all :: "NodeID \<Rightarrow> relaxation list \<Rightarrow> QueryHeap \<Rightarrow> QueryHeap" where
  "relax_all node [] h = h"
| "relax_all node (r # rs) h =
     relax_all node rs
       (relax_edge (fst r) node (fst (snd r)) (fst (snd (snd r))) (snd (snd (snd r))) h)"

fun shortcut_relaxations ::
  "NodeID \<Rightarrow> EdgeWeight \<Rightarrow> EdgeDuration \<Rightarrow> EdgeWeight list \<Rightarrow> NodeID list \<Rightarrow> EdgeDuration list \<Rightarrow>
   relaxation list" where
  "shortcut_relaxations node weight duration (shortcut_weight # ws) (to # nodes) (d # ds) =
     (if shortcut_weight \<noteq> INVALID_EDGE_WEIGHT \<and> node \<noteq> to
      then [(True, to, weight + shortcut_weight, duration + d)] else []) @
     shortcut_relaxations node weight duration ws nodes ds"
| "shortcut_relaxations node weight duration ws nodes ds = []"

fun border_relaxations ::
  "direction \<Rightarrow> 'd DataFacade \<Rightarrow> EdgeWeight \<Rightarrow> EdgeDuration \<Rightarrow> EdgeID list \<Rightarrow> relaxation list" where
  "border_relaxations DIRECTION facade weight duration [] = []"
| "border_relaxations DIRECTION facade weight duration (edge # edges) =
     (if (if DIRECTION = FORWARD_DIRECTION then forward (GetEdgeData facade edge)
          else backward (GetEdgeData facade edge)) \<and>
         \<not> ExcludeNode facade (GetTarget facade edge)
      then [(False, GetTarget facade edge, weight + edge_weight (GetEdgeData facade edge),
             duration + edge_duration (GetEdgeData facade edge))]
      else []) @
     border_relaxations DIRECTION facade weight duration edges"

definition relaxations ::
  "direction \<Rightarrow> 'd DataFacade \<Rightarrow> NodeID \<Rightarrow> EdgeWeight \<Rightarrow> EdgeDuration \<Rightarrow> LevelID \<Rightarrow> bool \<Rightarrow>
   relaxation list" where
  "relaxations DIRECTION facade node weight duration level reached_by_shortcut =
     (if 1 \<le> level \<and> \<not> reached_by_shortcut
      then (if DIRECTION = FORWARD_DIRECTION
            then shortcut_relaxations node weight duration
                   (GetOutWeight facade level (GetCell facade level node) node)
                   (GetDestinationNodes facade level (GetCell facade level node))
                   (GetOutDuration facade level (GetCell facade level node) node)
            else shortcut_relaxations node weight duration
                   (GetInWeight facade level (GetCell facade level node) node)
                   (GetSourceNodes facade level (GetCell facade level node))
                   (GetInDuration facade level (GetCell facade level node) node))
      else []) @
     border_relaxations DIRECTION facade weight duration (GetBorderEdgeRange facade level node)"


text \<open>
  A sequence of calls of \<^verbatim>\<open>forwardRoutingStep\<close> on the same tables and buckets, each call with
  its own row, heap and phantom. (The driver passes the heap that the previous call of the row
  left; here the heaps are arbitrary.) A call is proper when the node it pops is not the
  sentinel \<^verbatim>\<open>SPECIAL_NODEID\<close> and no sum of the popped weight and the weight of a bucket of
  that node is the sentinel \<^verbatim>\<open>INVALID_EDGE_WEIGHT\<close>.
\<close>

fun forward_steps ::
  "direction \<Rightarrow> 'd DataFacade \<Rightarrow> nat \<Rightarrow> nat \<Rightarrow> NodeBucket list \<Rightarrow>
   (nat \<times> QueryHeap \<times> 'd PhantomNode) list \<Rightarrow> Tables \<Rightarrow> error + Tables" where
  "forward_steps DIRECTION facade number_of_sources number_of_targets search_space_with_buckets
     [] t = Inr t"
| "forward_steps DIRECTION facade number_of_sources number_of_targets search_space_with_buckets
     (c # calls) t =
     and_then
       (forwardRoutingStep DIRECTION facade (fst c) number_of_sources number_of_targets
          (fst (snd c)) search_space_with_buckets t (snd (snd c)))
       (\<lambda>r. forward_steps DIRECTION facade number_of_sources number_of_targets
              search_space_with_buckets calls (snd r))"

definition proper_call :: "NodeBucket list \<Rightarrow> QueryHeap \<Rightarrow> bool" where
  "proper_call search_space_with_buckets query_heap =
     (case DeleteMin query_heap of
        None \<Rightarrow> True
      | Some popped \<Rightarrow>
          fst popped \<noteq> SPECIAL_NODEID \<and>
          (case entries (snd popped) (fst popped) of
             None \<Rightarrow> True
           | Some e \<Rightarrow>
               list_all (\<lambda>b. fst e + bucket_weight b \<noteq> INVALID_EDGE_WEIGHT)
                 (equal_range_node search_space_with_buckets (fst popped))))"


text \<open>
  The tables have \<open>n\<close> cells, and in each the meeting node is the sentinel exactly when the
  weight is.
\<close>

definition cells_agree :: "nat \<Rightarrow> Tables \<Rightarrow> bool" where
  "cells_agree n t =
     (length (middle_nodes_table t) = n \<and> length (weights_table t) = n \<and>
      (\<forall>loc < n. (middle_nodes_table t ! loc = SPECIAL_NODEID) =
                 (weights_table t ! loc = INVALID_EDGE_WEIGHT)))"


text \<open>
  The (weight, duration) pair of a cell of the tables, and the duration that the driver finds
  for one pair of phantoms on a table of one cell: the backward search from the phantom of the
  column fills the buckets, and the forward search from the phantom of the row meets them. The
  seeding follows the direction as in the driver (lines 909-912 and 936-939).
\<close>

definition cell :: "Tables \<Rightarrow> nat \<Rightarrow> EdgeWeight \<times> EdgeDuration" where
  "cell t loc = (weights_table t ! loc, durations_table t ! loc)"

definition pair_duration ::
  "nat \<Rightarrow> direction \<Rightarrow> 'd DataFacade \<Rightarrow> 'd PhantomNode \<Rightarrow> 'd PhantomNode \<Rightarrow>
   error + EdgeDuration" where
  "pair_duration fuel DIRECTION facade row_phantom column_phantom =
     and_then
       (backward_loop fuel DIRECTION facade 0 column_phantom
          (if DIRECTION = FORWARD_DIRECTION
           then insertTargetInHeap facade empty_heap column_phantom
           else insertSourceInHeap facade empty_heap column_phantom, []))
       (\<lambda>b. and_then
          (forward_loop fuel DIRECTION facade 0 1 1 (sort_buckets (snd b)) row_phantom
             (if DIRECTION = FORWARD_DIRECTION
              then insertSourceInHeap facade empty_heap row_phantom
              else insertTargetInHeap facade empty_heap row_phantom, initial_tables 1))
          (\<lambda>r. Inr (durations_table (snd r) ! 0)))"


text \<open>
  The invariant of the label-setting search on a heap. A node is settled when it has an entry
  and is not in the queue. The queue has no repetition and holds inserted nodes only; the key
  of a settled node is at most the key of a queued node; and an entry with the from-shortcut
  flag has a settled parent whose own entry does not have the flag: no path of parents has two
  shortcut hops in a row. \<open>relaxing node e h\<close> is the invariant while the edges of the node
  popped last are relaxed: the node is settled with the entry \<open>e\<close>, and no settled key exceeds
  its key.
\<close>

definition heap_invariant :: "QueryHeap \<Rightarrow> bool" where
  "heap_invariant h =
     (distinct (queue h) \<and>
      (\<forall>q \<in> set (queue h). entries h q \<noteq> None) \<and>
      (\<forall>p q ep eq. entries h p = Some ep \<longrightarrow> p \<notin> set (queue h) \<longrightarrow> q \<in> set (queue h) \<longrightarrow>
         entries h q = Some eq \<longrightarrow> fst ep \<le> fst eq) \<and>
      (\<forall>t e. entries h t = Some e \<longrightarrow> from_clique_arc (snd e) \<longrightarrow>
         parent (snd e) \<notin> set (queue h) \<and>
         (\<exists>e'. entries h (parent (snd e)) = Some e' \<and> \<not> from_clique_arc (snd e'))))"




section \<open>Example inputs\<close>

text \<open>
  Stand-ins for the seeding functions of routing_base.hpp, used by the example facades only:
  a source half is inserted with its negated offsets, a target half with its offsets, each as
  its own parent (the convention of \<^verbatim>\<open>oneToManySearch\<close>).
\<close>

definition seed_source :: "QueryHeap \<Rightarrow> int PhantomNode \<Rightarrow> QueryHeap" where
  "seed_source h p =
     (let h1 = (if IsValidForwardSource p
                then Insert h (id_seg (forward_segment_id p)) (- GetForwardWeightPlusOffset p)
                       \<lparr>parent = id_seg (forward_segment_id p), from_clique_arc = False,
                        heap_duration = - GetForwardDuration p\<rparr>
                else h)
      in if IsValidReverseSource p
         then Insert h1 (id_seg (reverse_segment_id p)) (- GetReverseWeightPlusOffset p)
                \<lparr>parent = id_seg (reverse_segment_id p), from_clique_arc = False,
                 heap_duration = - GetReverseDuration p\<rparr>
         else h1)"

definition seed_target :: "QueryHeap \<Rightarrow> int PhantomNode \<Rightarrow> QueryHeap" where
  "seed_target h p =
     (let h1 = (if IsValidForwardTarget p
                then Insert h (id_seg (forward_segment_id p)) (GetForwardWeightPlusOffset p)
                       \<lparr>parent = id_seg (forward_segment_id p), from_clique_arc = False,
                        heap_duration = GetForwardDuration p\<rparr>
                else h)
      in if IsValidReverseTarget p
         then Insert h1 (id_seg (reverse_segment_id p)) (GetReverseWeightPlusOffset p)
                \<lparr>parent = id_seg (reverse_segment_id p), from_clique_arc = False,
                 heap_duration = GetReverseDuration p\<rparr>
         else h1)"

text \<open>
  The line graph of the spec's scenarios: node 0 and node 1, one edge from 0 to 1 of weight and
  duration 10, stored forward at node 0 and backward at node 1; a single level. The path
  helpers are trivial: in the examples they are only asked for the path to a seed, which is
  empty.
\<close>

definition line_facade :: "int DataFacade" where
  "line_facade =
     \<lparr>GetNumberOfLevels = 1,
      GetHighestDifferentLevel = (\<lambda>u v. 0),
      GetCell = (\<lambda>l n. 0),
      GetDestinationNodes = (\<lambda>l c. []),
      GetSourceNodes = (\<lambda>l c. []),
      GetOutWeight = (\<lambda>l c n. []),
      GetOutDuration = (\<lambda>l c n. []),
      GetInWeight = (\<lambda>l c n. []),
      GetInDuration = (\<lambda>l c n. []),
      GetBorderEdgeRange = (\<lambda>l n. if n = 0 then [0] else if n = 1 then [1] else []),
      GetAdjacentEdgeRange = (\<lambda>n. if n = 0 then [0] else if n = 1 then [1] else []),
      GetEdgeData = (\<lambda>e. if e = 0
         then \<lparr>forward = True, backward = False, edge_weight = 10, edge_duration = 10\<rparr>
         else \<lparr>forward = False, backward = True, edge_weight = 10, edge_duration = 10\<rparr>),
      GetTarget = (\<lambda>e. if e = 0 then 1 else 0),
      ExcludeNode = (\<lambda>n. False),
      INVALID_EDGE_DISTANCE = 2147483647,
      computeEdgeDistance = (\<lambda>n. 100),
      insertSourceInHeap = seed_source,
      insertTargetInHeap = seed_target,
      retrievePackedPathFromSingleManyToManyHeap = (\<lambda>d h n. []),
      unpackPathAndCalculateDistance = (\<lambda>p n ph. (0, [], []))\<rparr>"

text \<open>
  A phantom on the forward segment \<open>n\<close> only, valid as source and as target, with no weight or
  duration offset and the given distance offset.
\<close>

definition phantom_at :: "NodeID \<Rightarrow> int \<Rightarrow> int PhantomNode" where
  "phantom_at n dist =
     \<lparr>forward_segment_id = \<lparr>id_seg = n, enabled = True\<rparr>,
      reverse_segment_id = \<lparr>id_seg = SPECIAL_NODEID, enabled = False\<rparr>,
      GetForwardWeightPlusOffset = 0, GetReverseWeightPlusOffset = 0,
      GetForwardDuration = 0, GetReverseDuration = 0,
      GetForwardDistance = dist, GetReverseDistance = 0,
      IsValidForwardSource = True, IsValidReverseSource = False,
      IsValidForwardTarget = True, IsValidReverseTarget = False\<rparr>"

text \<open>
  A two-way segment at a dead end: its forward node 0 and its reverse node 1 are joined by
  U-turn edges in both directions, each stored forward and backward. The phantom lies on the
  segment and is valid in every role.
\<close>

definition uturn_facade :: "int DataFacade" where
  "uturn_facade =
     line_facade\<lparr>GetEdgeData := (\<lambda>e.
        \<lparr>forward = True, backward = True, edge_weight = 10, edge_duration = 10\<rparr>)\<rparr>"

definition phantom_both :: "int PhantomNode" where
  "phantom_both =
     \<lparr>forward_segment_id = \<lparr>id_seg = 0, enabled = True\<rparr>,
      reverse_segment_id = \<lparr>id_seg = 1, enabled = True\<rparr>,
      GetForwardWeightPlusOffset = 3, GetReverseWeightPlusOffset = 7,
      GetForwardDuration = 3, GetReverseDuration = 7,
      GetForwardDistance = 30, GetReverseDistance = 70,
      IsValidForwardSource = True, IsValidReverseSource = True,
      IsValidForwardTarget = True, IsValidReverseTarget = True\<rparr>"

definition initial_one_to_many :: "nat \<Rightarrow> int OneToMany" where
  "initial_one_to_many n =
     \<lparr>weights = replicate n INVALID_EDGE_WEIGHT,
      durations = replicate n MAXIMAL_EDGE_DURATION,
      distances = replicate n 2147483647,
      target_nodes = replicate n SPECIAL_NODEID,
      target_nodes_index = [],
      many_to_many_heap = empty_heap\<rparr>"


text \<open>
  A state of the unidirectional search with one target slot, waiting at node 0 with the offsets
  (5, 5); a heap that holds the seed of \<open>phantom_at 0 0\<close>; and the bucket of a backward
  search of column 0 that settled node 0 with weight and duration 5.
\<close>

text \<open>
  The line graph with a second partition level: every node pair differs at level 1, all nodes
  are in cell 0 of that level, and node 0 has the shortcuts (5, 7) to node 1, an invalid one to
  node 2 and one to itself.
\<close>

definition cell_facade :: "int DataFacade" where
  "cell_facade =
     line_facade\<lparr>GetNumberOfLevels := 3,
       GetHighestDifferentLevel := (\<lambda>u v. 1),
       GetDestinationNodes := (\<lambda>l c. [1, 2, 0]),
       GetOutWeight := (\<lambda>l c n. if n = 0 then [5, INVALID_EDGE_WEIGHT, 0] else []),
       GetOutDuration := (\<lambda>l c n. if n = 0 then [7, 0, 0] else [])\<rparr>"

definition one_target_state :: "int OneToMany" where
  "one_target_state = (initial_one_to_many 1)\<lparr>target_nodes_index := [(0, 0, 5, 5)]\<rparr>"

definition seeded_heap :: QueryHeap where
  "seeded_heap = seed_source empty_heap (phantom_at 0 0)"

definition bucket_at_0 :: NodeBucket where
  "bucket_at_0 =
     \<lparr>middle_node = 0, parent_node = 0, column_index = 0, bucket_from_clique_arc = False,
      bucket_weight = 5, bucket_duration = 5\<rparr>"


text \<open>
  The bucket of a backward search of column 0 that settled node 0 with the weight 2147483647
  and the duration 0.
\<close>

definition heavy_bucket :: NodeBucket where
  "heavy_bucket = bucket_at_0\<lparr>bucket_weight := 2147483647, bucket_duration := 0\<rparr>"





text \<open>The line graph without its edges: no node reaches another.\<close>

definition isolated_facade :: "int DataFacade" where
  "isolated_facade =
     line_facade\<lparr>GetBorderEdgeRange := (\<lambda>l n. []), GetAdjacentEdgeRange := (\<lambda>n. [])\<rparr>"


section \<open>Properties\<close>

lemma lex_less_irrefl: "\<not> lex_less p p"
  by (simp add: lex_less_def)

lemma and_then_simps:
  "and_then (Inl e) f = Inl e"
  "and_then (Inr x) f = f x"
  by (simp_all add: and_then_def)

lemma and_then_Inr_iff: "and_then r f = Inr y \<longleftrightarrow> (\<exists>x. r = Inr x \<and> f x = Inr y)"
  by (cases r) (simp_all add: and_then_def)


subsection \<open>Behaviour of the unidirectional search at concrete inputs\<close>

text \<open>
  C3. The distance of a cell should be forced to 0 exactly when its source and its target are
  the same phantom. The distance loop of \<^verbatim>\<open>oneToManySearch\<close> compares the position of the
  target in the target list with the phantom index of the source instead. With the phantoms p0
  (node 0) and p1 (node 1, 30 from the start of its segment), source p0 and targets [p1, p0]:
  position 0 holds p1, a phantom other than the source, and its distance is forced to 0 although
  its duration is 10; position 1 holds the source itself and is not recognised, it keeps the
  value 30 that the collection of the targets stored there for p1.
\<close>

theorem self_pair_test_compares_position_with_phantom_index:
  "manyToManySearch 10 line_facade [phantom_at 0 0, phantom_at 1 30] [0] [1, 0] True True =
     Inr ([10, 0], [0, 30])"
  by code_simp

text \<open>
  C4. With one source the unidirectional search is chosen; it allocates the distance vector
  whatever the flag says and returns it: for the self pair of p0 and distances not requested,
  the second component has one entry.
\<close>

theorem one_to_many_returns_distances_when_not_requested:
  "manyToManySearch 10 line_facade [phantom_at 0 0] [0] [0] False False = Inr ([0], [0])"
  by code_simp

text \<open>
  C5. Seeding a source that is valid on both halves of a two-way dead-end segment: the
  bootstrap of the forward half inserts the reverse node as a neighbour, and the seeding of the
  reverse half inserts it again without a test. In forward direction the bootstrap itself does
  not test \<^verbatim>\<open>WasInserted\<close> either, and node 0 is inserted a second time as a neighbour of
  node 1.
\<close>

theorem seeding_inserts_a_node_twice:
  "map_sum id (\<lambda>s. insertions (many_to_many_heap s))
     (place_source FORWARD_DIRECTION uturn_facade [phantom_both] 0 (initial_one_to_many 0)) =
     Inr [0, 1, 1, 0] \<and>
   map_sum id (\<lambda>s. insertions (many_to_many_heap s))
     (place_source REVERSE_DIRECTION uturn_facade [phantom_both] 0 (initial_one_to_many 0)) =
     Inr [0, 1, 1]"
  by code_simp

text \<open>
  C9. The spec's first scenario, the search from p0 to p1 among the phantoms [p0, p1]: the
  distance vector has one entry (one target), and the collection of the targets writes the
  offset of p1 at the phantom index 1 of the target, past its end.
\<close>

theorem target_collection_writes_past_the_end:
  "manyToManySearch 10 line_facade [phantom_at 0 0, phantom_at 1 30] [0] [1] True True =
     Inl OutOfBounds \<and>
   map_sum id distances
     (for_each (collect_target FORWARD_DIRECTION [phantom_at 0 0, phantom_at 1 30])
        (zip [0..<1] [1]) (initial_one_to_many 1)) = Inl OutOfBounds"
  by code_simp

subsection \<open>Commits to the result tables\<close>

lemma update_values_loop_commit:
  "update_values_loop node weight duration cs s = Inr s' \<Longrightarrow>
   (weights s' ! i, durations s' ! i, target_nodes s' ! i) =
     (weights s ! i, durations s ! i, target_nodes s ! i) \<or>
   (\<exists>tw td. (i, tw, td) \<in> set cs \<and> 0 \<le> weight + tw \<and>
      weights s' ! i = weight + tw \<and> durations s' ! i = duration + td \<and>
      target_nodes s' ! i = node)"
proof (induction cs arbitrary: s)
  case Nil
  then show ?case by simp
next
  case (Cons c cs)
  obtain index tw td where c: "c = (index, tw, td)"
    by (cases c) auto
  show ?case
  proof (cases "0 \<le> weight + tw")
    case False
    with Cons.prems c have "update_values_loop node weight duration cs s = Inr s'"
      by (simp add: Let_def)
    from Cons.IH [OF this] show ?thesis by auto
  next
    case True
    with Cons.prems c have bounds:
      "index < length (weights s)" "index < length (durations s)" "index < length (target_nodes s)"
      by (auto simp: Let_def split: if_splits)
    define s1 where "s1 =
      (if lex_less (weight + tw, duration + td) (weights s ! index, durations s ! index)
       then s\<lparr>weights := (weights s)[index := weight + tw],
              durations := (durations s)[index := duration + td],
              target_nodes := (target_nodes s)[index := node]\<rparr>
       else s)"
    from Cons.prems c True bounds have rec:
      "update_values_loop node weight duration cs
         (s1\<lparr>target_nodes_index := remove1 (node, c) (target_nodes_index s1)\<rparr>) = Inr s'"
      by (simp add: Let_def s1_def)
    have step: "(weights s1 ! i, durations s1 ! i, target_nodes s1 ! i) =
        (weights s ! i, durations s ! i, target_nodes s ! i) \<or>
      (i = index \<and> weights s1 ! i = weight + tw \<and> durations s1 ! i = duration + td \<and>
        target_nodes s1 ! i = node)"
      using bounds by (cases "i = index") (auto simp: s1_def)
    from Cons.IH [OF rec] step True c show ?thesis
      by auto
  qed
qed

lemma bucket_loop_commit:
  "bucket_loop DIRECTION row_idx number_of_sources number_of_targets node source_weight
     source_duration bs t = Inr t' \<Longrightarrow>
   (weights_table t' ! loc, durations_table t' ! loc, middle_nodes_table t' ! loc) =
     (weights_table t ! loc, durations_table t ! loc, middle_nodes_table t ! loc) \<or>
   (\<exists>b \<in> set bs.
      loc = location DIRECTION row_idx number_of_sources number_of_targets (column_index b) \<and>
      0 \<le> source_weight + bucket_weight b \<and>
      weights_table t' ! loc = source_weight + bucket_weight b \<and>
      durations_table t' ! loc = source_duration + bucket_duration b \<and>
      middle_nodes_table t' ! loc = node)"
proof (induction bs arbitrary: t)
  case Nil
  then show ?case by simp
next
  case (Cons b bs)
  define l where "l = location DIRECTION row_idx number_of_sources number_of_targets (column_index b)"
  from Cons.prems have bounds:
    "l < length (weights_table t)" "l < length (durations_table t)"
    "l < length (middle_nodes_table t)"
    by (auto simp: Let_def l_def split: if_splits)
  define t1 where "t1 =
    (if 0 \<le> source_weight + bucket_weight b \<and>
        lex_less (source_weight + bucket_weight b, source_duration + bucket_duration b)
          (weights_table t ! l, durations_table t ! l)
     then t\<lparr>weights_table := (weights_table t)[l := source_weight + bucket_weight b],
            durations_table := (durations_table t)[l := source_duration + bucket_duration b],
            middle_nodes_table := (middle_nodes_table t)[l := node]\<rparr>
     else t)"
  from Cons.prems bounds have rec:
    "bucket_loop DIRECTION row_idx number_of_sources number_of_targets node source_weight
       source_duration bs t1 = Inr t'"
    by (auto simp: Let_def l_def t1_def split: if_splits)
  have step: "(weights_table t1 ! loc, durations_table t1 ! loc, middle_nodes_table t1 ! loc) =
      (weights_table t ! loc, durations_table t ! loc, middle_nodes_table t ! loc) \<or>
    (loc = l \<and> 0 \<le> source_weight + bucket_weight b \<and>
      weights_table t1 ! loc = source_weight + bucket_weight b \<and>
      durations_table t1 ! loc = source_duration + bucket_duration b \<and>
      middle_nodes_table t1 ! loc = node)"
    using bounds by (cases "loc = l") (auto simp: t1_def)
  from Cons.IH [OF rec] step show ?case
    by (auto simp: l_def)
qed

text \<open>
  C2. Both paths that write a result, \<^verbatim>\<open>update_values\<close> of the unidirectional search and the
  bucket loop of \<^verbatim>\<open>forwardRoutingStep\<close>, change a cell only by committing a candidate whose
  combined weight is not negative: after either, every cell of the tables (weight, duration,
  meeting node) is what it was before, or it holds the values of a candidate of the settled
  node for that cell whose combined weight (popped weight plus target offset, resp. source weight
  plus bucket weight) is at least 0.
\<close>

theorem commit_only_if_weight_nonnegative:
  "(update_values node weight duration s = Inr s' \<longrightarrow>
      (\<forall>i. (weights s' ! i, durations s' ! i, target_nodes s' ! i) =
             (weights s ! i, durations s ! i, target_nodes s ! i) \<or>
           (\<exists>tw td. (node, i, tw, td) \<in> set (target_nodes_index s) \<and> 0 \<le> weight + tw \<and>
              weights s' ! i = weight + tw \<and> durations s' ! i = duration + td \<and>
              target_nodes s' ! i = node))) \<and>
   (forwardRoutingStep DIRECTION facade row_idx number_of_sources number_of_targets query_heap
      search_space_with_buckets t phantom_node = Inr (h', t') \<longrightarrow>
      (\<exists>node h e. DeleteMin query_heap = Some (node, h) \<and> entries h node = Some e \<and>
         (\<forall>loc. (weights_table t' ! loc, durations_table t' ! loc, middle_nodes_table t' ! loc) =
                 (weights_table t ! loc, durations_table t ! loc, middle_nodes_table t ! loc) \<or>
               (\<exists>b \<in> set search_space_with_buckets. middle_node b = node \<and>
                  loc = location DIRECTION row_idx number_of_sources number_of_targets
                          (column_index b) \<and>
                  0 \<le> fst e + bucket_weight b \<and>
                  weights_table t' ! loc = fst e + bucket_weight b \<and>
                  durations_table t' ! loc = heap_duration (snd e) + bucket_duration b \<and>
                  middle_nodes_table t' ! loc = node))))"
proof (intro conjI impI allI)
  fix i
  assume "update_values node weight duration s = Inr s'"
  then have "update_values_loop node weight duration
      (equal_range_index (target_nodes_index s) node) s = Inr s'"
    by (simp add: update_values_def)
  from update_values_loop_commit [OF this, of i]
  show "(weights s' ! i, durations s' ! i, target_nodes s' ! i) =
          (weights s ! i, durations s ! i, target_nodes s ! i) \<or>
        (\<exists>tw td. (node, i, tw, td) \<in> set (target_nodes_index s) \<and> 0 \<le> weight + tw \<and>
           weights s' ! i = weight + tw \<and> durations s' ! i = duration + td \<and>
           target_nodes s' ! i = node)"
    by (auto simp: equal_range_index_def)
next
  assume step: "forwardRoutingStep DIRECTION facade row_idx number_of_sources number_of_targets
      query_heap search_space_with_buckets t phantom_node = Inr (h', t')"
  then obtain node h where pop: "DeleteMin query_heap = Some (node, h)"
    by (cases "DeleteMin query_heap") (auto simp: forwardRoutingStep_def)
  with step obtain e where e: "entries h node = Some e"
    by (cases "entries h node") (auto simp: forwardRoutingStep_def)
  from step pop e have loop:
    "bucket_loop DIRECTION row_idx number_of_sources number_of_targets node (fst e)
       (heap_duration (snd e)) (equal_range_node search_space_with_buckets node) t = Inr t'"
    by (auto simp: forwardRoutingStep_def Let_def and_then_Inr_iff)
  have "\<forall>loc. (weights_table t' ! loc, durations_table t' ! loc, middle_nodes_table t' ! loc) =
                 (weights_table t ! loc, durations_table t ! loc, middle_nodes_table t ! loc) \<or>
               (\<exists>b \<in> set search_space_with_buckets. middle_node b = node \<and>
                  loc = location DIRECTION row_idx number_of_sources number_of_targets
                          (column_index b) \<and>
                  0 \<le> fst e + bucket_weight b \<and>
                  weights_table t' ! loc = fst e + bucket_weight b \<and>
                  durations_table t' ! loc = heap_duration (snd e) + bucket_duration b \<and>
                  middle_nodes_table t' ! loc = node)"
  proof
    fix loc
    from bucket_loop_commit [OF loop, of loc]
    show "(weights_table t' ! loc, durations_table t' ! loc, middle_nodes_table t' ! loc) =
                 (weights_table t ! loc, durations_table t ! loc, middle_nodes_table t ! loc) \<or>
               (\<exists>b \<in> set search_space_with_buckets. middle_node b = node \<and>
                  loc = location DIRECTION row_idx number_of_sources number_of_targets
                          (column_index b) \<and>
                  0 \<le> fst e + bucket_weight b \<and>
                  weights_table t' ! loc = fst e + bucket_weight b \<and>
                  durations_table t' ! loc = heap_duration (snd e) + bucket_duration b \<and>
                  middle_nodes_table t' ! loc = node)"
      by (auto simp: equal_range_node_def)
  qed
  with pop e show "\<exists>node h e. DeleteMin query_heap = Some (node, h) \<and> entries h node = Some e \<and>
         (\<forall>loc. (weights_table t' ! loc, durations_table t' ! loc, middle_nodes_table t' ! loc) =
                 (weights_table t ! loc, durations_table t ! loc, middle_nodes_table t ! loc) \<or>
               (\<exists>b \<in> set search_space_with_buckets. middle_node b = node \<and>
                  loc = location DIRECTION row_idx number_of_sources number_of_targets
                          (column_index b) \<and>
                  0 \<le> fst e + bucket_weight b \<and>
                  weights_table t' ! loc = fst e + bucket_weight b \<and>
                  durations_table t' ! loc = heap_duration (snd e) + bucket_duration b \<and>
                  middle_nodes_table t' ! loc = node))"
    by blast
qed

lemma map_sum_InrD: "map_sum f g r = Inr y \<Longrightarrow> \<exists>x. r = Inr x \<and> g x = y"
  by (cases r) auto

theorem commit_only_if_weight_nonnegative_witness:
  "(\<exists>s'. update_values 0 0 0 one_target_state = Inr s' \<and>
      ((weights s' ! 0, durations s' ! 0, target_nodes s' ! 0) =
         (weights one_target_state ! 0, durations one_target_state ! 0,
          target_nodes one_target_state ! 0) \<or>
       (\<exists>tw td. (0, 0, tw, td) \<in> set (target_nodes_index one_target_state) \<and> 0 \<le> 0 + tw \<and>
          weights s' ! 0 = 0 + tw \<and> durations s' ! 0 = 0 + td \<and> target_nodes s' ! 0 = 0))) \<and>
   (\<exists>h' t'. forwardRoutingStep FORWARD_DIRECTION line_facade 0 1 1 seeded_heap [bucket_at_0]
        (initial_tables 1) (phantom_at 0 0) = Inr (h', t') \<and>
      (\<exists>b \<in> set [bucket_at_0].
          0 \<le> bucket_weight b \<and> weights_table t' ! 0 = bucket_weight b \<and>
          middle_nodes_table t' ! 0 = 0))"
proof
  have "map_sum id (\<lambda>s. weights s) (update_values 0 0 0 one_target_state) = Inr [5]"
    by code_simp
  then obtain s' where s': "update_values 0 0 0 one_target_state = Inr s'"
    by (auto dest: map_sum_InrD)
  from commit_only_if_weight_nonnegative [THEN conjunct1, rule_format, OF s', of 0] s'
  show "\<exists>s'. update_values 0 0 0 one_target_state = Inr s' \<and>
      ((weights s' ! 0, durations s' ! 0, target_nodes s' ! 0) =
         (weights one_target_state ! 0, durations one_target_state ! 0,
          target_nodes one_target_state ! 0) \<or>
       (\<exists>tw td. (0, 0, tw, td) \<in> set (target_nodes_index one_target_state) \<and> 0 \<le> 0 + tw \<and>
          weights s' ! 0 = 0 + tw \<and> durations s' ! 0 = 0 + td \<and> target_nodes s' ! 0 = 0))"
    by blast
next
  have ev: "map_sum id (\<lambda>r. (weights_table (snd r) ! 0, middle_nodes_table (snd r) ! 0))
     (forwardRoutingStep FORWARD_DIRECTION line_facade 0 1 1 seeded_heap [bucket_at_0]
        (initial_tables 1) (phantom_at 0 0)) = Inr (5, 0)"
    by code_simp
  then obtain h' t' where step: "forwardRoutingStep FORWARD_DIRECTION line_facade 0 1 1 seeded_heap
      [bucket_at_0] (initial_tables 1) (phantom_at 0 0) = Inr (h', t')"
    and val: "weights_table t' ! 0 = 5" "middle_nodes_table t' ! 0 = 0"
    by (auto dest!: map_sum_InrD)
  have init: "weights_table (initial_tables 1) ! 0 = INVALID_EDGE_WEIGHT"
    by (simp add: initial_tables_def)
  from commit_only_if_weight_nonnegative [THEN conjunct2, rule_format, OF step]
  obtain node h e where pop: "DeleteMin seeded_heap = Some (node, h)" "entries h node = Some e"
    and cells: "\<And>loc. (weights_table t' ! loc, durations_table t' ! loc, middle_nodes_table t' ! loc) =
                 (weights_table (initial_tables 1) ! loc, durations_table (initial_tables 1) ! loc,
                  middle_nodes_table (initial_tables 1) ! loc) \<or>
               (\<exists>b \<in> set [bucket_at_0]. middle_node b = node \<and>
                  loc = location FORWARD_DIRECTION 0 1 1 (column_index b) \<and>
                  0 \<le> fst e + bucket_weight b \<and>
                  weights_table t' ! loc = fst e + bucket_weight b \<and>
                  durations_table t' ! loc = heap_duration (snd e) + bucket_duration b \<and>
                  middle_nodes_table t' ! loc = node)"
    by blast
  have "weights_table t' ! 0 \<noteq> weights_table (initial_tables 1) ! 0"
    using val init by (simp add: INVALID_EDGE_WEIGHT_def)
  with cells [of 0] val have "0 \<le> bucket_weight bucket_at_0 \<and>
      weights_table t' ! 0 = bucket_weight bucket_at_0"
    by (auto simp: bucket_at_0_def)
  with step val show "\<exists>h' t'. forwardRoutingStep FORWARD_DIRECTION line_facade 0 1 1 seeded_heap
        [bucket_at_0] (initial_tables 1) (phantom_at 0 0) = Inr (h', t') \<and>
      (\<exists>b \<in> set [bucket_at_0].
          0 \<le> bucket_weight b \<and> weights_table t' ! 0 = bucket_weight b \<and>
          middle_nodes_table t' ! 0 = 0)"
    by auto
qed

subsection \<open>The level cap of the backward search\<close>




subsection \<open>Relaxation\<close>

lemma lex_less_trans: "lex_less a b \<Longrightarrow> lex_less b c \<Longrightarrow> lex_less a c"
  by (auto simp: lex_less_def)

lemma lex_le_refl: "lex_le a a"
  by (simp add: lex_le_def)

lemma lex_le_trans: "lex_le a b \<Longrightarrow> lex_le b c \<Longrightarrow> lex_le a c"
  by (auto simp: lex_le_def dest: lex_less_trans)

lemma lex_less_le_trans: "lex_less a b \<Longrightarrow> lex_le b c \<Longrightarrow> lex_less a c"
  by (auto simp: lex_le_def dest: lex_less_trans)

lemma not_lex_less_le: "\<not> lex_less a b \<Longrightarrow> lex_le b a"
  by (cases a; cases b) (auto simp: lex_le_def lex_less_def)

lemma lex_less_imp_le: "lex_less a b \<Longrightarrow> lex_le a b"
  by (simp add: lex_le_def)

lemma entries_relax_edge:
  "entries (relax_edge flag node to w d h) =
     (entries h)(to \<mapsto>
        (case entries h to of
           None \<Rightarrow> (w, \<lparr>parent = node, from_clique_arc = flag, heap_duration = d\<rparr>)
         | Some e \<Rightarrow>
             if lex_less (w, d) (stored_pair e)
             then (w, \<lparr>parent = node, from_clique_arc = flag, heap_duration = d\<rparr>)
             else e))"
  by (auto simp: relax_edge_def Insert_def DecreaseKey_def SetData_def stored_pair_def
      split: option.splits)

lemma relax_edge_other: "t \<noteq> to \<Longrightarrow> entries (relax_edge flag node to w d h) t = entries h t"
  by (simp add: entries_relax_edge)

lemma relax_edge_never_worse:
  "entries h t = Some e \<Longrightarrow>
   \<exists>e'. entries (relax_edge flag node to w d h) t = Some e' \<and> lex_le (stored_pair e') (stored_pair e)"
proof -
  have new: "stored_pair (w, \<lparr>parent = node, from_clique_arc = flag, heap_duration = d\<rparr>) = (w, d)"
    by (simp add: stored_pair_def)
  assume "entries h t = Some e"
  then show ?thesis
    by (cases e) (auto simp: entries_relax_edge lex_le_refl lex_less_imp_le new)
qed

lemma relax_edge_at_most:
  "\<exists>e'. entries (relax_edge flag node to w d h) to = Some e' \<and> lex_le (stored_pair e') (w, d)"
  by (cases "entries h to") (auto simp: entries_relax_edge lex_le_refl not_lex_less_le
      stored_pair_def)

lemma relax_edge_shape:
  "entries (relax_edge flag node to w d h) t = entries h t \<or>
   (t = to \<and> (\<forall>e. entries h t = Some e \<longrightarrow> lex_less (w, d) (stored_pair e)) \<and>
    entries (relax_edge flag node to w d h) t =
      Some (w, \<lparr>parent = node, from_clique_arc = flag, heap_duration = d\<rparr>))"
  by (auto simp: entries_relax_edge split: option.splits)

lemma relax_all_never_worse:
  "entries h t = Some e \<Longrightarrow>
   \<exists>e'. entries (relax_all node rs h) t = Some e' \<and> lex_le (stored_pair e') (stored_pair e)"
proof (induction rs arbitrary: h e)
  case Nil
  then show ?case by (auto intro: lex_le_refl)
next
  case (Cons r rs)
  obtain flag to w d where r: "r = (flag, to, w, d)"
    by (cases r) auto
  from relax_edge_never_worse [OF Cons.prems, of flag node to w d]
  obtain e1 where e1: "entries (relax_edge flag node to w d h) t = Some e1"
    "lex_le (stored_pair e1) (stored_pair e)"
    by blast
  from Cons.IH [OF e1(1)] e1(2) r show ?case
    by (auto intro: lex_le_trans)
qed

lemma relax_all_at_most:
  "(flag, t, w, d) \<in> set rs \<Longrightarrow>
   \<exists>e'. entries (relax_all node rs h) t = Some e' \<and> lex_le (stored_pair e') (w, d)"
proof (induction rs arbitrary: h)
  case Nil
  then show ?case by simp
next
  case (Cons r rs)
  show ?case
  proof (cases "r = (flag, t, w, d)")
    case True
    from relax_edge_at_most [of flag node t w d h]
    obtain e1 where e1: "entries (relax_edge flag node t w d h) t = Some e1"
      "lex_le (stored_pair e1) (w, d)"
      by blast
    from relax_all_never_worse [OF e1(1), of node rs] e1(2) True show ?thesis
      by (auto intro: lex_le_trans)
  next
    case False
    with Cons.prems have "(flag, t, w, d) \<in> set rs" by simp
    from Cons.IH [OF this] show ?thesis by simp
  qed
qed

lemma relax_all_shape:
  "entries (relax_all node rs h) t = entries h t \<or>
   (\<exists>flag w d. (flag, t, w, d) \<in> set rs \<and>
      (\<forall>e. entries h t = Some e \<longrightarrow> lex_less (w, d) (stored_pair e)) \<and>
      entries (relax_all node rs h) t =
        Some (w, \<lparr>parent = node, from_clique_arc = flag, heap_duration = d\<rparr>))"
proof (induction rs arbitrary: h)
  case Nil
  then show ?case by simp
next
  case (Cons r rs)
  obtain flag to w d where r: "r = (flag, to, w, d)"
    by (cases r) auto
  define h1 where "h1 = relax_edge flag node to w d h"
  have all: "relax_all node (r # rs) h = relax_all node rs h1"
    by (simp add: r h1_def)
  from Cons.IH [of h1]
  consider (same) "entries (relax_all node rs h1) t = entries h1 t"
    | (later) flag' w' d' where "(flag', t, w', d') \<in> set rs"
        "\<forall>e. entries h1 t = Some e \<longrightarrow> lex_less (w', d') (stored_pair e)"
        "entries (relax_all node rs h1) t =
           Some (w', \<lparr>parent = node, from_clique_arc = flag', heap_duration = d'\<rparr>)"
    by blast
  then show ?case
  proof cases
    case same
    have "entries h1 t = entries h t \<or>
      (t = to \<and> (\<forall>e. entries h t = Some e \<longrightarrow> lex_less (w, d) (stored_pair e)) \<and>
       entries h1 t = Some (w, \<lparr>parent = node, from_clique_arc = flag, heap_duration = d\<rparr>))"
      unfolding h1_def by (rule relax_edge_shape)
    with same r show ?thesis
      unfolding all by auto
  next
    case later
    have "\<forall>e. entries h t = Some e \<longrightarrow> lex_less (w', d') (stored_pair e)"
    proof (intro allI impI)
      fix e assume "entries h t = Some e"
      from relax_edge_never_worse [OF this, of flag node to w d]
      obtain e1 where "entries h1 t = Some e1" "lex_le (stored_pair e1) (stored_pair e)"
        unfolding h1_def by blast
      with later(2) show "lex_less (w', d') (stored_pair e)"
        by (auto intro: lex_less_le_trans)
    qed
    with later show ?thesis
      unfolding all by auto
  qed
qed

lemma relax_all_append: "relax_all node (rs @ rs') h = relax_all node rs' (relax_all node rs h)"
  by (induction rs arbitrary: h) simp_all

lemma shortcut_loop_relax_all:
  "shortcut_loop node weight duration ws nodes ds h = Inr h' \<Longrightarrow>
   h' = relax_all node (shortcut_relaxations node weight duration ws nodes ds) h"
  by (induction node weight duration ws nodes ds h rule: shortcut_loop.induct)
     (auto split: if_splits)

lemma relax_border_edges_relax_all:
  "relax_border_edges DIRECTION facade node weight duration edges h = Inr h' \<Longrightarrow>
   h' = relax_all node (border_relaxations DIRECTION facade weight duration edges) h"
  by (induction edges arbitrary: h) (auto simp: Let_def split: if_splits)

lemma relaxOutgoingEdges_relax_all:
  assumes "relaxOutgoingEdges DIRECTION facade node weight duration h args = Inr h'"
    and "getNodeQueryLevel facade node args = Inr level" and "level \<noteq> INVALID_LEVEL_ID"
    and "GetData h node = Some node_data"
  shows "h' = relax_all node
           (relaxations DIRECTION facade node weight duration level (from_clique_arc node_data)) h"
proof (cases "1 \<le> level \<and> \<not> from_clique_arc node_data")
  case True
  with assms obtain h1 where
    h1: "relax_shortcuts DIRECTION facade level node weight duration h = Inr h1"
    and h': "relax_border_edges DIRECTION facade node weight duration
               (GetBorderEdgeRange facade level node) h1 = Inr h'"
    by (auto simp: relaxOutgoingEdges_def split: if_splits sum.splits)
  from h1 have "h1 = relax_all node
      (if DIRECTION = FORWARD_DIRECTION
            then shortcut_relaxations node weight duration
                   (GetOutWeight facade level (GetCell facade level node) node)
                   (GetDestinationNodes facade level (GetCell facade level node))
                   (GetOutDuration facade level (GetCell facade level node) node)
            else shortcut_relaxations node weight duration
                   (GetInWeight facade level (GetCell facade level node) node)
                   (GetSourceNodes facade level (GetCell facade level node))
                   (GetInDuration facade level (GetCell facade level node) node)) h"
    by (auto simp: relax_shortcuts_def Let_def dest: shortcut_loop_relax_all split: if_splits)
  with relax_border_edges_relax_all [OF h'] True show ?thesis
    by (simp add: relaxations_def relax_all_append)
next
  case False
  with assms have "relax_border_edges DIRECTION facade node weight duration
               (GetBorderEdgeRange facade level node) h = Inr h'"
    by (auto simp: relaxOutgoingEdges_def split: if_splits sum.splits)
  from relax_border_edges_relax_all [OF this] False show ?thesis
    by (auto simp: relaxations_def)
qed




text \<open>
  X5. A single relaxation stores the offered (weight, duration) with the new parent and flag
  when the target was never inserted or when the offer is lexicographically less than the
  stored pair, and leaves the entry alone otherwise. A call of \<^verbatim>\<open>relaxOutgoingEdges\<close> that
  returns is the sequence of these relaxations for the shortcuts and border edges of the node;
  after it, every entry is the old one or holds exactly one of the offers (key, duration,
  parent and flag together), and then the offer is less than the pair stored before; the stored
  pair of every target is at most every pair offered to it; and no stored pair got worse. So
  the stored pair is the lexicographic minimum of the pair stored before and the offers.
\<close>

theorem stored_pair_is_lexicographic_minimum:
  "entries (relax_edge flag node to w d h) =
     (entries h)(to \<mapsto>
        (case entries h to of
           None \<Rightarrow> (w, \<lparr>parent = node, from_clique_arc = flag, heap_duration = d\<rparr>)
         | Some e \<Rightarrow>
             if lex_less (w, d) (stored_pair e)
             then (w, \<lparr>parent = node, from_clique_arc = flag, heap_duration = d\<rparr>)
             else e)) \<and>
   (relaxOutgoingEdges DIRECTION facade node weight duration h args = Inr h' \<longrightarrow>
    getNodeQueryLevel facade node args = Inr level \<longrightarrow> level \<noteq> INVALID_LEVEL_ID \<longrightarrow>
    GetData h node = Some node_data \<longrightarrow>
      h' = relax_all node
             (relaxations DIRECTION facade node weight duration level (from_clique_arc node_data))
             h \<and>
      (\<forall>t. entries h' t = entries h t \<or>
           (\<exists>fl k du.
              (fl, t, k, du) \<in> set (relaxations DIRECTION facade node weight duration level
                                      (from_clique_arc node_data)) \<and>
              (\<forall>e. entries h t = Some e \<longrightarrow> lex_less (k, du) (stored_pair e)) \<and>
              entries h' t = Some (k, \<lparr>parent = node, from_clique_arc = fl, heap_duration = du\<rparr>))) \<and>
      (\<forall>fl t k du.
         (fl, t, k, du) \<in> set (relaxations DIRECTION facade node weight duration level
                                 (from_clique_arc node_data)) \<longrightarrow>
         (\<exists>e'. entries h' t = Some e' \<and> lex_le (stored_pair e') (k, du))) \<and>
      (\<forall>t e. entries h t = Some e \<longrightarrow>
         (\<exists>e'. entries h' t = Some e' \<and> lex_le (stored_pair e') (stored_pair e))))"
proof (intro conjI impI)
  show "entries (relax_edge flag node to w d h) =
     (entries h)(to \<mapsto>
        (case entries h to of
           None \<Rightarrow> (w, \<lparr>parent = node, from_clique_arc = flag, heap_duration = d\<rparr>)
         | Some e \<Rightarrow>
             if lex_less (w, d) (stored_pair e)
             then (w, \<lparr>parent = node, from_clique_arc = flag, heap_duration = d\<rparr>)
             else e))"
    by (rule entries_relax_edge)
next
  assume "relaxOutgoingEdges DIRECTION facade node weight duration h args = Inr h'"
    "getNodeQueryLevel facade node args = Inr level" "level \<noteq> INVALID_LEVEL_ID"
    "GetData h node = Some node_data"
  then have eq: "h' = relax_all node
             (relaxations DIRECTION facade node weight duration level (from_clique_arc node_data)) h"
    by (rule relaxOutgoingEdges_relax_all)
  show "h' = relax_all node
             (relaxations DIRECTION facade node weight duration level (from_clique_arc node_data)) h"
    by (rule eq)
  show "\<forall>t. entries h' t = entries h t \<or>
           (\<exists>fl k du.
              (fl, t, k, du) \<in> set (relaxations DIRECTION facade node weight duration level
                                      (from_clique_arc node_data)) \<and>
              (\<forall>e. entries h t = Some e \<longrightarrow> lex_less (k, du) (stored_pair e)) \<and>
              entries h' t = Some (k, \<lparr>parent = node, from_clique_arc = fl, heap_duration = du\<rparr>))"
    unfolding eq by (intro allI relax_all_shape)
  show "\<forall>fl t k du.
         (fl, t, k, du) \<in> set (relaxations DIRECTION facade node weight duration level
                                 (from_clique_arc node_data)) \<longrightarrow>
         (\<exists>e'. entries h' t = Some e' \<and> lex_le (stored_pair e') (k, du))"
    unfolding eq by (intro allI impI relax_all_at_most)
  show "\<forall>t e. entries h t = Some e \<longrightarrow>
         (\<exists>e'. entries h' t = Some e' \<and> lex_le (stored_pair e') (stored_pair e))"
    unfolding eq by (intro allI impI relax_all_never_worse)
qed

lemma cell_example_level:
  "getNodeQueryLevel cell_facade 0 (OnePhantom (phantom_at 0 0)) = Inr 1"
  by code_simp

lemma cell_example_data:
  "GetData seeded_heap 0 = Some \<lparr>parent = 0, from_clique_arc = False, heap_duration = 0\<rparr>"
  by code_simp

lemma cell_example_relaxations:
  "relaxations FORWARD_DIRECTION cell_facade 0 0 0 1
     (from_clique_arc \<lparr>parent = 0, from_clique_arc = False, heap_duration = 0\<rparr>) =
   [(True, 1, 5, 7), (False, 1, 10, 10)]"
  by code_simp

lemma cell_example_result:
  "map_sum id (\<lambda>h. (entries h 0, entries h 1, entries h 2, insertions h))
     (relaxOutgoingEdges FORWARD_DIRECTION cell_facade 0 0 0 seeded_heap
        (OnePhantom (phantom_at 0 0))) =
   Inr (Some (0, \<lparr>parent = 0, from_clique_arc = False, heap_duration = 0\<rparr>),
        Some (5, \<lparr>parent = 0, from_clique_arc = True, heap_duration = 7\<rparr>), None, [0, 1])"
  by code_simp

theorem stored_pair_is_lexicographic_minimum_witness:
  "\<exists>h'. relaxOutgoingEdges FORWARD_DIRECTION cell_facade 0 0 0 seeded_heap
          (OnePhantom (phantom_at 0 0)) = Inr h' \<and>
        h' = relax_all 0 [(True, 1, 5, 7), (False, 1, 10, 10)] seeded_heap \<and>
        (\<exists>e'. entries h' 1 = Some e' \<and> lex_le (stored_pair e') (10, 10)) \<and>
        (\<exists>e'. entries h' 0 = Some e' \<and>
           lex_le (stored_pair e')
             (stored_pair (0, \<lparr>parent = 0, from_clique_arc = False, heap_duration = 0\<rparr>)))"
proof -
  from cell_example_result obtain h' where
    h': "relaxOutgoingEdges FORWARD_DIRECTION cell_facade 0 0 0 seeded_heap
           (OnePhantom (phantom_at 0 0)) = Inr h'"
    by (auto dest: map_sum_InrD)
  have old: "entries seeded_heap 0 =
      Some (0, \<lparr>parent = 0, from_clique_arc = False, heap_duration = 0\<rparr>)"
    by code_simp
  have level: "(1::nat) \<noteq> INVALID_LEVEL_ID"
    by (simp add: INVALID_LEVEL_ID_def)
  note inst = stored_pair_is_lexicographic_minimum [THEN conjunct2, rule_format,
      OF h' cell_example_level level cell_example_data, unfolded cell_example_relaxations]
  from inst [THEN conjunct1]
  have "h' = relax_all 0 [(True, 1, 5, 7), (False, 1, 10, 10)] seeded_heap" .
  moreover from inst [THEN conjunct2, THEN conjunct2, THEN conjunct1, rule_format,
      of False 1 10 10]
  have "\<exists>e'. entries h' 1 = Some e' \<and> lex_le (stored_pair e') (10, 10)"
    by simp
  moreover from inst [THEN conjunct2, THEN conjunct2, THEN conjunct2, rule_format, OF old]
  have "\<exists>e'. entries h' 0 = Some e' \<and>
           lex_le (stored_pair e')
             (stored_pair (0, \<lparr>parent = 0, from_clique_arc = False, heap_duration = 0\<rparr>))" .
  ultimately show ?thesis
    using h' by blast
qed


subsection \<open>Meeting nodes and weights\<close>

lemma bucket_loop_cells_agree:
  "bucket_loop DIRECTION row_idx number_of_sources number_of_targets node source_weight
     source_duration bs t = Inr t' \<Longrightarrow>
   node \<noteq> SPECIAL_NODEID \<Longrightarrow>
   list_all (\<lambda>b. source_weight + bucket_weight b \<noteq> INVALID_EDGE_WEIGHT) bs \<Longrightarrow>
   cells_agree n t \<Longrightarrow> cells_agree n t'"
proof (induction bs arbitrary: t)
  case Nil
  then show ?case by simp
next
  case (Cons b bs)
  define l where "l = location DIRECTION row_idx number_of_sources number_of_targets (column_index b)"
  from Cons.prems(1) have bounds:
    "l < length (weights_table t)" "l < length (durations_table t)"
    "l < length (middle_nodes_table t)"
    by (auto simp: Let_def l_def split: if_splits)
  define t1 where "t1 =
    (if 0 \<le> source_weight + bucket_weight b \<and>
        lex_less (source_weight + bucket_weight b, source_duration + bucket_duration b)
          (weights_table t ! l, durations_table t ! l)
     then t\<lparr>weights_table := (weights_table t)[l := source_weight + bucket_weight b],
            durations_table := (durations_table t)[l := source_duration + bucket_duration b],
            middle_nodes_table := (middle_nodes_table t)[l := node]\<rparr>
     else t)"
  from Cons.prems(1) bounds have rec:
    "bucket_loop DIRECTION row_idx number_of_sources number_of_targets node source_weight
       source_duration bs t1 = Inr t'"
    by (auto simp: Let_def l_def t1_def split: if_splits)
  from Cons.prems(3) have b: "source_weight + bucket_weight b \<noteq> INVALID_EDGE_WEIGHT"
    and bs: "list_all (\<lambda>b. source_weight + bucket_weight b \<noteq> INVALID_EDGE_WEIGHT) bs"
    by simp_all
  have "cells_agree n t1"
    using Cons.prems(2,4) b bounds
    by (auto simp: t1_def cells_agree_def nth_list_update)
  from Cons.IH [OF rec Cons.prems(2) bs this] show ?case .
qed

lemma forwardRoutingStep_cells_agree:
  assumes "forwardRoutingStep DIRECTION facade row_idx number_of_sources number_of_targets
      query_heap search_space_with_buckets t phantom_node = Inr r"
    and "proper_call search_space_with_buckets query_heap"
    and "cells_agree n t"
  shows "cells_agree n (snd r)"
proof -
  from assms(1) obtain node h where pop: "DeleteMin query_heap = Some (node, h)"
    by (cases "DeleteMin query_heap") (auto simp: forwardRoutingStep_def)
  with assms(1) obtain e where e: "entries h node = Some e"
    by (cases "entries h node") (auto simp: forwardRoutingStep_def)
  from assms(1) pop e have loop:
    "bucket_loop DIRECTION row_idx number_of_sources number_of_targets node (fst e)
       (heap_duration (snd e)) (equal_range_node search_space_with_buckets node) t = Inr (snd r)"
    by (auto simp: forwardRoutingStep_def Let_def and_then_Inr_iff)
  from assms(2) pop e have "node \<noteq> SPECIAL_NODEID"
    "list_all (\<lambda>b. fst e + bucket_weight b \<noteq> INVALID_EDGE_WEIGHT)
       (equal_range_node search_space_with_buckets node)"
    by (simp_all add: proper_call_def)
  from bucket_loop_cells_agree [OF loop this assms(3)] show ?thesis .
qed

lemma forward_steps_cells_agree:
  "forward_steps DIRECTION facade number_of_sources number_of_targets search_space_with_buckets
     calls t = Inr t' \<Longrightarrow>
   list_all (\<lambda>c. proper_call search_space_with_buckets (fst (snd c))) calls \<Longrightarrow>
   cells_agree n t \<Longrightarrow> cells_agree n t'"
proof (induction calls arbitrary: t)
  case Nil
  then show ?case by simp
next
  case (Cons c calls)
  from Cons.prems(1) obtain r where
    r: "forwardRoutingStep DIRECTION facade (fst c) number_of_sources number_of_targets
          (fst (snd c)) search_space_with_buckets t (snd (snd c)) = Inr r"
    and rest: "forward_steps DIRECTION facade number_of_sources number_of_targets
          search_space_with_buckets calls (snd r) = Inr t'"
    by (auto simp: and_then_Inr_iff)
  from Cons.prems(2) have c: "proper_call search_space_with_buckets (fst (snd c))"
    and calls: "list_all (\<lambda>c. proper_call search_space_with_buckets (fst (snd c))) calls"
    by simp_all
  from forwardRoutingStep_cells_agree [OF r c Cons.prems(3)]
  have "cells_agree n (snd r)" .
  from Cons.IH [OF rest calls this] show ?case .
qed

lemma cells_agree_initial: "cells_agree n (initial_tables n)"
  by (simp add: cells_agree_def initial_tables_def)

text \<open>
  C10, as stated, fails when a meeting has a combined weight equal to the sentinel. From the
  initial tables of a 1 x 1 matrix, one forward step that settles node 0 with weight 0 meets the
  bucket of node 0 with weight 2147483647 and duration 0: the sum is not negative and the pair
  (2147483647, 0) is less than the initial (2147483647, 2147483647), so the meeting is
  committed. The meeting node 0 is recorded while the weight still equals
  \<^verbatim>\<open>INVALID_EDGE_WEIGHT\<close>.
\<close>

theorem meeting_committed_with_sentinel_weight:
  "\<exists>t'. forward_steps FORWARD_DIRECTION line_facade 1 1 [heavy_bucket]
          [(0, seeded_heap, phantom_at 0 0)] (initial_tables 1) = Inr t' \<and>
        weights_table t' ! 0 = INVALID_EDGE_WEIGHT \<and>
        middle_nodes_table t' ! 0 \<noteq> SPECIAL_NODEID"
proof -
  have "map_sum id (\<lambda>t. (weights_table t ! 0 = INVALID_EDGE_WEIGHT,
                          middle_nodes_table t ! 0 = SPECIAL_NODEID))
     (forward_steps FORWARD_DIRECTION line_facade 1 1 [heavy_bucket]
        [(0, seeded_heap, phantom_at 0 0)] (initial_tables 1)) = Inr (True, False)"
    by code_simp
  then show ?thesis
    by (auto dest!: map_sum_InrD)
qed

text \<open>
  C10, amended. From the initial tables, after any sequence of forward steps that are proper
  (the popped node is not \<^verbatim>\<open>SPECIAL_NODEID\<close>, which the heap does not admit as a node, and no
  combined weight of a bucket of that node equals \<^verbatim>\<open>INVALID_EDGE_WEIGHT\<close>), the tables keep
  their size and in every cell the meeting node is the sentinel exactly when the weight is the
  sentinel.
\<close>

theorem meeting_node_and_weight_agree:
  assumes "forward_steps DIRECTION facade number_of_sources number_of_targets
      search_space_with_buckets calls (initial_tables n) = Inr t'"
    and "list_all (\<lambda>c. proper_call search_space_with_buckets (fst (snd c))) calls"
  shows "length (middle_nodes_table t') = n \<and> length (weights_table t') = n \<and>
    (\<forall>loc < n. (middle_nodes_table t' ! loc = SPECIAL_NODEID) =
               (weights_table t' ! loc = INVALID_EDGE_WEIGHT))"
  using forward_steps_cells_agree [OF assms cells_agree_initial]
  by (simp add: cells_agree_def)

theorem meeting_node_and_weight_agree_witness:
  "\<exists>t'. forward_steps FORWARD_DIRECTION line_facade 1 1 [bucket_at_0]
          [(0, seeded_heap, phantom_at 0 0)] (initial_tables 1) = Inr t' \<and>
        list_all (\<lambda>c. proper_call [bucket_at_0] (fst (snd c))) [(0, seeded_heap, phantom_at 0 0)] \<and>
        middle_nodes_table t' = [0] \<and> weights_table t' = [5] \<and>
        (middle_nodes_table t' ! 0 = SPECIAL_NODEID) = (weights_table t' ! 0 = INVALID_EDGE_WEIGHT)"
proof -
  have "map_sum id (\<lambda>t. (middle_nodes_table t, weights_table t))
     (forward_steps FORWARD_DIRECTION line_facade 1 1 [bucket_at_0]
        [(0, seeded_heap, phantom_at 0 0)] (initial_tables 1)) = Inr ([0], [5])"
    by code_simp
  then obtain t' where t': "forward_steps FORWARD_DIRECTION line_facade 1 1 [bucket_at_0]
          [(0, seeded_heap, phantom_at 0 0)] (initial_tables 1) = Inr t'"
    and val: "middle_nodes_table t' = [0]" "weights_table t' = [5]"
    by (auto dest!: map_sum_InrD)
  have proper: "list_all (\<lambda>c. proper_call [bucket_at_0] (fst (snd c)))
      [(0, seeded_heap, phantom_at 0 0)]"
    by code_simp
  from meeting_node_and_weight_agree [OF t' proper]
  have "(middle_nodes_table t' ! 0 = SPECIAL_NODEID) = (weights_table t' ! 0 = INVALID_EDGE_WEIGHT)"
    by simp
  with t' val proper show ?thesis
    by blast
qed

subsection \<open>Further properties of the relaxer and of the bidirectional driver\<close>

lemma relax_edge_insertions:
  "distinct (insertions h) \<Longrightarrow> set (insertions h) = {n. WasInserted h n} \<Longrightarrow>
   distinct (insertions (relax_edge flag node to w d h)) \<and>
   set (insertions (relax_edge flag node to w d h)) = {n. WasInserted (relax_edge flag node to w d h) n}"
  by (cases "entries h to")
     (auto simp: relax_edge_def Insert_def DecreaseKey_def SetData_def WasInserted_def
       split: if_splits)

lemma relax_all_insertions:
  "distinct (insertions h) \<Longrightarrow> set (insertions h) = {n. WasInserted h n} \<Longrightarrow>
   distinct (insertions (relax_all node rs h)) \<and>
   set (insertions (relax_all node rs h)) = {n. WasInserted (relax_all node rs h) n}"
proof (induction rs arbitrary: h)
  case Nil
  then show ?case by simp
next
  case (Cons r rs)
  from relax_edge_insertions [OF Cons.prems,
      of "fst r" node "fst (snd r)" "fst (snd (snd r))" "snd (snd (snd r))"]
  show ?case
    by (auto dest: Cons.IH [rotated -1])
qed

text \<open>
  X1. \<^verbatim>\<open>relaxOutgoingEdges\<close> inserts only nodes that were never inserted: if the log of the
  \<^verbatim>\<open>Insert\<close> calls has no repetition and holds exactly the inserted nodes before the call, it
  does so after it.
\<close>

theorem relaxation_inserts_only_unseen_nodes:
  assumes "relaxOutgoingEdges DIRECTION facade node weight duration h args = Inr h'"
    and "distinct (insertions h)" and "set (insertions h) = {n. WasInserted h n}"
  shows "distinct (insertions h') \<and> set (insertions h') = {n. WasInserted h' n}"
proof -
  from assms(1) obtain level where level: "getNodeQueryLevel facade node args = Inr level"
    by (cases "getNodeQueryLevel facade node args")
       (auto simp: relaxOutgoingEdges_def split: if_splits)
  show ?thesis
  proof (cases "level = INVALID_LEVEL_ID")
    case True
    with assms level show ?thesis
      by (auto simp: relaxOutgoingEdges_def split: if_splits)
  next
    case False
    with assms(1) level obtain node_data where "GetData h node = Some node_data"
      by (cases "GetData h node") (auto simp: relaxOutgoingEdges_def split: if_splits)
    from relaxOutgoingEdges_relax_all [OF assms(1) level False this]
      relax_all_insertions [OF assms(2,3)]
    show ?thesis by simp
  qed
qed

theorem relaxation_inserts_only_unseen_nodes_witness:
  "\<exists>h'. relaxOutgoingEdges FORWARD_DIRECTION cell_facade 0 0 0 seeded_heap
          (OnePhantom (phantom_at 0 0)) = Inr h' \<and>
        insertions h' = [0, 1] \<and> distinct (insertions h') \<and>
        set (insertions h') = {n. WasInserted h' n}"
proof -
  from cell_example_result obtain h' where
    h': "relaxOutgoingEdges FORWARD_DIRECTION cell_facade 0 0 0 seeded_heap
           (OnePhantom (phantom_at 0 0)) = Inr h'"
    and log: "insertions h' = [0, 1]"
    by (auto dest!: map_sum_InrD)
  have "distinct (insertions seeded_heap)" "set (insertions seeded_heap) = {n. WasInserted seeded_heap n}"
    by (auto simp: seeded_heap_def seed_source_def phantom_at_def Insert_def empty_heap_def
        WasInserted_def Let_def)
  from relaxation_inserts_only_unseen_nodes [OF h' this] h' log show ?thesis
    by blast
qed

lemma for_each_invariant:
  assumes "for_each body xs s = Inr s'" and "P s"
    and "\<And>x s s'. x \<in> set xs \<Longrightarrow> body x s = Inr s' \<Longrightarrow> P s \<Longrightarrow> P s'"
  shows "P s'"
  using assms
proof (induction xs arbitrary: s)
  case Nil
  then show ?case by simp
next
  case (Cons x xs)
  from Cons.prems(1) obtain s1 where s1: "body x s = Inr s1" "for_each body xs s1 = Inr s'"
    by (auto simp: and_then_Inr_iff)
  from Cons.prems(3) [OF _ s1(1) Cons.prems(2)] have "P s1" by simp
  show ?case
  proof (rule Cons.IH [OF s1(2) \<open>P s1\<close>])
    fix y t t'
    assume "y \<in> set xs" "body y t = Inr t'" "P t"
    then show "P t'"
      using Cons.prems(3) [of y t t'] by simp
  qed
qed

text \<open>
  X2. The bidirectional driver returns an empty distance table when distances are not
  requested.
\<close>

theorem many_to_many_without_distances:
  fixes facade :: "('d::{zero,plus,minus,uminus,ord}) DataFacade"
  assumes "mld_manyToManySearch fuel DIRECTION facade phantom_nodes source_indices target_indices
      False = Inr r"
  shows "snd r = []"
proof -
  from assms obtain buckets st where
    run: "for_each
            (forward_search fuel DIRECTION facade phantom_nodes target_indices
               (length source_indices) (length target_indices) (sort_buckets buckets) False)
            (zip [0..<min (length source_indices) 4294967296] source_indices)
            (initial_tables (length source_indices * length target_indices), []) = Inr st"
    and r: "r = (durations_table (fst st), snd st)"
    by (auto simp: mld_manyToManySearch_def Let_def and_then_Inr_iff split: if_splits)
  have "snd st = []"
  proof (rule for_each_invariant [OF run, where P = "\<lambda>st. snd st = []"])
    show "snd (initial_tables (length source_indices * length target_indices), []) = []"
      by simp
  next
    fix x and s s' :: "Tables \<times> 'd list"
    assume "forward_search fuel DIRECTION facade phantom_nodes target_indices
        (length source_indices) (length target_indices) (sort_buckets buckets) False x s = Inr s'"
      and "snd s = []"
    then show "snd s' = []"
      by (auto simp: forward_search_def Let_def and_then_Inr_iff split: if_splits)
  qed
  with r show ?thesis by simp
qed

theorem many_to_many_without_distances_witness:
  "mld_manyToManySearch 10 FORWARD_DIRECTION line_facade [phantom_at 0 0, phantom_at 1 30]
     [0, 1] [0, 1] False = Inr ([0, 10, MAXIMAL_EDGE_DURATION, 0], []) \<and>
   snd ([0, 10, MAXIMAL_EDGE_DURATION, 0], [] :: int list) = []"
proof -
  have run: "mld_manyToManySearch 10 FORWARD_DIRECTION line_facade
      [phantom_at 0 0, phantom_at 1 30] [0, 1] [0, 1] False =
      Inr ([0, 10, MAXIMAL_EDGE_DURATION, 0], [])"
    by code_simp
  from many_to_many_without_distances [OF run] run show ?thesis
    by simp
qed

text \<open>
  X3. In the bidirectional driver the distance of a cell is forced to 0 exactly by the test
  that the source and the target of the cell are the same phantom index; a cell of distinct
  phantoms without a meeting node gets the sentinel; no other cell is written.
\<close>

theorem calculate_cell_self_pair:
  fixes facade :: "('d::{zero,plus,minus,uminus,ord}) DataFacade"
  assumes "calculate_cell DIRECTION fuel facade query_heap phantom_nodes target_indices row_idx
      source_index source_phantom number_of_sources number_of_targets search_space_with_buckets
      middle_nodes column_idx distances_table = Inr d'"
  shows "length d' = length distances_table \<and>
    (\<forall>l. l \<noteq> location DIRECTION row_idx number_of_sources number_of_targets column_idx \<longrightarrow>
         d' ! l = distances_table ! l) \<and>
    (source_index = target_indices ! column_idx \<longrightarrow>
       d' ! location DIRECTION row_idx number_of_sources number_of_targets column_idx = 0) \<and>
    (source_index \<noteq> target_indices ! column_idx \<longrightarrow>
     middle_nodes ! location DIRECTION row_idx number_of_sources number_of_targets column_idx =
       SPECIAL_NODEID \<longrightarrow>
       d' ! location DIRECTION row_idx number_of_sources number_of_targets column_idx =
         INVALID_EDGE_DISTANCE facade)"
  using assms
  by (auto simp: calculate_cell_def Let_def and_then_Inr_iff split: if_splits)

theorem calculate_cell_self_pair_witness:
  "calculate_cell FORWARD_DIRECTION 10 line_facade seeded_heap [phantom_at 0 0, phantom_at 1 30]
     [0, 1] 0 0 (phantom_at 0 0) 2 2 [] (replicate 4 SPECIAL_NODEID) 0 [7, 7, 7, 7] =
     Inr [0, 7, 7, 7] \<and>
   calculate_cell FORWARD_DIRECTION 10 line_facade seeded_heap [phantom_at 0 0, phantom_at 1 30]
     [0, 1] 0 0 (phantom_at 0 0) 2 2 [] (replicate 4 SPECIAL_NODEID) 1 [7, 7, 7, 7] =
     Inr [7, INVALID_EDGE_DISTANCE line_facade, 7, 7] \<and>
   [0, 7, 7, 7 :: int] ! location FORWARD_DIRECTION 0 2 2 0 = 0 \<and>
   [7, INVALID_EDGE_DISTANCE line_facade, 7, 7] ! location FORWARD_DIRECTION 0 2 2 1 =
     INVALID_EDGE_DISTANCE line_facade"
proof -
  have a: "calculate_cell FORWARD_DIRECTION 10 line_facade seeded_heap
      [phantom_at 0 0, phantom_at 1 30] [0, 1] 0 0 (phantom_at 0 0) 2 2 []
      (replicate 4 SPECIAL_NODEID) 0 [7, 7, 7, 7] = Inr [0, 7, 7, 7]"
    by code_simp
  have b: "calculate_cell FORWARD_DIRECTION 10 line_facade seeded_heap
      [phantom_at 0 0, phantom_at 1 30] [0, 1] 0 0 (phantom_at 0 0) 2 2 []
      (replicate 4 SPECIAL_NODEID) 1 [7, 7, 7, 7] =
      Inr [7, INVALID_EDGE_DISTANCE line_facade, 7, 7]"
    by code_simp
  have c: "(0::nat) = [0, 1] ! 0" "(0::nat) \<noteq> [0, 1] ! 1"
    "replicate 4 SPECIAL_NODEID ! location FORWARD_DIRECTION 0 2 2 1 = SPECIAL_NODEID"
    by (simp_all add: location_def as_unsigned_def)
  from calculate_cell_self_pair [OF a, THEN conjunct2, THEN conjunct2, THEN conjunct1,
      rule_format, OF c(1)]
    calculate_cell_self_pair [OF b, THEN conjunct2, THEN conjunct2, THEN conjunct2,
      rule_format, OF c(2) c(3)] a b
  show ?thesis by simp
qed

lemma add_target_lengths:
  "add_target node index w d tpi dist s = Inr s' \<Longrightarrow>
   length (durations s') = length (durations s) \<and> length (distances s') = length (distances s)"
  by (auto simp: add_target_def split: if_splits)

lemma collect_target_lengths:
  fixes phantom_nodes :: "('d::{zero,plus,minus,uminus,ord}) PhantomNode list"
  shows "collect_target DIRECTION phantom_nodes p s = Inr s' \<Longrightarrow>
   length (durations s') = length (durations s) \<and> length (distances s') = length (distances s)"
  by (auto simp: collect_target_def Let_def and_then_Inr_iff split: if_splits
      dest!: add_target_lengths)

lemma update_values_loop_lengths:
  "update_values_loop node weight duration cs s = Inr s' \<Longrightarrow>
   length (durations s') = length (durations s) \<and> length (distances s') = length (distances s)"
proof (induction cs arbitrary: s)
  case Nil
  then show ?case by simp
next
  case (Cons c cs)
  show ?case
  proof (cases "0 \<le> weight + fst (snd c)")
    case False
    with Cons.prems have "update_values_loop node weight duration cs s = Inr s'"
      by (simp add: Let_def)
    from Cons.IH [OF this] show ?thesis .
  next
    case True
    with Cons.prems obtain s1 where
      "update_values_loop node weight duration cs s1 = Inr s'"
      "length (durations s1) = length (durations s)" "length (distances s1) = length (distances s)"
      by (auto simp: Let_def split: if_splits)
    with Cons.IH [of s1] show ?thesis by simp
  qed
qed

lemma update_values_lengths:
  "update_values node weight duration s = Inr s' \<Longrightarrow>
   length (durations s') = length (durations s) \<and> length (distances s') = length (distances s)"
  unfolding update_values_def by (rule update_values_loop_lengths)

lemma insert_node_lengths:
  "insert_node DIRECTION facade node w d s = Inr s' \<Longrightarrow>
   length (durations s') = length (durations s) \<and> length (distances s') = length (distances s)"
  by (auto simp: insert_node_def and_then_Inr_iff dest!: update_values_lengths)

lemma place_source_lengths:
  "place_source DIRECTION facade phantom_nodes source_phantom_index s = Inr s' \<Longrightarrow>
   length (durations s') = length (durations s) \<and> length (distances s') = length (distances s)"
  by (auto simp: place_source_def Let_def and_then_Inr_iff split: if_splits
      dest!: insert_node_lengths)

lemma search_loop_lengths:
  "search_loop fuel DIRECTION facade phantom_nodes source_phantom_index phantom_indices s = Inr s' \<Longrightarrow>
   length (durations s') = length (durations s) \<and> length (distances s') = length (distances s)"
proof (induction fuel arbitrary: s)
  case 0
  then show ?case
    by (auto split: if_splits)
next
  case (Suc fuel)
  show ?case
  proof (cases "\<not> Empty (many_to_many_heap s) \<and> target_nodes_index s \<noteq> []")
    case False
    with Suc.prems show ?thesis by auto
  next
    case True
    with Suc.prems obtain s1 h where
      "length (durations s1) = length (durations s)" "length (distances s1) = length (distances s)"
      "search_loop fuel DIRECTION facade phantom_nodes source_phantom_index phantom_indices
         (s1\<lparr>many_to_many_heap := h\<rparr>) = Inr s'"
      by (auto simp: Let_def and_then_Inr_iff split: option.splits dest!: update_values_lengths)
    with Suc.IH [of "s1\<lparr>many_to_many_heap := h\<rparr>"] show ?thesis by simp
  qed
qed

text \<open>
  X4. Whenever the unidirectional search returns without computing distances, both returned
  vectors have one entry per target: the distance vector is empty only when there is no target.
\<close>

theorem one_to_many_result_lengths:
  fixes facade :: "('d::{zero,plus,minus,uminus,ord}) DataFacade"
  assumes "oneToManySearch fuel DIRECTION facade phantom_nodes source_phantom_index
      phantom_indices False = Inr r"
  shows "length (fst r) = length phantom_indices \<and> length (snd r) = length phantom_indices"
proof -
  define s0 :: "'d OneToMany" where "s0 =
    \<lparr>weights = replicate (length phantom_indices) INVALID_EDGE_WEIGHT,
     durations = replicate (length phantom_indices) MAXIMAL_EDGE_DURATION,
     distances = replicate (length phantom_indices) (INVALID_EDGE_DISTANCE facade),
     target_nodes = replicate (length phantom_indices) SPECIAL_NODEID,
     target_nodes_index = [], many_to_many_heap = empty_heap\<rparr>"
  from assms obtain s1 s2 s3 where
    s1: "for_each (collect_target DIRECTION phantom_nodes)
           (zip [0..<length phantom_indices] phantom_indices) s0 = Inr s1"
    and s2: "place_source DIRECTION facade phantom_nodes source_phantom_index s1 = Inr s2"
    and s3: "search_loop fuel DIRECTION facade phantom_nodes source_phantom_index phantom_indices
           s2 = Inr s3"
    and r: "r = (durations s3, distances s3)"
    by (auto simp: oneToManySearch_def Let_def and_then_Inr_iff s0_def)
  have "length (durations s1) = length phantom_indices \<and>
      length (distances s1) = length phantom_indices"
    by (rule for_each_invariant [OF s1]) (auto simp: s0_def dest!: collect_target_lengths)
  with place_source_lengths [OF s2] search_loop_lengths [OF s3] r show ?thesis
    by simp
qed

theorem one_to_many_result_lengths_witness:
  "oneToManySearch 10 FORWARD_DIRECTION line_facade [phantom_at 0 0, phantom_at 1 30] 0 [1, 0]
     False = Inr ([10, 0], [0, 30]) \<and>
   length (fst ([10, 0 :: int], [0, 30 :: int])) = length [1, 0 :: nat] \<and>
   length (snd ([10, 0 :: int], [0, 30 :: int])) = length [1, 0 :: nat]"
proof -
  have run: "oneToManySearch 10 FORWARD_DIRECTION line_facade [phantom_at 0 0, phantom_at 1 30] 0
      [1, 0] False = Inr ([10, 0], [0, 30])"
    by code_simp
  from one_to_many_result_lengths [OF run] run show ?thesis
    by simp
qed

subsection \<open>The invariant of the search\<close>



















lemma cell_example_seeded:
  "entries seeded_heap = (\<lambda>n. None)(0 \<mapsto> (0, \<lparr>parent = 0, from_clique_arc = False, heap_duration = 0\<rparr>))"
  "queue seeded_heap = [0]"
  by (simp_all add: seeded_heap_def seed_source_def phantom_at_def empty_heap_def Insert_def
        Let_def)

lemma cell_example_invariant: "heap_invariant seeded_heap"
  by (simp add: heap_invariant_def cell_example_seeded)



subsection \<open>The orientation of the matrix\<close>

lemma lex_le_antisym: "lex_le a b \<Longrightarrow> lex_le b a \<Longrightarrow> a = b"
  by (auto simp: lex_le_def lex_less_def)

lemma as_unsigned_small: "n < 4294967296 \<Longrightarrow> as_unsigned n = n"
  by (simp add: as_unsigned_def)

lemma position_in_table:
  fixes r c S T :: nat
  assumes "r < S" and "c < T"
  shows "r * T + c < S * T"
proof -
  have "r * T + c < r * T + T" using assms by simp
  also have "\<dots> = Suc r * T" by simp
  also have "\<dots> \<le> S * T" using assms by (intro mult_le_mono1) simp
  finally show ?thesis .
qed

lemma position_injective:
  fixes r c r' c' T :: nat
  assumes "c < T" and "c' < T" and "r * T + c = r' * T + c'"
  shows "r = r' \<and> c = c'"
proof -
  from assms have "(r * T + c) div T = (r' * T + c') div T" "(r * T + c) mod T = (r' * T + c') mod T"
    by simp_all
  with assms(1,2) show ?thesis
    by simp
qed

lemma location_value:
  assumes "r < number_of_sources" and "c < number_of_targets"
    and "number_of_sources * number_of_targets \<le> 4294967296"
  shows "location DIRECTION r number_of_sources number_of_targets c =
           (if DIRECTION = FORWARD_DIRECTION then r * number_of_targets + c
            else c * number_of_sources + r)"
    and "location DIRECTION r number_of_sources number_of_targets c <
           number_of_sources * number_of_targets"
proof -
  have f: "r * number_of_targets + c < number_of_sources * number_of_targets"
    using assms(1,2) by (rule position_in_table)
  have b: "c * number_of_sources + r < number_of_sources * number_of_targets"
    using position_in_table [OF assms(2,1)] by (simp add: mult.commute)
  from f b assms(3) show
    "location DIRECTION r number_of_sources number_of_targets c =
           (if DIRECTION = FORWARD_DIRECTION then r * number_of_targets + c
            else c * number_of_sources + r)"
    by (simp add: location_def as_unsigned_def add.commute)
  with f b show "location DIRECTION r number_of_sources number_of_targets c <
           number_of_sources * number_of_targets"
    by simp
qed

lemma location_injective:
  assumes "r < number_of_sources" and "c < number_of_targets"
    and "r' < number_of_sources" and "c' < number_of_targets"
    and "number_of_sources * number_of_targets \<le> 4294967296"
    and "location DIRECTION r number_of_sources number_of_targets c =
         location DIRECTION r' number_of_sources number_of_targets c'"
  shows "r = r' \<and> c = c'"
proof (cases "DIRECTION = FORWARD_DIRECTION")
  case True
  with assms(6) location_value(1) [OF assms(1,2,5), of DIRECTION]
    location_value(1) [OF assms(3,4,5), of DIRECTION]
  have "r * number_of_targets + c = r' * number_of_targets + c'"
    by simp
  with assms(2,4) show ?thesis
    by (rule position_injective)
next
  case False
  with assms(6) location_value(1) [OF assms(1,2,5), of DIRECTION]
    location_value(1) [OF assms(3,4,5), of DIRECTION]
  have "c * number_of_sources + r = c' * number_of_sources + r'"
    by simp
  with assms(1,3) have "c = c' \<and> r = r'"
    by (rule position_injective)
  then show ?thesis by simp
qed

lemma bucket_loop_lengths:
  "bucket_loop DIRECTION row_idx number_of_sources number_of_targets node source_weight
     source_duration bs t = Inr t' \<Longrightarrow>
   length (weights_table t') = length (weights_table t) \<and>
   length (durations_table t') = length (durations_table t) \<and>
   length (middle_nodes_table t') = length (middle_nodes_table t)"
proof (induction bs arbitrary: t)
  case Nil
  then show ?case by simp
next
  case (Cons b bs)
  define l where "l = location DIRECTION row_idx number_of_sources number_of_targets (column_index b)"
  define t1 where "t1 =
    (if 0 \<le> source_weight + bucket_weight b \<and>
        lex_less (source_weight + bucket_weight b, source_duration + bucket_duration b)
          (weights_table t ! l, durations_table t ! l)
     then t\<lparr>weights_table := (weights_table t)[l := source_weight + bucket_weight b],
            durations_table := (durations_table t)[l := source_duration + bucket_duration b],
            middle_nodes_table := (middle_nodes_table t)[l := node]\<rparr>
     else t)"
  from Cons.prems have rec:
    "bucket_loop DIRECTION row_idx number_of_sources number_of_targets node source_weight
       source_duration bs t1 = Inr t'"
    by (auto simp: Let_def l_def t1_def split: if_splits)
  from Cons.IH [OF rec] show ?case
    by (auto simp: t1_def)
qed

lemma bucket_loop_cell:
  assumes "bucket_loop DIRECTION row_idx number_of_sources number_of_targets node source_weight
     source_duration bs t = Inr t'"
  shows "cell t' loc = cell t loc \<or>
         (\<exists>b \<in> set bs.
            location DIRECTION row_idx number_of_sources number_of_targets (column_index b) = loc \<and>
            0 \<le> source_weight + bucket_weight b \<and>
            cell t' loc = (source_weight + bucket_weight b, source_duration + bucket_duration b))"
  using bucket_loop_commit [OF assms, of loc]
  by (auto simp: cell_def)

lemma bucket_loop_never_worse:
  "bucket_loop DIRECTION row_idx number_of_sources number_of_targets node source_weight
     source_duration bs t = Inr t' \<Longrightarrow>
   lex_le (cell t' loc) (cell t loc) \<and>
   (\<forall>b \<in> set bs.
      location DIRECTION row_idx number_of_sources number_of_targets (column_index b) = loc \<longrightarrow>
      0 \<le> source_weight + bucket_weight b \<longrightarrow>
      lex_le (cell t' loc) (source_weight + bucket_weight b, source_duration + bucket_duration b))"
proof (induction bs arbitrary: t)
  case Nil
  then show ?case by (simp add: lex_le_refl)
next
  case (Cons b bs)
  define l where "l = location DIRECTION row_idx number_of_sources number_of_targets (column_index b)"
  define new where "new = (source_weight + bucket_weight b, source_duration + bucket_duration b)"
  from Cons.prems have bounds:
    "l < length (weights_table t)" "l < length (durations_table t)"
    by (auto simp: Let_def l_def split: if_splits)
  define t1 where "t1 =
    (if 0 \<le> source_weight + bucket_weight b \<and>
        lex_less (source_weight + bucket_weight b, source_duration + bucket_duration b)
          (weights_table t ! l, durations_table t ! l)
     then t\<lparr>weights_table := (weights_table t)[l := source_weight + bucket_weight b],
            durations_table := (durations_table t)[l := source_duration + bucket_duration b],
            middle_nodes_table := (middle_nodes_table t)[l := node]\<rparr>
     else t)"
  from Cons.prems have rec:
    "bucket_loop DIRECTION row_idx number_of_sources number_of_targets node source_weight
       source_duration bs t1 = Inr t'"
    by (auto simp: Let_def l_def t1_def split: if_splits)
  have step: "lex_le (cell t1 loc) (cell t loc)"
    using bounds
    by (cases "loc = l") (auto simp: t1_def cell_def lex_le_refl intro: lex_less_imp_le)
  have first: "lex_le (cell t1 loc) new"
    if "l = loc" "0 \<le> source_weight + bucket_weight b"
    using that bounds
    by (auto simp: t1_def cell_def new_def lex_le_refl intro: not_lex_less_le)
  from Cons.IH [OF rec] have ih: "lex_le (cell t' loc) (cell t1 loc)"
    and rest: "\<forall>b \<in> set bs.
      location DIRECTION row_idx number_of_sources number_of_targets (column_index b) = loc \<longrightarrow>
      0 \<le> source_weight + bucket_weight b \<longrightarrow>
      lex_le (cell t' loc) (source_weight + bucket_weight b, source_duration + bucket_duration b)"
    by blast+
  from ih step have "lex_le (cell t' loc) (cell t loc)"
    by (rule lex_le_trans)
  moreover have "lex_le (cell t' loc) new"
    if "l = loc" "0 \<le> source_weight + bucket_weight b"
    using ih first [OF that] by (rule lex_le_trans)
  ultimately show ?case
    using rest by (auto simp: l_def new_def)
qed

lemma bucket_loop_same_cell:
  assumes full: "bucket_loop DIRECTION row_idx number_of_sources number_of_targets node
        source_weight source_duration bs t = Inr t'"
    and single: "bucket_loop DIRECTION' row_idx' number_of_sources' number_of_targets' node'
        source_weight source_duration bs1 t1 = Inr t1'"
    and old: "cell t loc = cell t1 loc1"
    and cands: "(\<lambda>b. (bucket_weight b, bucket_duration b)) `
        {b \<in> set bs. location DIRECTION row_idx number_of_sources number_of_targets
                        (column_index b) = loc} =
      (\<lambda>b. (bucket_weight b, bucket_duration b)) `
        {b \<in> set bs1. location DIRECTION' row_idx' number_of_sources' number_of_targets'
                         (column_index b) = loc1}"
  shows "cell t' loc = cell t1' loc1"
proof -
  have half: "lex_le (cell u' l) (cell v' m)"
    if u: "bucket_loop D r ns nt n source_weight source_duration us u = Inr u'"
      and v: "bucket_loop E q ms mt k source_weight source_duration vs v = Inr v'"
      and same: "cell u l = cell v m"
      and sub: "(\<lambda>b. (bucket_weight b, bucket_duration b)) `
          {b \<in> set vs. location E q ms mt (column_index b) = m} \<subseteq>
        (\<lambda>b. (bucket_weight b, bucket_duration b)) `
          {b \<in> set us. location D r ns nt (column_index b) = l}"
    for D r ns nt n us u u' l E q ms mt k vs v v' m
  proof -
    from bucket_loop_cell [OF v, of m] consider "cell v' m = cell v m"
      | b where "b \<in> set vs" "location E q ms mt (column_index b) = m"
          "0 \<le> source_weight + bucket_weight b"
          "cell v' m = (source_weight + bucket_weight b, source_duration + bucket_duration b)"
      by blast
    then show ?thesis
    proof cases
      case 1
      with bucket_loop_never_worse [OF u, of l] same show ?thesis
        by simp
    next
      case (2 b)
      from 2(1,2) sub obtain a where a: "a \<in> set us" "location D r ns nt (column_index a) = l"
        "bucket_weight a = bucket_weight b" "bucket_duration a = bucket_duration b"
        by (auto simp: image_def subset_iff) metis
      with bucket_loop_never_worse [OF u, of l] 2(3,4) show ?thesis
        by auto
    qed
  qed
  have "lex_le (cell t' loc) (cell t1' loc1)"
    using full single old cands by (intro half) auto
  moreover have "lex_le (cell t1' loc1) (cell t' loc)"
    using single full old cands by (intro half) auto
  ultimately show ?thesis
    by (rule lex_le_antisym)
qed

lemma bucket_loop_returns:
  assumes "length (weights_table t) = n" "length (durations_table t) = n"
    "length (middle_nodes_table t) = n"
    and "\<forall>b \<in> set bs.
      location DIRECTION row_idx number_of_sources number_of_targets (column_index b) < n"
  shows "\<exists>t'. bucket_loop DIRECTION row_idx number_of_sources number_of_targets node
     source_weight source_duration bs t = Inr t'"
  using assms
proof (induction bs arbitrary: t)
  case Nil
  then show ?case by simp
next
  case (Cons b bs)
  then show ?case
    by (simp add: Let_def)
qed

lemma forwardRoutingStep_bucket_loop:
  assumes "forwardRoutingStep DIRECTION facade row_idx number_of_sources number_of_targets
      query_heap search_space_with_buckets t phantom_node = Inr r"
  shows "\<exists>node h e. DeleteMin query_heap = Some (node, h) \<and> entries h node = Some e \<and>
      bucket_loop DIRECTION row_idx number_of_sources number_of_targets node (fst e)
        (heap_duration (snd e)) (equal_range_node search_space_with_buckets node) t =
        Inr (snd r) \<and>
      relaxOutgoingEdges DIRECTION facade node (fst e) (heap_duration (snd e)) h
        (OnePhantom phantom_node) = Inr (fst r)"
proof -
  from assms obtain node h where pop: "DeleteMin query_heap = Some (node, h)"
    by (cases "DeleteMin query_heap") (auto simp: forwardRoutingStep_def)
  with assms obtain e where e: "entries h node = Some e"
    by (cases "entries h node") (auto simp: forwardRoutingStep_def)
  from assms pop e have
    "bucket_loop DIRECTION row_idx number_of_sources number_of_targets node (fst e)
        (heap_duration (snd e)) (equal_range_node search_space_with_buckets node) t =
        Inr (snd r)"
    "relaxOutgoingEdges DIRECTION facade node (fst e) (heap_duration (snd e)) h
        (OnePhantom phantom_node) = Inr (fst r)"
    by (auto simp: forwardRoutingStep_def Let_def and_then_Inr_iff)
  with pop e show ?thesis
    by blast
qed

lemma forwardRoutingStep_lengths:
  assumes "forwardRoutingStep DIRECTION facade row_idx number_of_sources number_of_targets
      query_heap search_space_with_buckets t phantom_node = Inr r"
  shows "length (weights_table (snd r)) = length (weights_table t) \<and>
   length (durations_table (snd r)) = length (durations_table t) \<and>
   length (middle_nodes_table (snd r)) = length (middle_nodes_table t)"
  using forwardRoutingStep_bucket_loop [OF assms]
  by (auto dest: bucket_loop_lengths)

lemma forwardRoutingStep_other_cell:
  assumes "forwardRoutingStep DIRECTION facade row_idx number_of_sources number_of_targets
      query_heap search_space_with_buckets t phantom_node = Inr r"
    and "\<forall>b \<in> set search_space_with_buckets.
      location DIRECTION row_idx number_of_sources number_of_targets (column_index b) \<noteq> loc"
  shows "cell (snd r) loc = cell t loc"
proof -
  from forwardRoutingStep_bucket_loop [OF assms(1)] obtain node and h :: QueryHeap and e where
    "entries h node = Some e"
    "bucket_loop DIRECTION row_idx number_of_sources number_of_targets node (fst e)
        (heap_duration (snd e)) (equal_range_node search_space_with_buckets node) t =
        Inr (snd r)"
    by blast
  from bucket_loop_cell [OF this(2), of loc] assms(2) show ?thesis
    by (auto simp: equal_range_node_def)
qed

lemma forwardRoutingStep_same_cell:
  assumes full: "forwardRoutingStep DIRECTION facade row_idx number_of_sources number_of_targets
      query_heap search_space_with_buckets t phantom_node = Inr r"
    and one: "length (weights_table t1) = 1" "length (durations_table t1) = 1"
      "length (middle_nodes_table t1) = 1"
    and cols: "\<forall>b \<in> set buckets. column_index b = 0"
    and old: "cell t loc = cell t1 0"
    and cands: "\<forall>n. (\<lambda>b. (bucket_weight b, bucket_duration b)) `
        {b \<in> set search_space_with_buckets. middle_node b = n \<and>
           location DIRECTION row_idx number_of_sources number_of_targets (column_index b) = loc} =
      (\<lambda>b. (bucket_weight b, bucket_duration b)) ` {b \<in> set buckets. middle_node b = n}"
  shows "\<exists>t1'. forwardRoutingStep DIRECTION facade 0 1 1 query_heap buckets t1 phantom_node =
           Inr (fst r, t1') \<and>
         length (weights_table t1') = 1 \<and> length (durations_table t1') = 1 \<and>
         length (middle_nodes_table t1') = 1 \<and> cell (snd r) loc = cell t1' 0"
proof -
  from forwardRoutingStep_bucket_loop [OF full] obtain node h e where
    pop: "DeleteMin query_heap = Some (node, h)" and e: "entries h node = Some e"
    and loop: "bucket_loop DIRECTION row_idx number_of_sources number_of_targets node (fst e)
        (heap_duration (snd e)) (equal_range_node search_space_with_buckets node) t =
        Inr (snd r)"
    and relax: "relaxOutgoingEdges DIRECTION facade node (fst e) (heap_duration (snd e)) h
        (OnePhantom phantom_node) = Inr (fst r)"
    by blast
  have zero: "location DIRECTION 0 1 1 0 = 0"
    by (simp add: location_def as_unsigned_def)
  have "\<forall>b \<in> set (equal_range_node buckets node). location DIRECTION 0 1 1 (column_index b) < 1"
    using cols zero by (simp add: equal_range_node_def)
  from bucket_loop_returns [OF one this] obtain t1' where
    loop1: "bucket_loop DIRECTION 0 1 1 node (fst e) (heap_duration (snd e))
        (equal_range_node buckets node) t1 = Inr t1'"
    by blast
  have "{b \<in> set (equal_range_node buckets node). location DIRECTION 0 1 1 (column_index b) = 0} =
      {b \<in> set buckets. middle_node b = node}"
    using cols zero by (auto simp: equal_range_node_def)
  moreover have "{b \<in> set (equal_range_node search_space_with_buckets node).
       location DIRECTION row_idx number_of_sources number_of_targets (column_index b) = loc} =
      {b \<in> set search_space_with_buckets. middle_node b = node \<and>
           location DIRECTION row_idx number_of_sources number_of_targets (column_index b) = loc}"
    by (auto simp: equal_range_node_def)
  ultimately have "(\<lambda>b. (bucket_weight b, bucket_duration b)) `
        {b \<in> set (equal_range_node search_space_with_buckets node).
           location DIRECTION row_idx number_of_sources number_of_targets (column_index b) = loc} =
      (\<lambda>b. (bucket_weight b, bucket_duration b)) `
        {b \<in> set (equal_range_node buckets node).
           location DIRECTION 0 1 1 (column_index b) = 0}"
    using cands by simp
  from bucket_loop_same_cell [OF loop loop1 old this]
  have same: "cell (snd r) loc = cell t1' 0" .
  from pop e loop1 relax
  have "forwardRoutingStep DIRECTION facade 0 1 1 query_heap buckets t1 phantom_node =
           Inr (fst r, t1')"
    by (simp add: forwardRoutingStep_def Let_def and_then_simps)
  with same bucket_loop_lengths [OF loop1] one show ?thesis
    by auto
qed

lemma forward_loop_step:
  "forward_loop (Suc fuel) DIRECTION facade row_idx number_of_sources number_of_targets
     search_space_with_buckets source_phantom st =
     (if \<not> Empty (fst st)
      then and_then
             (forwardRoutingStep DIRECTION facade row_idx number_of_sources number_of_targets
                (fst st) search_space_with_buckets (snd st) source_phantom)
             (forward_loop fuel DIRECTION facade row_idx number_of_sources number_of_targets
                search_space_with_buckets source_phantom)
      else Inr st)"
  "forward_loop 0 DIRECTION facade row_idx number_of_sources number_of_targets
     search_space_with_buckets source_phantom st =
     (if \<not> Empty (fst st) then Inl OutOfFuel else Inr st)"
  by simp_all

lemma forward_loop_lengths:
  "forward_loop fuel DIRECTION facade row_idx number_of_sources number_of_targets
     search_space_with_buckets source_phantom st = Inr r \<Longrightarrow>
   length (weights_table (snd r)) = length (weights_table (snd st)) \<and>
   length (durations_table (snd r)) = length (durations_table (snd st)) \<and>
   length (middle_nodes_table (snd r)) = length (middle_nodes_table (snd st))"
proof (induction fuel arbitrary: st)
  case 0
  then show ?case by (auto simp: forward_loop_step split: if_splits)
next
  case (Suc fuel)
  show ?case
  proof (cases "Empty (fst st)")
    case True
    with Suc.prems show ?thesis by (auto simp: forward_loop_step)
  next
    case False
    with Suc.prems obtain st1 where
      step: "forwardRoutingStep DIRECTION facade row_idx number_of_sources number_of_targets
          (fst st) search_space_with_buckets (snd st) source_phantom = Inr st1"
      and rest: "forward_loop fuel DIRECTION facade row_idx number_of_sources number_of_targets
          search_space_with_buckets source_phantom st1 = Inr r"
      by (auto simp: forward_loop_step and_then_Inr_iff)
    from Suc.IH [OF rest] forwardRoutingStep_lengths [OF step] show ?thesis
      by simp
  qed
qed

lemma forward_loop_other_cell:
  "forward_loop fuel DIRECTION facade row_idx number_of_sources number_of_targets
     search_space_with_buckets source_phantom st = Inr r \<Longrightarrow>
   \<forall>b \<in> set search_space_with_buckets.
      location DIRECTION row_idx number_of_sources number_of_targets (column_index b) \<noteq> loc \<Longrightarrow>
   cell (snd r) loc = cell (snd st) loc"
proof (induction fuel arbitrary: st)
  case 0
  then show ?case by (auto simp: forward_loop_step split: if_splits)
next
  case (Suc fuel)
  show ?case
  proof (cases "Empty (fst st)")
    case True
    with Suc.prems show ?thesis by (auto simp: forward_loop_step)
  next
    case False
    with Suc.prems(1) obtain st1 where
      step: "forwardRoutingStep DIRECTION facade row_idx number_of_sources number_of_targets
          (fst st) search_space_with_buckets (snd st) source_phantom = Inr st1"
      and rest: "forward_loop fuel DIRECTION facade row_idx number_of_sources number_of_targets
          search_space_with_buckets source_phantom st1 = Inr r"
      by (auto simp: forward_loop_step and_then_Inr_iff)
    from Suc.IH [OF rest Suc.prems(2)] forwardRoutingStep_other_cell [OF step Suc.prems(2)]
    show ?thesis
      by simp
  qed
qed

lemma forward_loop_same_cell:
  assumes cols: "\<forall>b \<in> set buckets. column_index b = 0"
    and cands: "\<forall>n. (\<lambda>b. (bucket_weight b, bucket_duration b)) `
        {b \<in> set search_space_with_buckets. middle_node b = n \<and>
           location DIRECTION row_idx number_of_sources number_of_targets (column_index b) = loc} =
      (\<lambda>b. (bucket_weight b, bucket_duration b)) ` {b \<in> set buckets. middle_node b = n}"
  shows "forward_loop fuel DIRECTION facade row_idx number_of_sources number_of_targets
     search_space_with_buckets source_phantom (h, t) = Inr r \<Longrightarrow>
   length (weights_table t1) = 1 \<Longrightarrow> length (durations_table t1) = 1 \<Longrightarrow>
   length (middle_nodes_table t1) = 1 \<Longrightarrow> cell t loc = cell t1 0 \<Longrightarrow>
   \<exists>t1'. forward_loop fuel DIRECTION facade 0 1 1 buckets source_phantom (h, t1) =
           Inr (fst r, t1') \<and> cell (snd r) loc = cell t1' 0"
proof (induction fuel arbitrary: h t t1)
  case 0
  then show ?case by (auto simp: forward_loop_step split: if_splits)
next
  case (Suc fuel)
  show ?case
  proof (cases "Empty h")
    case True
    with Suc.prems show ?thesis by (auto simp: forward_loop_step)
  next
    case False
    with Suc.prems(1) obtain st1 where
      step: "forwardRoutingStep DIRECTION facade row_idx number_of_sources number_of_targets
          h search_space_with_buckets t source_phantom = Inr st1"
      and rest: "forward_loop fuel DIRECTION facade row_idx number_of_sources number_of_targets
          search_space_with_buckets source_phantom st1 = Inr r"
      by (auto simp: forward_loop_step and_then_Inr_iff)
    from forwardRoutingStep_same_cell [OF step Suc.prems(2,3,4) cols Suc.prems(5) cands]
    obtain u where u: "forwardRoutingStep DIRECTION facade 0 1 1 h buckets t1 source_phantom =
           Inr (fst st1, u)"
      "length (weights_table u) = 1" "length (durations_table u) = 1"
      "length (middle_nodes_table u) = 1" "cell (snd st1) loc = cell u 0"
      by blast
    from rest have "forward_loop fuel DIRECTION facade row_idx number_of_sources number_of_targets
          search_space_with_buckets source_phantom (fst st1, snd st1) = Inr r"
      by simp
    from Suc.IH [OF this u(2,3,4,5)] obtain t1' where
      "forward_loop fuel DIRECTION facade 0 1 1 buckets source_phantom (fst st1, u) =
           Inr (fst r, t1')" "cell (snd r) loc = cell t1' 0"
      by blast
    with False u(1) show ?thesis
      by (simp add: forward_loop_step and_then_simps)
  qed
qed

lemma for_each_append:
  "for_each body (xs @ ys) s = and_then (for_each body xs s) (for_each body ys)"
  by (induction xs arbitrary: s) (auto simp: and_then_def split: sum.splits)

lemma zip_upt_split:
  assumes "c < length xs"
  shows "zip [0..<length xs] xs =
    zip [0..<c] (take c xs) @ (c, xs ! c) # zip [Suc c..<length xs] (drop (Suc c) xs)"
proof -
  have "[0..<length xs] = [0..<c] @ c # [Suc c..<length xs]"
    using assms by (metis le_add1 less_imp_add_positive plus_nat.add_0 upt_add_eq_append
        upt_conv_Cons)
  moreover have "xs = take c xs @ xs ! c # drop (Suc c) xs"
    using assms by (simp add: id_take_nth_drop)
  ultimately have "zip [0..<length xs] xs =
    zip ([0..<c] @ c # [Suc c..<length xs]) (take c xs @ xs ! c # drop (Suc c) xs)"
    by simp
  also have "\<dots> = zip [0..<c] (take c xs) @ zip (c # [Suc c..<length xs]) (xs ! c # drop (Suc c) xs)"
    using assms by (intro zip_append) simp
  finally show ?thesis
    by simp
qed

lemma for_each_split:
  assumes "for_each body (zip [0..<length xs] xs) s = Inr s'" and "c < length xs"
  shows "\<exists>s1 s2. for_each body (zip [0..<c] (take c xs)) s = Inr s1 \<and>
           body (c, xs ! c) s1 = Inr s2 \<and>
           for_each body (zip [Suc c..<length xs] (drop (Suc c) xs)) s2 = Inr s'"
  using assms(1) unfolding zip_upt_split [OF assms(2)]
  by (auto simp: for_each_append and_then_Inr_iff)

lemma backwardRoutingStep_columns:
  assumes "backwardRoutingStep DIRECTION facade column_idx query_heap bs phantom_node = Inr r"
  shows "\<exists>b. snd r = bs @ [b\<lparr>column_index := column_idx\<rparr>] \<and>
    (\<forall>c2 bs2. backwardRoutingStep DIRECTION facade c2 query_heap bs2 phantom_node =
       Inr (fst r, bs2 @ [b\<lparr>column_index := c2\<rparr>]))"
proof -
  from assms obtain node h where pop: "DeleteMin query_heap = Some (node, h)"
    by (cases "DeleteMin query_heap") (auto simp: backwardRoutingStep_def)
  with assms obtain e where e: "entries h node = Some e"
    by (cases "entries h node") (auto simp: backwardRoutingStep_def)
  define b where "b =
    \<lparr>middle_node = node, parent_node = parent (snd e), column_index = column_idx,
     bucket_from_clique_arc = from_clique_arc (snd e), bucket_weight = fst e,
     bucket_duration = heap_duration (snd e)\<rparr>"
  from assms pop e have relax:
    "relaxOutgoingEdges (opposite DIRECTION) facade node (fst e) (heap_duration (snd e)) h
       (CappedPhantom phantom_node (maximal_level_of facade)) = Inr (fst r)"
    and r: "snd r = bs @ [b]"
    by (auto simp: backwardRoutingStep_def Let_def and_then_Inr_iff b_def)
  have "backwardRoutingStep DIRECTION facade c2 query_heap bs2 phantom_node =
       Inr (fst r, bs2 @ [b\<lparr>column_index := c2\<rparr>])" for c2 bs2
    using pop e relax by (simp add: backwardRoutingStep_def Let_def and_then_simps b_def)
  moreover have "b\<lparr>column_index := column_idx\<rparr> = b"
    by (simp add: b_def)
  ultimately show ?thesis
    using r by metis
qed

lemma backward_loop_step:
  "backward_loop (Suc fuel) DIRECTION facade column_idx target_phantom st =
     (if \<not> Empty (fst st)
      then and_then
             (backwardRoutingStep DIRECTION facade column_idx (fst st) (snd st) target_phantom)
             (backward_loop fuel DIRECTION facade column_idx target_phantom)
      else Inr st)"
  "backward_loop 0 DIRECTION facade column_idx target_phantom st =
     (if \<not> Empty (fst st) then Inl OutOfFuel else Inr st)"
  by simp_all

lemma backward_loop_columns:
  "backward_loop fuel DIRECTION facade column_idx target_phantom (h, bs) = Inr r \<Longrightarrow>
   \<exists>xs. snd r = bs @ map (\<lambda>b. b\<lparr>column_index := column_idx\<rparr>) xs \<and>
     (\<forall>c2 bs2. backward_loop fuel DIRECTION facade c2 target_phantom (h, bs2) =
        Inr (fst r, bs2 @ map (\<lambda>b. b\<lparr>column_index := c2\<rparr>) xs))"
proof (induction fuel arbitrary: h bs)
  case 0
  then have "r = (h, bs)" "Empty h"
    by (auto simp: backward_loop_step split: if_splits)
  then have "snd r = bs @ map (\<lambda>b. b\<lparr>column_index := column_idx\<rparr>) [] \<and>
     (\<forall>c2 bs2. backward_loop 0 DIRECTION facade c2 target_phantom (h, bs2) =
        Inr (fst r, bs2 @ map (\<lambda>b. b\<lparr>column_index := c2\<rparr>) []))"
    by (simp add: backward_loop_step)
  then show ?case by blast
next
  case (Suc fuel)
  show ?case
  proof (cases "Empty h")
    case True
    with Suc.prems have "r = (h, bs)"
      by (auto simp: backward_loop_step)
    with True have "snd r = bs @ map (\<lambda>b. b\<lparr>column_index := column_idx\<rparr>) [] \<and>
     (\<forall>c2 bs2. backward_loop (Suc fuel) DIRECTION facade c2 target_phantom (h, bs2) =
        Inr (fst r, bs2 @ map (\<lambda>b. b\<lparr>column_index := c2\<rparr>) []))"
      by (simp add: backward_loop_step)
    then show ?thesis by blast
  next
    case False
    with Suc.prems obtain st1 where
      step: "backwardRoutingStep DIRECTION facade column_idx h bs target_phantom = Inr st1"
      and rest: "backward_loop fuel DIRECTION facade column_idx target_phantom st1 = Inr r"
      by (auto simp: backward_loop_step and_then_Inr_iff)
    from backwardRoutingStep_columns [OF step] obtain b where
      b: "snd st1 = bs @ [b\<lparr>column_index := column_idx\<rparr>]"
      and other: "\<And>c2 bs2. backwardRoutingStep DIRECTION facade c2 h bs2 target_phantom =
         Inr (fst st1, bs2 @ [b\<lparr>column_index := c2\<rparr>])"
      by blast
    from rest b have "backward_loop fuel DIRECTION facade column_idx target_phantom
        (fst st1, bs @ [b\<lparr>column_index := column_idx\<rparr>]) = Inr r"
      by (metis prod.collapse)
    from Suc.IH [OF this] obtain xs where
      xs: "snd r = (bs @ [b\<lparr>column_index := column_idx\<rparr>]) @
             map (\<lambda>b. b\<lparr>column_index := column_idx\<rparr>) xs"
      and others: "\<And>c2 bs2. backward_loop fuel DIRECTION facade c2 target_phantom
           (fst st1, bs2) = Inr (fst r, bs2 @ map (\<lambda>b. b\<lparr>column_index := c2\<rparr>) xs)"
      by blast
    have "snd r = bs @ map (\<lambda>b. b\<lparr>column_index := column_idx\<rparr>) (b # xs)"
      using xs by simp
    moreover have "backward_loop (Suc fuel) DIRECTION facade c2 target_phantom (h, bs2) =
        Inr (fst r, bs2 @ map (\<lambda>b. b\<lparr>column_index := c2\<rparr>) (b # xs))" for c2 bs2
      using False other [of c2 bs2] others [of c2 "bs2 @ [b\<lparr>column_index := c2\<rparr>]"]
      by (simp add: backward_loop_step and_then_simps)
    ultimately show ?thesis by blast
  qed
qed

lemma backward_search_columns:
  assumes "backward_search fuel DIRECTION facade phantom_nodes (c, index) acc = Inr acc'"
  shows "index < length phantom_nodes \<and>
    (\<exists>hb xs.
       backward_loop fuel DIRECTION facade 0 (phantom_nodes ! index)
         (if DIRECTION = FORWARD_DIRECTION
          then insertTargetInHeap facade empty_heap (phantom_nodes ! index)
          else insertSourceInHeap facade empty_heap (phantom_nodes ! index), []) =
         Inr (hb, map (\<lambda>b. b\<lparr>column_index := 0\<rparr>) xs) \<and>
       acc' = acc @ map (\<lambda>b. b\<lparr>column_index := c\<rparr>) xs)"
proof -
  define seed where "seed =
    (if DIRECTION = FORWARD_DIRECTION
     then insertTargetInHeap facade empty_heap (phantom_nodes ! index)
     else insertSourceInHeap facade empty_heap (phantom_nodes ! index))"
  from assms have index: "index < length phantom_nodes"
    by (auto simp: backward_search_def Let_def split: if_splits)
  with assms obtain st where
    st: "backward_loop fuel DIRECTION facade c (phantom_nodes ! index) (seed, acc) = Inr st"
    and acc': "acc' = snd st"
    by (auto simp: backward_search_def Let_def and_then_Inr_iff seed_def)
  from backward_loop_columns [OF st] obtain xs where
    "snd st = acc @ map (\<lambda>b. b\<lparr>column_index := c\<rparr>) xs"
    "backward_loop fuel DIRECTION facade 0 (phantom_nodes ! index) (seed, []) =
        Inr (fst st, [] @ map (\<lambda>b. b\<lparr>column_index := 0\<rparr>) xs)"
    by blast
  with index acc' show ?thesis
    unfolding seed_def by auto
qed

lemma forward_search_forward_loop:
  fixes facade :: "('d::{zero,plus,minus,uminus,ord}) DataFacade"
  assumes "forward_search fuel DIRECTION facade phantom_nodes target_indices number_of_sources
     number_of_targets search_space_with_buckets calculate_distance (r, index) st = Inr st'"
  shows "index < length phantom_nodes \<and>
    (\<exists>h'. forward_loop fuel DIRECTION facade r (as_unsigned number_of_sources)
       (as_unsigned number_of_targets) search_space_with_buckets (phantom_nodes ! index)
       (if DIRECTION = FORWARD_DIRECTION
        then insertSourceInHeap facade empty_heap (phantom_nodes ! index)
        else insertTargetInHeap facade empty_heap (phantom_nodes ! index), fst st) =
       Inr (h', fst st'))"
  using assms
  by (auto simp: forward_search_def Let_def and_then_Inr_iff split: if_splits)

lemma set_insert_bucket: "set (insert_bucket b bs) = insert b (set bs)"
  by (induction bs) auto

lemma set_sort_buckets: "set (sort_buckets bs) = set bs"
  by (induction bs) (simp_all add: sort_buckets_def set_insert_bucket)

lemma location_as_unsigned:
  "location DIRECTION r (as_unsigned number_of_sources) (as_unsigned number_of_targets) c =
   location DIRECTION r number_of_sources number_of_targets c"
proof -
  have "(r * (n mod m) + c) mod m = (r * n + c) mod m" for n m :: nat
    by (metis mod_add_left_eq mod_mult_right_eq)
  moreover have "(r + c * (n mod m)) mod m = (r + c * n) mod m" for n m :: nat
    by (metis mod_add_right_eq mod_mult_right_eq)
  ultimately show ?thesis
    by (simp add: location_def as_unsigned_def)
qed

lemma in_zip_upt: "x \<in> set (zip [a..<b] ys) \<Longrightarrow> a \<le> fst x \<and> fst x < b"
  by (cases x) (auto dest: set_zip_leftD)

lemma backward_phase_column:
  assumes run: "for_each (backward_search fuel DIRECTION facade phantom_nodes)
      (zip [0..<length target_indices] target_indices) [] = Inr all_buckets"
    and c: "c < length target_indices"
  shows "target_indices ! c < length phantom_nodes \<and>
    (\<exists>hb xs.
       backward_loop fuel DIRECTION facade 0 (phantom_nodes ! (target_indices ! c))
         (if DIRECTION = FORWARD_DIRECTION
          then insertTargetInHeap facade empty_heap (phantom_nodes ! (target_indices ! c))
          else insertSourceInHeap facade empty_heap (phantom_nodes ! (target_indices ! c)), []) =
         Inr (hb, map (\<lambda>b. b\<lparr>column_index := 0\<rparr>) xs) \<and>
       {b \<in> set all_buckets. column_index b = c} = set (map (\<lambda>b. b\<lparr>column_index := c\<rparr>) xs)) \<and>
    (\<forall>b \<in> set all_buckets. column_index b < length target_indices)"
proof -
  let ?body = "backward_search fuel DIRECTION facade phantom_nodes"
  have tagged: "\<exists>xs. s' = s @ map (\<lambda>b. b\<lparr>column_index := fst x\<rparr>) xs"
    if "?body x s = Inr s'" for x s s'
    using backward_search_columns [of fuel DIRECTION facade phantom_nodes "fst x" "snd x" s s'] that
    by auto
  from for_each_split [OF run c] obtain s1 s2 where
    pre: "for_each ?body (zip [0..<c] (take c target_indices)) [] = Inr s1"
    and mid: "?body (c, target_indices ! c) s1 = Inr s2"
    and post: "for_each ?body
        (zip [Suc c..<length target_indices] (drop (Suc c) target_indices)) s2 = Inr all_buckets"
    by blast
  have before: "\<forall>b \<in> set s1. column_index b < c"
  proof (rule for_each_invariant [OF pre, where P = "\<lambda>s. \<forall>b \<in> set s. column_index b < c"])
    show "\<forall>b \<in> set []. column_index b < c" by simp
  next
    fix x s s'
    assume x: "x \<in> set (zip [0..<c] (take c target_indices))" and body: "?body x s = Inr s'"
      and s: "\<forall>b \<in> set s. column_index b < c"
    from in_zip_upt [OF x] have "fst x < c"
      by simp
    with tagged [OF body] s show "\<forall>b \<in> set s'. column_index b < c"
      by auto
  qed
  from backward_search_columns [OF mid] obtain hb xs where
    index: "target_indices ! c < length phantom_nodes"
    and single: "backward_loop fuel DIRECTION facade 0 (phantom_nodes ! (target_indices ! c))
         (if DIRECTION = FORWARD_DIRECTION
          then insertTargetInHeap facade empty_heap (phantom_nodes ! (target_indices ! c))
          else insertSourceInHeap facade empty_heap (phantom_nodes ! (target_indices ! c)), []) =
         Inr (hb, map (\<lambda>b. b\<lparr>column_index := 0\<rparr>) xs)"
    and s2: "s2 = s1 @ map (\<lambda>b. b\<lparr>column_index := c\<rparr>) xs"
    by blast
  from before s2 have at: "{b \<in> set s2. column_index b = c} =
      set (map (\<lambda>b. b\<lparr>column_index := c\<rparr>) xs)"
    by auto
  have after: "{b \<in> set all_buckets. column_index b = c} =
      set (map (\<lambda>b. b\<lparr>column_index := c\<rparr>) xs)"
  proof (rule for_each_invariant [OF post, where
        P = "\<lambda>s. {b \<in> set s. column_index b = c} = set (map (\<lambda>b. b\<lparr>column_index := c\<rparr>) xs)"])
    show "{b \<in> set s2. column_index b = c} = set (map (\<lambda>b. b\<lparr>column_index := c\<rparr>) xs)"
      by (rule at)
  next
    fix x s s'
    assume x: "x \<in> set (zip [Suc c..<length target_indices] (drop (Suc c) target_indices))"
      and body: "?body x s = Inr s'"
      and s: "{b \<in> set s. column_index b = c} = set (map (\<lambda>b. b\<lparr>column_index := c\<rparr>) xs)"
    from in_zip_upt [OF x] have "c < fst x"
      by simp
    with tagged [OF body] obtain ys where "s' = s @ map (\<lambda>b. b\<lparr>column_index := fst x\<rparr>) ys"
      "fst x \<noteq> c"
      by auto
    then have "{b \<in> set s'. column_index b = c} = {b \<in> set s. column_index b = c}"
      by auto
    with s show "{b \<in> set s'. column_index b = c} = set (map (\<lambda>b. b\<lparr>column_index := c\<rparr>) xs)"
      by simp
  qed
  have all: "\<forall>b \<in> set all_buckets. column_index b < length target_indices"
  proof (rule for_each_invariant [OF run, where
        P = "\<lambda>s. \<forall>b \<in> set s. column_index b < length target_indices"])
    show "\<forall>b \<in> set []. column_index b < length target_indices" by simp
  next
    fix x s s'
    assume x: "x \<in> set (zip [0..<length target_indices] target_indices)"
      and body: "?body x s = Inr s'"
      and s: "\<forall>b \<in> set s. column_index b < length target_indices"
    from in_zip_upt [OF x] have "fst x < length target_indices"
      by simp
    with tagged [OF body] s show "\<forall>b \<in> set s'. column_index b < length target_indices"
      by auto
  qed
  from index single after all show ?thesis
    by blast
qed

lemma forward_phase_cell:
  fixes facade :: "('d::{zero,plus,minus,uminus,ord}) DataFacade"
  assumes run: "for_each
      (forward_search fuel DIRECTION facade phantom_nodes target_indices (length source_indices)
         number_of_targets search_space_with_buckets calculate_distance)
      (zip [0..<length source_indices] source_indices) st0 = Inr st"
    and r: "r < length source_indices" and c: "c < number_of_targets"
    and size: "length source_indices * number_of_targets \<le> 4294967296"
    and columns: "\<forall>b \<in> set search_space_with_buckets. column_index b < number_of_targets"
    and cols: "\<forall>b \<in> set buckets. column_index b = 0"
    and cands: "\<forall>n. (\<lambda>b. (bucket_weight b, bucket_duration b)) `
        {b \<in> set search_space_with_buckets. middle_node b = n \<and> column_index b = c} =
      (\<lambda>b. (bucket_weight b, bucket_duration b)) ` {b \<in> set buckets. middle_node b = n}"
    and one: "length (weights_table t1) = 1" "length (durations_table t1) = 1"
      "length (middle_nodes_table t1) = 1"
    and old: "cell (fst st0) (location DIRECTION r (length source_indices) number_of_targets c) =
      cell t1 0"
  shows "source_indices ! r < length phantom_nodes \<and>
    (\<exists>h' t1'.
       forward_loop fuel DIRECTION facade 0 1 1 buckets (phantom_nodes ! (source_indices ! r))
         (if DIRECTION = FORWARD_DIRECTION
          then insertSourceInHeap facade empty_heap (phantom_nodes ! (source_indices ! r))
          else insertTargetInHeap facade empty_heap (phantom_nodes ! (source_indices ! r)), t1) =
         Inr (h', t1') \<and>
       cell (fst st) (location DIRECTION r (length source_indices) number_of_targets c) =
         cell t1' 0)"
proof -
  let ?ns = "length source_indices"
  let ?body = "forward_search fuel DIRECTION facade phantom_nodes target_indices ?ns
         number_of_targets search_space_with_buckets calculate_distance"
  define loc where "loc = location DIRECTION r ?ns number_of_targets c"
  have at: "location DIRECTION q (as_unsigned ?ns) (as_unsigned number_of_targets)
        (column_index b) = loc \<longleftrightarrow> q = r \<and> column_index b = c"
    if "q < ?ns" "b \<in> set search_space_with_buckets" for q b
  proof
    assume "location DIRECTION q (as_unsigned ?ns) (as_unsigned number_of_targets)
        (column_index b) = loc"
    then have "location DIRECTION q ?ns number_of_targets (column_index b) =
        location DIRECTION r ?ns number_of_targets c"
      by (simp add: location_as_unsigned loc_def)
    with location_injective [OF that(1) _ r c size, of "column_index b" DIRECTION] that(2) columns
    show "q = r \<and> column_index b = c"
      by blast
  next
    assume "q = r \<and> column_index b = c"
    then show "location DIRECTION q (as_unsigned ?ns) (as_unsigned number_of_targets)
        (column_index b) = loc"
      by (simp add: location_as_unsigned loc_def)
  qed
  have other: "cell (fst s') loc = cell (fst s) loc"
    if x: "fst x < ?ns" "fst x \<noteq> r" and body: "?body x s = Inr s'" for x s s'
  proof -
    from forward_search_forward_loop [of fuel DIRECTION facade phantom_nodes target_indices ?ns
        number_of_targets search_space_with_buckets calculate_distance "fst x" "snd x" s s'] body
    obtain h' where loop: "forward_loop fuel DIRECTION facade (fst x) (as_unsigned ?ns)
       (as_unsigned number_of_targets) search_space_with_buckets (phantom_nodes ! snd x)
       (if DIRECTION = FORWARD_DIRECTION
        then insertSourceInHeap facade empty_heap (phantom_nodes ! snd x)
        else insertTargetInHeap facade empty_heap (phantom_nodes ! snd x), fst s) =
       Inr (h', fst s')"
      by auto
    have "\<forall>b \<in> set search_space_with_buckets.
        location DIRECTION (fst x) (as_unsigned ?ns) (as_unsigned number_of_targets)
          (column_index b) \<noteq> loc"
      using at [OF x(1)] x(2) by blast
    from forward_loop_other_cell [OF loop this] show ?thesis
      by simp
  qed
  from for_each_split [OF run r] obtain s1 s2 where
    pre: "for_each ?body (zip [0..<r] (take r source_indices)) st0 = Inr s1"
    and mid: "?body (r, source_indices ! r) s1 = Inr s2"
    and post: "for_each ?body
        (zip [Suc r..<?ns] (drop (Suc r) source_indices)) s2 = Inr st"
    by blast
  have before: "cell (fst s1) loc = cell (fst st0) loc"
  proof (rule for_each_invariant [OF pre, where P = "\<lambda>s. cell (fst s) loc = cell (fst st0) loc"])
    show "cell (fst st0) loc = cell (fst st0) loc" by simp
  next
    fix x s s'
    assume x: "x \<in> set (zip [0..<r] (take r source_indices))" and body: "?body x s = Inr s'"
      and s: "cell (fst s) loc = cell (fst st0) loc"
    from in_zip_upt [OF x] r have "fst x < ?ns" "fst x \<noteq> r"
      by simp_all
    from other [OF this body] s show "cell (fst s') loc = cell (fst st0) loc"
      by simp
  qed
  from forward_search_forward_loop [OF mid] obtain h' where
    index: "source_indices ! r < length phantom_nodes"
    and loop: "forward_loop fuel DIRECTION facade r (as_unsigned ?ns)
       (as_unsigned number_of_targets) search_space_with_buckets
       (phantom_nodes ! (source_indices ! r))
       (if DIRECTION = FORWARD_DIRECTION
        then insertSourceInHeap facade empty_heap (phantom_nodes ! (source_indices ! r))
        else insertTargetInHeap facade empty_heap (phantom_nodes ! (source_indices ! r)),
        fst s1) = Inr (h', fst s2)"
    by blast
  have "{b \<in> set search_space_with_buckets. middle_node b = n \<and>
           location DIRECTION r (as_unsigned ?ns) (as_unsigned number_of_targets)
             (column_index b) = loc} =
        {b \<in> set search_space_with_buckets. middle_node b = n \<and> column_index b = c}" for n
    using at [OF r] by blast
  with cands have cands': "\<forall>n. (\<lambda>b. (bucket_weight b, bucket_duration b)) `
        {b \<in> set search_space_with_buckets. middle_node b = n \<and>
           location DIRECTION r (as_unsigned ?ns) (as_unsigned number_of_targets)
             (column_index b) = loc} =
      (\<lambda>b. (bucket_weight b, bucket_duration b)) ` {b \<in> set buckets. middle_node b = n}"
    by simp
  from before old have "cell (fst s1) loc = cell t1 0"
    by (simp add: loc_def)
  from forward_loop_same_cell [OF cols cands' loop one this] obtain t1' where
    single: "forward_loop fuel DIRECTION facade 0 1 1 buckets
         (phantom_nodes ! (source_indices ! r))
         (if DIRECTION = FORWARD_DIRECTION
          then insertSourceInHeap facade empty_heap (phantom_nodes ! (source_indices ! r))
          else insertTargetInHeap facade empty_heap (phantom_nodes ! (source_indices ! r)), t1) =
         Inr (h', t1')"
    and same: "cell (fst s2) loc = cell t1' 0"
    by auto
  have "cell (fst st) loc = cell t1' 0"
  proof (rule for_each_invariant [OF post, where P = "\<lambda>s. cell (fst s) loc = cell t1' 0"])
    show "cell (fst s2) loc = cell t1' 0" by (rule same)
  next
    fix x s s'
    assume x: "x \<in> set (zip [Suc r..<?ns] (drop (Suc r) source_indices))"
      and body: "?body x s = Inr s'"
      and s: "cell (fst s) loc = cell t1' 0"
    from in_zip_upt [OF x] have "fst x < ?ns" "fst x \<noteq> r"
      by simp_all
    from other [OF this body] s show "cell (fst s') loc = cell t1' 0"
      by simp
  qed
  with index single show ?thesis
    unfolding loc_def by blast
qed

lemma forward_phase_lengths:
  fixes facade :: "('d::{zero,plus,minus,uminus,ord}) DataFacade"
  assumes run: "for_each
      (forward_search fuel DIRECTION facade phantom_nodes target_indices number_of_sources
         number_of_targets search_space_with_buckets calculate_distance) rows st0 = Inr st"
  shows "length (durations_table (fst st)) = length (durations_table (fst st0))"
proof (rule for_each_invariant [OF run, where
      P = "\<lambda>s. length (durations_table (fst s)) = length (durations_table (fst st0))"])
  show "length (durations_table (fst st0)) = length (durations_table (fst st0))" by simp
next
  fix x s s'
  assume body: "forward_search fuel DIRECTION facade phantom_nodes target_indices
      number_of_sources number_of_targets search_space_with_buckets calculate_distance x s =
      Inr s'"
    and s: "length (durations_table (fst s)) = length (durations_table (fst st0))"
  from forward_search_forward_loop [of fuel DIRECTION facade phantom_nodes target_indices
      number_of_sources number_of_targets search_space_with_buckets calculate_distance
      "fst x" "snd x" s s'] body
  obtain h' where "forward_loop fuel DIRECTION facade (fst x) (as_unsigned number_of_sources)
       (as_unsigned number_of_targets) search_space_with_buckets (phantom_nodes ! snd x)
       (if DIRECTION = FORWARD_DIRECTION
        then insertSourceInHeap facade empty_heap (phantom_nodes ! snd x)
        else insertTargetInHeap facade empty_heap (phantom_nodes ! snd x), fst s) =
       Inr (h', fst s')"
    by auto
  from forward_loop_lengths [OF this] s
  show "length (durations_table (fst s')) = length (durations_table (fst st0))"
    by simp
qed

lemma mld_manyToManySearch_length:
  fixes facade :: "('d::{zero,plus,minus,uminus,ord}) DataFacade"
  assumes "mld_manyToManySearch fuel DIRECTION facade phantom_nodes source_indices
      target_indices calculate_distance = Inr res"
  shows "length (fst res) = length source_indices * length target_indices"
proof -
  from assms obtain buckets st where
    forw: "for_each
        (forward_search fuel DIRECTION facade phantom_nodes target_indices
           (length source_indices) (length target_indices) (sort_buckets buckets)
           calculate_distance)
        (zip [0..<min (length source_indices) 4294967296] source_indices)
        (initial_tables (length source_indices * length target_indices), []) = Inr st"
    and res: "res = (durations_table (fst st), snd st)"
    by (auto simp: mld_manyToManySearch_def Let_def and_then_Inr_iff split: if_splits)
  from forward_phase_lengths [OF forw] res show ?thesis
    by (simp add: initial_tables_def)
qed

lemma mld_manyToManySearch_cell:
  fixes facade :: "('d::{zero,plus,minus,uminus,ord}) DataFacade"
  assumes run: "mld_manyToManySearch fuel DIRECTION facade phantom_nodes source_indices
      target_indices calculate_distance = Inr res"
    and r: "r < length source_indices" and c: "c < length target_indices"
    and size: "length source_indices * length target_indices \<le> 4294967296"
  shows "pair_duration fuel DIRECTION facade (phantom_nodes ! (source_indices ! r))
      (phantom_nodes ! (target_indices ! c)) =
    Inr (fst res ! location DIRECTION r (length source_indices) (length target_indices) c)"
proof -
  let ?ns = "length source_indices" and ?nt = "length target_indices"
  define loc where "loc = location DIRECTION r ?ns ?nt c"
  from run have small: "?ns < 4294967296" "?nt < 4294967296"
    by (auto simp: mld_manyToManySearch_def Let_def and_then_Inr_iff split: if_splits)
  then have mins: "min ?ns 4294967296 = ?ns" "min ?nt 4294967296 = ?nt"
    by simp_all
  from run obtain all_buckets st where
    bwd: "for_each (backward_search fuel DIRECTION facade phantom_nodes)
        (zip [0..< ?nt] target_indices) [] = Inr all_buckets"
    and forw: "for_each
        (forward_search fuel DIRECTION facade phantom_nodes target_indices ?ns ?nt
           (sort_buckets all_buckets) calculate_distance)
        (zip [0..< ?ns] source_indices) (initial_tables (?ns * ?nt), []) = Inr st"
    and res: "res = (durations_table (fst st), snd st)"
    unfolding mld_manyToManySearch_def Let_def mins
    by (auto simp: and_then_Inr_iff split: if_splits)
  from backward_phase_column [OF bwd c] obtain hb xs where
    single: "backward_loop fuel DIRECTION facade 0 (phantom_nodes ! (target_indices ! c))
         (if DIRECTION = FORWARD_DIRECTION
          then insertTargetInHeap facade empty_heap (phantom_nodes ! (target_indices ! c))
          else insertSourceInHeap facade empty_heap (phantom_nodes ! (target_indices ! c)), []) =
         Inr (hb, map (\<lambda>b. b\<lparr>column_index := 0\<rparr>) xs)"
    and column: "{b \<in> set all_buckets. column_index b = c} =
        set (map (\<lambda>b. b\<lparr>column_index := c\<rparr>) xs)"
    and columns: "\<forall>b \<in> set all_buckets. column_index b < ?nt"
    by blast
  define buckets where "buckets = sort_buckets (map (\<lambda>b. b\<lparr>column_index := 0\<rparr>) xs)"
  have columns': "\<forall>b \<in> set (sort_buckets all_buckets). column_index b < ?nt"
    using columns by (simp add: set_sort_buckets)
  have cols: "\<forall>b \<in> set buckets. column_index b = 0"
    by (auto simp: buckets_def set_sort_buckets)
  have cands: "\<forall>n. (\<lambda>b. (bucket_weight b, bucket_duration b)) `
        {b \<in> set (sort_buckets all_buckets). middle_node b = n \<and> column_index b = c} =
      (\<lambda>b. (bucket_weight b, bucket_duration b)) ` {b \<in> set buckets. middle_node b = n}"
  proof
    fix n
    have "{b \<in> set (sort_buckets all_buckets). middle_node b = n \<and> column_index b = c} =
        {b \<in> set (map (\<lambda>b. b\<lparr>column_index := c\<rparr>) xs). middle_node b = n}"
      using column by (auto simp: set_sort_buckets)
    also have "\<dots> = (\<lambda>b. b\<lparr>column_index := c\<rparr>) ` {b \<in> set xs. middle_node b = n}"
      by auto
    finally have full: "(\<lambda>b. (bucket_weight b, bucket_duration b)) `
        {b \<in> set (sort_buckets all_buckets). middle_node b = n \<and> column_index b = c} =
        (\<lambda>b. (bucket_weight b, bucket_duration b)) ` {b \<in> set xs. middle_node b = n}"
      by (simp add: image_image)
    have "{b \<in> set buckets. middle_node b = n} =
        (\<lambda>b. b\<lparr>column_index := 0\<rparr>) ` {b \<in> set xs. middle_node b = n}"
      by (auto simp: buckets_def set_sort_buckets)
    then have "(\<lambda>b. (bucket_weight b, bucket_duration b)) ` {b \<in> set buckets. middle_node b = n} =
        (\<lambda>b. (bucket_weight b, bucket_duration b)) ` {b \<in> set xs. middle_node b = n}"
      by (simp add: image_image)
    with full show "(\<lambda>b. (bucket_weight b, bucket_duration b)) `
        {b \<in> set (sort_buckets all_buckets). middle_node b = n \<and> column_index b = c} =
      (\<lambda>b. (bucket_weight b, bucket_duration b)) ` {b \<in> set buckets. middle_node b = n}"
      by simp
  qed
  have one: "length (weights_table (initial_tables 1)) = 1"
    "length (durations_table (initial_tables 1)) = 1"
    "length (middle_nodes_table (initial_tables 1)) = 1"
    by (simp_all add: initial_tables_def)
  have "loc < ?ns * ?nt"
    unfolding loc_def using r c size by (rule location_value(2))
  then have old: "cell (fst (initial_tables (?ns * ?nt), [])) (location DIRECTION r ?ns ?nt c) =
      cell (initial_tables 1) 0"
    by (simp add: cell_def initial_tables_def loc_def)
  from forward_phase_cell [OF forw r c size columns' cols cands one old] obtain h' t1' where
    loop: "forward_loop fuel DIRECTION facade 0 1 1 buckets (phantom_nodes ! (source_indices ! r))
         (if DIRECTION = FORWARD_DIRECTION
          then insertSourceInHeap facade empty_heap (phantom_nodes ! (source_indices ! r))
          else insertTargetInHeap facade empty_heap (phantom_nodes ! (source_indices ! r)),
          initial_tables 1) = Inr (h', t1')"
    and same: "cell (fst st) loc = cell t1' 0"
    unfolding loc_def by blast
  from single loop have "pair_duration fuel DIRECTION facade
      (phantom_nodes ! (source_indices ! r)) (phantom_nodes ! (target_indices ! c)) =
      Inr (durations_table t1' ! 0)"
    unfolding pair_duration_def
    by (simp only: and_then_simps snd_conv buckets_def [symmetric])
  with same res show ?thesis
    by (simp add: cell_def loc_def)
qed

subsection \<open>Shortcut hops over a whole search\<close>





subsection \<open>Seeding and the stored pair\<close>

text \<open>
  C8. The stored pair of a node should be the least of the pairs explored for it. The seeding
  of \<^verbatim>\<open>oneToManySearch\<close> in forward direction breaks this for a source that is valid on both
  halves of a two-way dead-end segment (offsets 3 and 7, U-turn edges of weight 10): the seed of
  the forward half stores (-3, -3) for node 0; the seeding of the reverse half, node 1 with
  (-7, -7), then inserts its neighbour node 0 with (3, 3) and the parent 1 without testing
  \<^verbatim>\<open>WasInserted\<close>, and the larger pair replaces the smaller one. The relaxer replaces a stored
  pair only by a smaller one.
\<close>

theorem seeding_replaces_a_smaller_pair:
  "map_sum id (\<lambda>s. map_option stored_pair (entries (many_to_many_heap s) 0))
     (insert_node FORWARD_DIRECTION uturn_facade 0 (- 3) (- 3) (initial_one_to_many 0)) =
     Inr (Some (- 3, - 3)) \<and>
   map_sum id (\<lambda>s. entries (many_to_many_heap s) 0)
     (place_source FORWARD_DIRECTION uturn_facade [phantom_both] 0 (initial_one_to_many 0)) =
     Inr (Some (3, \<lparr>parent = 1, from_clique_arc = False, heap_duration = 3\<rparr>)) \<and>
   lex_less (- 3, - 3) (3, 3) \<and>
   entries
     (relax_edge False 1 0 3 3
        (Insert empty_heap 0 (- 3) \<lparr>parent = 0, from_clique_arc = False, heap_duration = - 3\<rparr>))
     0 =
     Some (- 3, \<lparr>parent = 0, from_clique_arc = False, heap_duration = - 3\<rparr>)"
  by code_simp

lemma forwardRoutingStep_writes:
  assumes "forwardRoutingStep DIRECTION facade row_idx number_of_sources number_of_targets
      query_heap search_space_with_buckets t phantom_node = Inr r"
  shows "\<exists>node h e. DeleteMin query_heap = Some (node, h) \<and> entries h node = Some e \<and>
      (\<forall>b \<in> set search_space_with_buckets.
         middle_node b = node \<longrightarrow> 0 \<le> fst e + bucket_weight b \<longrightarrow>
         lex_le
           (cell (snd r)
              (location DIRECTION row_idx number_of_sources number_of_targets (column_index b)))
           (fst e + bucket_weight b, heap_duration (snd e) + bucket_duration b))"
proof -
  from forwardRoutingStep_bucket_loop [OF assms] obtain node h e where
    pop: "DeleteMin query_heap = Some (node, h)" and e: "entries h node = Some e"
    and loop: "bucket_loop DIRECTION row_idx number_of_sources number_of_targets node (fst e)
        (heap_duration (snd e)) (equal_range_node search_space_with_buckets node) t =
        Inr (snd r)"
    by blast
  have "lex_le
           (cell (snd r)
              (location DIRECTION row_idx number_of_sources number_of_targets (column_index b)))
           (fst e + bucket_weight b, heap_duration (snd e) + bucket_duration b)"
    if "b \<in> set search_space_with_buckets" "middle_node b = node"
      "0 \<le> fst e + bucket_weight b" for b
    using bucket_loop_never_worse [OF loop,
        of "location DIRECTION row_idx number_of_sources number_of_targets (column_index b)"] that
    by (simp add: equal_range_node_def)
  with pop e show ?thesis
    by blast
qed

lemma calculate_cell_writes:
  fixes facade :: "('d::{zero,plus,minus,uminus,ord}) DataFacade"
  assumes "calculate_cell DIRECTION fuel facade query_heap phantom_nodes target_indices row_idx
      source_index source_phantom number_of_sources number_of_targets search_space_with_buckets
      middle_nodes column_idx distances_table = Inr d'"
  shows "length d' = length distances_table \<and>
    location DIRECTION row_idx number_of_sources number_of_targets column_idx <
      length distances_table \<and>
    (\<forall>l. l \<noteq> location DIRECTION row_idx number_of_sources number_of_targets column_idx \<longrightarrow>
         d' ! l = distances_table ! l) \<and>
    (source_index = target_indices ! column_idx \<longrightarrow>
       d' ! location DIRECTION row_idx number_of_sources number_of_targets column_idx = 0)"
  using assms
  by (auto simp: calculate_cell_def Let_def and_then_Inr_iff split: if_splits)

lemma calculateDistances_self_pair:
  fixes facade :: "('d::{zero,plus,minus,uminus,ord}) DataFacade"
  assumes run: "calculateDistances DIRECTION fuel facade query_heap phantom_nodes target_indices
      row_idx source_index source_phantom number_of_sources number_of_targets
      search_space_with_buckets middle_nodes distances_table = Inr d'"
    and c: "c < number_of_targets" and self: "source_index = target_indices ! c"
    and others: "\<forall>c' < number_of_targets. c' \<noteq> c \<longrightarrow>
      location DIRECTION row_idx number_of_sources number_of_targets c' \<noteq>
      location DIRECTION row_idx number_of_sources number_of_targets c"
  shows "length d' = length distances_table \<and>
    d' ! location DIRECTION row_idx number_of_sources number_of_targets c = 0"
proof -
  let ?body = "calculate_cell DIRECTION fuel facade query_heap phantom_nodes target_indices
      row_idx source_index source_phantom number_of_sources number_of_targets
      search_space_with_buckets middle_nodes"
  let ?loc = "location DIRECTION row_idx number_of_sources number_of_targets c"
  have len: "length d' = length distances_table"
  proof (rule for_each_invariant [OF run [unfolded calculateDistances_def],
        where P = "\<lambda>d. length d = length distances_table"])
    show "length distances_table = length distances_table" by simp
  next
    fix x and s s' :: "'d list"
    assume "?body x s = Inr s'" "length s = length distances_table"
    with calculate_cell_writes [of DIRECTION fuel facade query_heap phantom_nodes target_indices
        row_idx source_index source_phantom number_of_sources number_of_targets
        search_space_with_buckets middle_nodes x s s']
    show "length s' = length distances_table"
      by simp
  qed
  have "[0..<number_of_targets] = [0..<c] @ c # [Suc c..<number_of_targets]"
    using c by (metis le_add1 less_imp_add_positive plus_nat.add_0 upt_add_eq_append
        upt_conv_Cons)
  with run obtain s1 s2 where
    mid: "?body c s1 = Inr s2"
    and post: "for_each ?body [Suc c..<number_of_targets] s2 = Inr d'"
    by (auto simp: calculateDistances_def for_each_append and_then_Inr_iff)
  from calculate_cell_writes [OF mid] self have at: "s2 ! ?loc = 0"
    by simp
  have "d' ! ?loc = 0"
  proof (rule for_each_invariant [OF post, where P = "\<lambda>d. d ! ?loc = 0"])
    show "s2 ! ?loc = 0" by (rule at)
  next
    fix x and s s' :: "'d list"
    assume x: "x \<in> set [Suc c..<number_of_targets]" and body: "?body x s = Inr s'"
      and s: "s ! ?loc = 0"
    from x others have "location DIRECTION row_idx number_of_sources number_of_targets x \<noteq> ?loc"
      by simp
    with calculate_cell_writes [OF body] s show "s' ! ?loc = 0"
      by simp
  qed
  with len show ?thesis
    by simp
qed

lemma calculateDistances_other_cell:
  fixes facade :: "('d::{zero,plus,minus,uminus,ord}) DataFacade"
  assumes run: "calculateDistances DIRECTION fuel facade query_heap phantom_nodes target_indices
      row_idx source_index source_phantom number_of_sources number_of_targets
      search_space_with_buckets middle_nodes distances_table = Inr d'"
    and others: "\<forall>c' < number_of_targets.
      location DIRECTION row_idx number_of_sources number_of_targets c' \<noteq> loc"
  shows "length d' = length distances_table \<and> d' ! loc = distances_table ! loc"
proof (rule for_each_invariant [OF run [unfolded calculateDistances_def],
      where P = "\<lambda>d. length d = length distances_table \<and> d ! loc = distances_table ! loc"])
  show "length distances_table = length distances_table \<and>
      distances_table ! loc = distances_table ! loc"
    by simp
next
  fix x and s s' :: "'d list"
  assume x: "x \<in> set [0..<number_of_targets]"
    and body: "calculate_cell DIRECTION fuel facade query_heap phantom_nodes target_indices
      row_idx source_index source_phantom number_of_sources number_of_targets
      search_space_with_buckets middle_nodes x s = Inr s'"
    and s: "length s = length distances_table \<and> s ! loc = distances_table ! loc"
  from x others have "location DIRECTION row_idx number_of_sources number_of_targets x \<noteq> loc"
    by simp
  with calculate_cell_writes [OF body] s
  show "length s' = length distances_table \<and> s' ! loc = distances_table ! loc"
    by simp
qed

lemma resize_same: "length xs = n \<Longrightarrow> resize xs n v = xs"
  by (simp add: resize_def)

lemma length_resize: "length (resize xs n v) = n"
  by (simp add: resize_def)

lemma forward_search_distances:
  fixes facade :: "('d::{zero,plus,minus,uminus,ord}) DataFacade"
  assumes "forward_search fuel DIRECTION facade phantom_nodes target_indices number_of_sources
     number_of_targets search_space_with_buckets True (r, index) st = Inr st'"
  shows "\<exists>h middle_nodes.
      calculateDistances DIRECTION fuel facade h phantom_nodes target_indices r index
      (phantom_nodes ! index) (as_unsigned number_of_sources) (as_unsigned number_of_targets)
      search_space_with_buckets middle_nodes
      (resize (snd st) (number_of_sources * number_of_targets) (INVALID_EDGE_DISTANCE facade)) =
      Inr (snd st')"
proof -
  from assms obtain a :: QueryHeap and b :: Tables and x where
    "calculateDistances DIRECTION fuel facade a phantom_nodes target_indices r index
      (phantom_nodes ! index) (as_unsigned number_of_sources) (as_unsigned number_of_targets)
      search_space_with_buckets (middle_nodes_table b)
      (resize (snd st) (number_of_sources * number_of_targets) (INVALID_EDGE_DISTANCE facade)) =
      Inr x" "st' = (b, x)"
    by (auto simp: forward_search_def Let_def and_then_Inr_iff simp del: forward_loop.simps
        split: if_splits)
  then have "calculateDistances DIRECTION fuel facade a phantom_nodes target_indices r index
      (phantom_nodes ! index) (as_unsigned number_of_sources) (as_unsigned number_of_targets)
      search_space_with_buckets (middle_nodes_table b)
      (resize (snd st) (number_of_sources * number_of_targets) (INVALID_EDGE_DISTANCE facade)) =
      Inr (snd st')"
    by simp
  then show ?thesis
    by (intro exI)
qed

lemma mld_manyToManySearch_self_pair:
  fixes facade :: "('d::{zero,plus,minus,uminus,ord}) DataFacade"
  assumes run: "mld_manyToManySearch fuel DIRECTION facade phantom_nodes source_indices
      target_indices True = Inr res"
    and r: "r < length source_indices" and c: "c < length target_indices"
    and size: "length source_indices * length target_indices \<le> 4294967296"
    and self: "source_indices ! r = target_indices ! c"
  shows "length (snd res) = length source_indices * length target_indices \<and>
    snd res ! location DIRECTION r (length source_indices) (length target_indices) c = 0"
proof -
  let ?ns = "length source_indices" and ?nt = "length target_indices"
  let ?loc = "location DIRECTION r ?ns ?nt c"
  from run have small: "?ns < 4294967296" "?nt < 4294967296"
    by (auto simp: mld_manyToManySearch_def Let_def and_then_Inr_iff split: if_splits)
  then have mins: "min ?ns 4294967296 = ?ns" "min ?nt 4294967296 = ?nt"
    and same: "as_unsigned ?ns = ?ns" "as_unsigned ?nt = ?nt"
    by (simp_all add: as_unsigned_def)
  from run obtain all_buckets st where
    fwd: "for_each
        (forward_search fuel DIRECTION facade phantom_nodes target_indices ?ns ?nt
           (sort_buckets all_buckets) True)
        (zip [0..< ?ns] source_indices) (initial_tables (?ns * ?nt), []) = Inr st"
    and res: "res = (durations_table (fst st), snd st)"
    unfolding mld_manyToManySearch_def Let_def mins
    by (auto simp: and_then_Inr_iff split: if_splits)
  let ?body = "forward_search fuel DIRECTION facade phantom_nodes target_indices ?ns ?nt
           (sort_buckets all_buckets) True"
  have apart: "location DIRECTION q ?ns ?nt c' \<noteq> ?loc"
    if "q < ?ns" "c' < ?nt" "q \<noteq> r \<or> c' \<noteq> c" for q c'
    using location_injective [OF that(1,2) r c size, of DIRECTION] that(3) by blast
  from for_each_split [OF fwd r] obtain s1 s2 where
    mid: "?body (r, source_indices ! r) s1 = Inr s2"
    and post: "for_each ?body (zip [Suc r..< ?ns] (drop (Suc r) source_indices)) s2 = Inr st"
    by blast
  from forward_search_distances [OF mid] obtain h middle_nodes where
    "calculateDistances DIRECTION fuel facade h phantom_nodes target_indices r
      (source_indices ! r) (phantom_nodes ! (source_indices ! r)) ?ns ?nt
      (sort_buckets all_buckets) middle_nodes
      (resize (snd s1) (?ns * ?nt) (INVALID_EDGE_DISTANCE facade)) = Inr (snd s2)"
    unfolding same by blast
  from calculateDistances_self_pair [OF this c self] apart [OF r]
  have at: "length (snd s2) = ?ns * ?nt \<and> snd s2 ! ?loc = 0"
    by (simp add: length_resize)
  have "length (snd st) = ?ns * ?nt \<and> snd st ! ?loc = 0"
  proof (rule for_each_invariant [OF post, where
        P = "\<lambda>s. length (snd s) = ?ns * ?nt \<and> snd s ! ?loc = 0"])
    show "length (snd s2) = ?ns * ?nt \<and> snd s2 ! ?loc = 0" by (rule at)
  next
    fix x and s s' :: "Tables \<times> 'd list"
    assume x: "x \<in> set (zip [Suc r..< ?ns] (drop (Suc r) source_indices))"
      and body: "?body x s = Inr s'"
      and s: "length (snd s) = ?ns * ?nt \<and> snd s ! ?loc = 0"
    from in_zip_upt [OF x] have q: "fst x < ?ns" "fst x \<noteq> r"
      by simp_all
    from forward_search_distances [of fuel DIRECTION facade phantom_nodes target_indices ?ns ?nt
        "sort_buckets all_buckets" "fst x" "snd x" s s'] body
    obtain h middle_nodes where
      "calculateDistances DIRECTION fuel facade h phantom_nodes target_indices
      (fst x) (snd x) (phantom_nodes ! snd x) ?ns ?nt
      (sort_buckets all_buckets) middle_nodes
      (resize (snd s) (?ns * ?nt) (INVALID_EDGE_DISTANCE facade)) = Inr (snd s')"
      unfolding same by auto
    from calculateDistances_other_cell [OF this, of ?loc] apart [OF q(1)] q(2) s
    show "length (snd s') = ?ns * ?nt \<and> snd s' ! ?loc = 0"
      by (simp add: resize_same)
  qed
  with res show ?thesis
    by simp
qed

text \<open>
  C1, as stated, fails for a matrix of more than \<open>2 ^ 32\<close> cells. Take 65537 sources and
  65536 targets, for which the dispatcher chooses the reversed driver with 65536 rows and 65537
  columns. For row 0 (the caller's target 0) and column 65536 (the caller's source 65536) the
  position \<open>0 + 65536 * 65536\<close> wraps to 0, the position of the pair of source 0 and target 0,
  while the caller's position of the pair is 4294967296: a step of the forward search of row 0
  that meets a bucket of column 65536 writes the cell 0 and leaves the cell 4294967296 as it
  was.
\<close>

theorem position_wraps_in_a_large_matrix:
  "location REVERSE_DIRECTION 0 65536 65537 65536 = 0 \<and>
   location REVERSE_DIRECTION 0 65536 65537 0 = 0 \<and>
   (65536 * 65536 + 0 :: nat) = 4294967296 \<and>
   (\<exists>step. forwardRoutingStep REVERSE_DIRECTION line_facade 0 65536 65537 seeded_heap
        [bucket_at_0\<lparr>column_index := 65536\<rparr>] (initial_tables (65537 * 65536))
        (phantom_at 0 0) = Inr step \<and>
      cell (snd step) 0 = (5, 5) \<and>
      cell (snd step) 4294967296 = (INVALID_EDGE_WEIGHT, MAXIMAL_EDGE_DURATION))"
proof -
  have at: "location REVERSE_DIRECTION 0 65536 65537 65536 = 0"
    "location REVERSE_DIRECTION 0 65536 65537 0 = 0"
    by (simp_all add: location_def as_unsigned_def)
  have pop: "DeleteMin seeded_heap = Some (0, seeded_heap\<lparr>queue := []\<rparr>)"
    by (simp add: DeleteMin_def cell_example_seeded Let_def)
  have e: "entries (seeded_heap\<lparr>queue := []\<rparr>) 0 =
      Some (0, \<lparr>parent = 0, from_clique_arc = False, heap_duration = 0\<rparr>)"
    by (simp add: cell_example_seeded)
  define t where "t = (initial_tables (65537 * 65536))
    \<lparr>weights_table := (weights_table (initial_tables (65537 * 65536)))[0 := 5],
     durations_table := (durations_table (initial_tables (65537 * 65536)))[0 := 5],
     middle_nodes_table := (middle_nodes_table (initial_tables (65537 * 65536)))[0 := 0]\<rparr>"
  have loop: "bucket_loop REVERSE_DIRECTION 0 65536 65537 0 0 0
      (equal_range_node [bucket_at_0\<lparr>column_index := 65536\<rparr>] 0)
      (initial_tables (65537 * 65536)) = Inr t"
    by (simp add: equal_range_node_def bucket_at_0_def at Let_def initial_tables_def lex_less_def
        INVALID_EDGE_WEIGHT_def t_def)
  have "map_sum id (\<lambda>h. queue h)
      (relaxOutgoingEdges REVERSE_DIRECTION line_facade 0 0 0 (seeded_heap\<lparr>queue := []\<rparr>)
         (OnePhantom (phantom_at 0 0))) = Inr []"
    by code_simp
  then obtain h' where relax: "relaxOutgoingEdges REVERSE_DIRECTION line_facade 0 0 0
      (seeded_heap\<lparr>queue := []\<rparr>) (OnePhantom (phantom_at 0 0)) = Inr h'"
    by (auto dest: map_sum_InrD)
  from pop e loop relax
  have step: "forwardRoutingStep REVERSE_DIRECTION line_facade 0 65536 65537 seeded_heap
        [bucket_at_0\<lparr>column_index := 65536\<rparr>] (initial_tables (65537 * 65536))
        (phantom_at 0 0) = Inr (h', t)"
    by (simp add: forwardRoutingStep_def Let_def and_then_simps)
  have "cell t 0 = (5, 5)"
    "cell t 4294967296 = (INVALID_EDGE_WEIGHT, MAXIMAL_EDGE_DURATION)"
    by (simp_all add: cell_def t_def initial_tables_def)
  with step at show ?thesis
    by auto
qed

text \<open>
  C1, amended. The dispatcher runs the unidirectional search forward when there is one source;
  else the unidirectional search in reverse, with source and targets swapped, when there is one
  target; else the bidirectional driver in reverse with the index lists swapped when there are
  fewer targets than sources; else the bidirectional driver forward.

  When the bidirectional driver is chosen and the matrix has at most \<open>2 ^ 32\<close> cells, a call
  that returns gives a matrix of durations with one cell for each pair of a source and a
  target, and the cell at the row-major position \<open>i * T + j\<close> of the caller, for the source at
  position \<open>i\<close> and the target at position \<open>j\<close> of \<open>T\<close> targets, holds the duration of that pair.
  In the reversed driver the rows are the caller's targets and the columns the caller's
  sources: the forward search of row \<open>j\<close> meets the buckets of column \<open>i\<close>, the position that
  \<^verbatim>\<open>forwardRoutingStep\<close> computes for them is the transposed one, \<open>j + i * T\<close>, and the value
  there is what the reversed searches find for the pair (target \<open>j\<close>, source \<open>i\<close>) alone. When
  distances are requested, the distance 0 of a pair of the same phantom is at that position of
  the distance matrix too. A call of \<^verbatim>\<open>forwardRoutingStep\<close> leaves, in the cell at the position
  it computes for a bucket of the popped node, a pair that is at most the sum of the popped
  pair and the pair of the bucket, when the weight of the sum is not negative.
\<close>

theorem dispatch_policy:
  fixes facade :: "('d::{zero,plus,minus,uminus,ord}) DataFacade"
  shows
    "(length source_indices = 1 \<longrightarrow>
        manyToManySearch fuel facade phantom_nodes source_indices target_indices
          calculate_distance calculate_duration =
        oneToManySearch fuel FORWARD_DIRECTION facade phantom_nodes (hd source_indices)
          target_indices calculate_distance) \<and>
     (length source_indices \<noteq> 1 \<longrightarrow> length target_indices = 1 \<longrightarrow>
        manyToManySearch fuel facade phantom_nodes source_indices target_indices
          calculate_distance calculate_duration =
        oneToManySearch fuel REVERSE_DIRECTION facade phantom_nodes (hd target_indices)
          source_indices calculate_distance) \<and>
     (length source_indices \<noteq> 1 \<longrightarrow> length target_indices \<noteq> 1 \<longrightarrow>
      length target_indices < length source_indices \<longrightarrow>
        manyToManySearch fuel facade phantom_nodes source_indices target_indices
          calculate_distance calculate_duration =
        mld_manyToManySearch fuel REVERSE_DIRECTION facade phantom_nodes target_indices
          source_indices calculate_distance) \<and>
     (length source_indices \<noteq> 1 \<longrightarrow> length target_indices \<noteq> 1 \<longrightarrow>
      \<not> length target_indices < length source_indices \<longrightarrow>
        manyToManySearch fuel facade phantom_nodes source_indices target_indices
          calculate_distance calculate_duration =
        mld_manyToManySearch fuel FORWARD_DIRECTION facade phantom_nodes source_indices
          target_indices calculate_distance) \<and>
     (length source_indices \<noteq> 1 \<longrightarrow> length target_indices \<noteq> 1 \<longrightarrow>
      length source_indices * length target_indices \<le> 4294967296 \<longrightarrow>
      manyToManySearch fuel facade phantom_nodes source_indices target_indices
        calculate_distance calculate_duration = Inr (matrix, distance_matrix) \<longrightarrow>
        length matrix = length source_indices * length target_indices \<and>
        (\<forall>i < length source_indices. \<forall>j < length target_indices.
           (if length target_indices < length source_indices
            then location REVERSE_DIRECTION j (length target_indices) (length source_indices) i =
                   i * length target_indices + j \<and>
                 pair_duration fuel REVERSE_DIRECTION facade
                   (phantom_nodes ! (target_indices ! j)) (phantom_nodes ! (source_indices ! i)) =
                   Inr (matrix ! (i * length target_indices + j))
            else location FORWARD_DIRECTION i (length source_indices) (length target_indices) j =
                   i * length target_indices + j \<and>
                 pair_duration fuel FORWARD_DIRECTION facade
                   (phantom_nodes ! (source_indices ! i)) (phantom_nodes ! (target_indices ! j)) =
                   Inr (matrix ! (i * length target_indices + j))) \<and>
           (calculate_distance \<longrightarrow> source_indices ! i = target_indices ! j \<longrightarrow>
              length distance_matrix = length source_indices * length target_indices \<and>
              distance_matrix ! (i * length target_indices + j) = 0))) \<and>
     (forwardRoutingStep DIRECTION facade row_idx number_of_sources number_of_targets query_heap
        search_space_with_buckets tables phantom_node = Inr step \<longrightarrow>
        (\<exists>node h e. DeleteMin query_heap = Some (node, h) \<and> entries h node = Some e \<and>
           (\<forall>b \<in> set search_space_with_buckets.
              middle_node b = node \<longrightarrow> 0 \<le> fst e + bucket_weight b \<longrightarrow>
              lex_le
                (cell (snd step)
                   (location DIRECTION row_idx number_of_sources number_of_targets
                      (column_index b)))
                (fst e + bucket_weight b, heap_duration (snd e) + bucket_duration b))))"
proof (intro conjI impI allI)
  assume many: "length source_indices \<noteq> 1" "length target_indices \<noteq> 1"
    and size: "length source_indices * length target_indices \<le> 4294967296"
    and run: "manyToManySearch fuel facade phantom_nodes source_indices target_indices
        calculate_distance calculate_duration = Inr (matrix, distance_matrix)"
  from size have size': "length target_indices * length source_indices \<le> 4294967296"
    by (simp add: mult.commute)
  have reversed: "mld_manyToManySearch fuel REVERSE_DIRECTION facade phantom_nodes
        target_indices source_indices calculate_distance = Inr (matrix, distance_matrix)"
    if "length target_indices < length source_indices"
    using that many run by (simp add: manyToManySearch_def)
  have direct: "mld_manyToManySearch fuel FORWARD_DIRECTION facade phantom_nodes
        source_indices target_indices calculate_distance = Inr (matrix, distance_matrix)"
    if "\<not> length target_indices < length source_indices"
    using that many run by (simp add: manyToManySearch_def)
  show "length matrix = length source_indices * length target_indices"
  proof (cases "length target_indices < length source_indices")
    case True
    from mld_manyToManySearch_length [OF reversed [OF True]] show ?thesis
      by (simp add: mult.commute)
  next
    case False
    from mld_manyToManySearch_length [OF direct [OF False]] show ?thesis
      by simp
  qed
  fix i j
  assume i: "i < length source_indices" and j: "j < length target_indices"
  from location_value(1) [OF j i size', of REVERSE_DIRECTION]
  have at_reversed:
    "location REVERSE_DIRECTION j (length target_indices) (length source_indices) i =
      i * length target_indices + j"
    by simp
  from location_value(1) [OF i j size, of FORWARD_DIRECTION]
  have at_direct:
    "location FORWARD_DIRECTION i (length source_indices) (length target_indices) j =
      i * length target_indices + j"
    by simp
  show "if length target_indices < length source_indices
        then location REVERSE_DIRECTION j (length target_indices) (length source_indices) i =
               i * length target_indices + j \<and>
             pair_duration fuel REVERSE_DIRECTION facade
               (phantom_nodes ! (target_indices ! j)) (phantom_nodes ! (source_indices ! i)) =
               Inr (matrix ! (i * length target_indices + j))
        else location FORWARD_DIRECTION i (length source_indices) (length target_indices) j =
               i * length target_indices + j \<and>
             pair_duration fuel FORWARD_DIRECTION facade
               (phantom_nodes ! (source_indices ! i)) (phantom_nodes ! (target_indices ! j)) =
               Inr (matrix ! (i * length target_indices + j))"
  proof (cases "length target_indices < length source_indices")
    case True
    from mld_manyToManySearch_cell [OF reversed [OF True] j i size'] at_reversed True
    show ?thesis
      by simp
  next
    case False
    from mld_manyToManySearch_cell [OF direct [OF False] i j size] at_direct False
    show ?thesis
      by simp
  qed
  assume distance: calculate_distance and self: "source_indices ! i = target_indices ! j"
  have "length distance_matrix = length source_indices * length target_indices \<and>
      distance_matrix ! (i * length target_indices + j) = 0"
  proof (cases "length target_indices < length source_indices")
    case True
    from reversed [OF True] distance
    have "mld_manyToManySearch fuel REVERSE_DIRECTION facade phantom_nodes
        target_indices source_indices True = Inr (matrix, distance_matrix)"
      by simp
    from mld_manyToManySearch_self_pair [OF this j i size' self [symmetric]] at_reversed
    show ?thesis
      by (simp add: mult.commute)
  next
    case False
    from direct [OF False] distance
    have "mld_manyToManySearch fuel FORWARD_DIRECTION facade phantom_nodes
        source_indices target_indices True = Inr (matrix, distance_matrix)"
      by simp
    from mld_manyToManySearch_self_pair [OF this i j size self] at_direct
    show ?thesis
      by simp
  qed
  then show "length distance_matrix = length source_indices * length target_indices"
    and "distance_matrix ! (i * length target_indices + j) = 0"
    by simp_all
next
  assume "forwardRoutingStep DIRECTION facade row_idx number_of_sources number_of_targets
      query_heap search_space_with_buckets tables phantom_node = Inr step"
  then show "\<exists>node h e. DeleteMin query_heap = Some (node, h) \<and> entries h node = Some e \<and>
           (\<forall>b \<in> set search_space_with_buckets.
              middle_node b = node \<longrightarrow> 0 \<le> fst e + bucket_weight b \<longrightarrow>
              lex_le
                (cell (snd step)
                   (location DIRECTION row_idx number_of_sources number_of_targets
                      (column_index b)))
                (fst e + bucket_weight b, heap_duration (snd e) + bucket_duration b))"
    by (rule forwardRoutingStep_writes)
qed (simp_all add: manyToManySearch_def)

theorem dispatch_policy_witness:
  "manyToManySearch 10 line_facade [phantom_at 0 0, phantom_at 1 30] [0, 1, 0] [0, 1] False True =
     Inr ([0, 10, 2147483647, 0, 0, 10], []) \<and>
   manyToManySearch 10 line_facade [phantom_at 0 0, phantom_at 1 30] [0, 1, 0] [0, 1] False True =
     mld_manyToManySearch 10 REVERSE_DIRECTION line_facade [phantom_at 0 0, phantom_at 1 30]
       [0, 1] [0, 1, 0] False \<and>
   location REVERSE_DIRECTION 1 2 3 0 = 1 \<and>
   pair_duration 10 REVERSE_DIRECTION line_facade (phantom_at 1 30) (phantom_at 0 0) = Inr 10 \<and>
   location REVERSE_DIRECTION 0 2 3 1 = 2 \<and>
   pair_duration 10 REVERSE_DIRECTION line_facade (phantom_at 0 0) (phantom_at 1 30) =
     Inr 2147483647 \<and>
   manyToManySearch 10 isolated_facade [phantom_at 0 0, phantom_at 1 30] [0, 1, 0] [0, 1]
     True True =
     Inr ([0, 2147483647, 2147483647, 0, 0, 2147483647],
          [0, 2147483647, 2147483647, 0, 0, 2147483647]) \<and>
   [0, 2147483647, 2147483647, 0, 0, 2147483647 :: int] ! (2 * 2 + 0) = 0 \<and>
   (\<exists>step. forwardRoutingStep REVERSE_DIRECTION line_facade 1 2 3 seeded_heap
        [bucket_at_0\<lparr>column_index := 2\<rparr>] (initial_tables 6) (phantom_at 0 0) = Inr step \<and>
      location REVERSE_DIRECTION 1 2 3 2 = 5 \<and> lex_le (cell (snd step) 5) (5, 5))"
proof -
  note claim = dispatch_policy
  have run: "manyToManySearch 10 line_facade [phantom_at 0 0, phantom_at 1 30] [0, 1, 0] [0, 1]
      False True = Inr ([0, 10, 2147483647, 0, 0, 10], [])"
    by code_simp
  have run': "manyToManySearch 10 isolated_facade [phantom_at 0 0, phantom_at 1 30] [0, 1, 0]
      [0, 1] True True =
      Inr ([0, 2147483647, 2147483647, 0, 0, 2147483647],
           [0, 2147483647, 2147483647, 0, 0, 2147483647])"
    by code_simp
  have many: "length [0, 1, 0::nat] \<noteq> 1" "length [0, 1::nat] \<noteq> 1"
    "length [0, 1::nat] < length [0, 1, 0::nat]"
    "length [0, 1, 0::nat] * length [0, 1::nat] \<le> 4294967296"
    by simp_all
  note cells = claim [THEN conjunct2, THEN conjunct2, THEN conjunct2, THEN conjunct2,
      THEN conjunct1, rule_format, OF many(1,2,4) run, THEN conjunct2, rule_format,
      THEN conjunct1]
  note cells' = claim [THEN conjunct2, THEN conjunct2, THEN conjunct2, THEN conjunct2,
      THEN conjunct1, rule_format, OF many(1,2,4) run', THEN conjunct2, rule_format,
      THEN conjunct2, rule_format]
  have bounds: "(0::nat) < length [0, 1, 0::nat]" "(1::nat) < length [0, 1::nat]"
    "(1::nat) < length [0, 1, 0::nat]" "(0::nat) < length [0, 1::nat]"
    "(2::nat) < length [0, 1, 0::nat]"
    by simp_all
  have self: "[0, 1, 0::nat] ! 2 = [0, 1::nat] ! 0"
    by simp
  have durations:
    "pair_duration 10 REVERSE_DIRECTION line_facade (phantom_at 1 30) (phantom_at 0 0) = Inr 10"
    "pair_duration 10 REVERSE_DIRECTION line_facade (phantom_at 0 0) (phantom_at 1 30) =
       Inr 2147483647"
    using cells [of 0 1] cells [of 1 0] bounds by simp_all
  from cells' [OF bounds(5,4) _ self]
  have zero: "[0, 2147483647, 2147483647, 0, 0, 2147483647 :: int] ! (2 * 2 + 0) = 0"
    by simp
  have "map_sum id (\<lambda>r. cell (snd r) 5)
     (forwardRoutingStep REVERSE_DIRECTION line_facade 1 2 3 seeded_heap
        [bucket_at_0\<lparr>column_index := 2\<rparr>] (initial_tables 6) (phantom_at 0 0)) = Inr (5, 5)"
    by code_simp
  then obtain step where step: "forwardRoutingStep REVERSE_DIRECTION line_facade 1 2 3
      seeded_heap [bucket_at_0\<lparr>column_index := 2\<rparr>] (initial_tables 6) (phantom_at 0 0) =
      Inr step"
    by (auto dest: map_sum_InrD)
  from claim [THEN conjunct2, THEN conjunct2, THEN conjunct2, THEN conjunct2, THEN conjunct2,
      rule_format, OF step]
  obtain node h e where pop: "DeleteMin seeded_heap = Some (node, h)"
    and e: "entries h node = Some e"
    and writes: "\<And>b. b \<in> set [bucket_at_0\<lparr>column_index := 2\<rparr>] \<Longrightarrow> middle_node b = node \<Longrightarrow>
      0 \<le> fst e + bucket_weight b \<Longrightarrow>
      lex_le (cell (snd step) (location REVERSE_DIRECTION 1 2 3 (column_index b)))
        (fst e + bucket_weight b, heap_duration (snd e) + bucket_duration b)"
    by blast
  from pop have "node = 0" "h = seeded_heap\<lparr>queue := []\<rparr>"
    by (simp_all add: DeleteMin_def cell_example_seeded Let_def)
  with e have "e = (0, \<lparr>parent = 0, from_clique_arc = False, heap_duration = 0\<rparr>)"
    by (simp add: cell_example_seeded)
  with writes [of "bucket_at_0\<lparr>column_index := 2\<rparr>"] \<open>node = 0\<close>
  have "lex_le (cell (snd step) (location REVERSE_DIRECTION 1 2 3 2)) (5, 5)"
    by (simp add: bucket_at_0_def)
  moreover have at: "location REVERSE_DIRECTION 1 2 3 2 = 5"
    by (simp add: location_def as_unsigned_def)
  ultimately have "lex_le (cell (snd step) 5) (5, 5)"
    by simp
  with step at have last: "\<exists>step. forwardRoutingStep REVERSE_DIRECTION line_facade 1 2 3
        seeded_heap [bucket_at_0\<lparr>column_index := 2\<rparr>] (initial_tables 6) (phantom_at 0 0) =
        Inr step \<and>
      location REVERSE_DIRECTION 1 2 3 2 = 5 \<and> lex_le (cell (snd step) 5) (5, 5)"
    by blast
  have positions: "location REVERSE_DIRECTION 1 2 3 0 = 1" "location REVERSE_DIRECTION 0 2 3 1 = 2"
    by (simp_all add: location_def as_unsigned_def)
  from claim [THEN conjunct2, THEN conjunct2, THEN conjunct1, rule_format, OF many(1,2,3),
      of 10 line_facade "[phantom_at 0 0, phantom_at 1 30]" False True]
  have branch: "manyToManySearch 10 line_facade [phantom_at 0 0, phantom_at 1 30] [0, 1, 0]
      [0, 1] False True =
     mld_manyToManySearch 10 REVERSE_DIRECTION line_facade [phantom_at 0 0, phantom_at 1 30]
       [0, 1] [0, 1, 0] False" .
  from run branch positions durations run' zero last show ?thesis
    by (intro conjI)
qed

end
